theory Spec2Isabelle
  imports Complex_Main
begin

section \<open>JavaScript numbers\<close>

text \<open>
  The detection code computes with JavaScript numbers, which are IEEE doubles. A number
  is modelled as a real number or one of the three special values, and every arithmetic
  operation rounds its exact result to the nearest double (see below); the values that
  the code computes are therefore doubles, also where an input of the model is a real
  that is not one. The zero of the model is the positive zero, and a coordinate is taken
  not to be the negative zero; where the code computes a negative zero, its sign has no
  effect: no comparison tells the zeros apart, the divisors of the code that can be zero
  are results of \<open>Math.abs\<close>, and the arguments of \<open>Math.atan2\<close> are differences of
  coordinates. \<open>NaN\<close> also stands for every coordinate value that \<open>isNaN\<close> rejects.
\<close>

datatype jsnum = Fin real | PInf | NInf | NaN

subsection \<open>Rounding to double precision\<close>

text \<open>
  The result of an operation on doubles is the exact result rounded to the nearest
  double, a tie going to the even significand. For a real \<open>a\<close> with
  \<open>2 ^ e \<le> \<bar>a\<bar> < 2 ^ (e + 1)\<close> the doubles around it are the multiples of
  \<open>2 ^ (e - 52)\<close>; below \<open>2 ^ - 1022\<close> (the subnormal numbers) they are the multiples of
  \<open>2 ^ - 1074\<close>. A rounded result of magnitude \<open>2 ^ 1024\<close> or more is an infinity.
\<close>

definition round_even :: "real \<Rightarrow> int" where
  "round_even a =
     (let f = \<lfloor>a\<rfloor>; d = a - of_int f
      in if d < 1 / 2 then f else if 1 / 2 < d then f + 1 else if even f then f else f + 1)"

definition fl_at :: "int \<Rightarrow> real \<Rightarrow> real" where
  "fl_at e a = of_int (round_even (a / 2 powr (of_int e - 52))) * 2 powr (of_int e - 52)"

definition fl :: "real \<Rightarrow> real" where
  "fl a = (if a = 0 then 0 else fl_at (max \<lfloor>log 2 \<bar>a\<bar>\<rfloor> (- 1022)) a)"

text \<open>The number that an operation with the exact result \<open>a\<close> returns.\<close>

definition js_num :: "real \<Rightarrow> jsnum" where
  "js_num a =
     (let r = fl a
      in if 2 ^ 1024 \<le> \<bar>r\<bar> then (if a < 0 then NInf else PInf) else Fin r)"

subsection \<open>The operations\<close>

fun js_neg :: "jsnum \<Rightarrow> jsnum" where
  "js_neg (Fin a) = Fin (- a)"
| "js_neg PInf = NInf"
| "js_neg NInf = PInf"
| "js_neg NaN = NaN"

fun js_add :: "jsnum \<Rightarrow> jsnum \<Rightarrow> jsnum" where
  "js_add NaN _ = NaN"
| "js_add _ NaN = NaN"
| "js_add (Fin a) (Fin b) = js_num (a + b)"
| "js_add PInf NInf = NaN"
| "js_add NInf PInf = NaN"
| "js_add PInf _ = PInf"
| "js_add NInf _ = NInf"
| "js_add (Fin a) b = b"

definition js_sub :: "jsnum \<Rightarrow> jsnum \<Rightarrow> jsnum" where
  "js_sub a b = js_add a (js_neg b)"

text \<open>The sign of a number that is not \<open>NaN\<close>: \<open>-1\<close>, \<open>0\<close> or \<open>1\<close>.\<close>

fun js_sign :: "jsnum \<Rightarrow> int" where
  "js_sign (Fin a) = (if a < 0 then - 1 else if a = 0 then 0 else 1)"
| "js_sign PInf = 1"
| "js_sign NInf = - 1"
| "js_sign NaN = 0"

definition js_inf :: "int \<Rightarrow> jsnum" where
  "js_inf s = (if s < 0 then NInf else PInf)"

fun js_mul :: "jsnum \<Rightarrow> jsnum \<Rightarrow> jsnum" where
  "js_mul NaN _ = NaN"
| "js_mul _ NaN = NaN"
| "js_mul (Fin a) (Fin b) = js_num (a * b)"
| "js_mul a b = (if js_sign a * js_sign b = 0 then NaN else js_inf (js_sign a * js_sign b))"

text \<open>
  Division. A zero divisor is the positive zero: the only divisors of the detection code
  that can be zero are results of \<open>Math.abs\<close>.
\<close>

fun js_div :: "jsnum \<Rightarrow> jsnum \<Rightarrow> jsnum" where
  "js_div NaN _ = NaN"
| "js_div _ NaN = NaN"
| "js_div (Fin a) (Fin b) =
     (if b = 0 then (if a = 0 then NaN else js_inf (js_sign (Fin a))) else js_num (a / b))"
| "js_div (Fin a) _ = Fin 0"
| "js_div a (Fin b) = js_inf (js_sign a * (if b < 0 then - 1 else 1))"
| "js_div _ _ = NaN"

fun js_abs :: "jsnum \<Rightarrow> jsnum" where
  "js_abs (Fin a) = Fin \<bar>a\<bar>"
| "js_abs PInf = PInf"
| "js_abs NInf = PInf"
| "js_abs NaN = NaN"

text \<open>The comparison \<open>a < b\<close>; every comparison with \<open>NaN\<close> is false.\<close>

fun js_lt :: "jsnum \<Rightarrow> jsnum \<Rightarrow> bool" where
  "js_lt NaN _ = False"
| "js_lt _ NaN = False"
| "js_lt (Fin a) (Fin b) = (a < b)"
| "js_lt NInf NInf = False"
| "js_lt NInf _ = True"
| "js_lt PInf _ = False"
| "js_lt (Fin a) PInf = True"
| "js_lt (Fin a) NInf = False"

definition js_gt :: "jsnum \<Rightarrow> jsnum \<Rightarrow> bool" where
  "js_gt a b = js_lt b a"

fun js_isNaN :: "jsnum \<Rightarrow> bool" where
  "js_isNaN NaN = True"
| "js_isNaN _ = False"

text \<open>Truthiness of a number: \<open>0\<close> and \<open>NaN\<close> are falsy.\<close>

fun js_truthy :: "jsnum \<Rightarrow> bool" where
  "js_truthy (Fin a) = (a \<noteq> 0)"
| "js_truthy NaN = False"
| "js_truthy _ = True"

text \<open>
  \<open>Math.PI\<close> is the double nearest to \<open>\<pi>\<close>, 3.141592653589793. \<open>Math.atan2(y, x)\<close>
  follows the cases of the language standard; its result is an approximation that the
  standard leaves to the implementation, taken here to be the double nearest to the
  exact value.
\<close>

definition Math_PI :: real where
  "Math_PI = 884279719003555 / 2 ^ 48"

fun js_atan2 :: "jsnum \<Rightarrow> jsnum \<Rightarrow> jsnum" where
  "js_atan2 NaN _ = NaN"
| "js_atan2 _ NaN = NaN"
| "js_atan2 (Fin b) (Fin a) =
     (if b = 0 then Fin (if a < 0 then Math_PI else 0)
      else if a = 0 then Fin (if 0 < b then Math_PI / 2 else - (Math_PI / 2))
      else js_num (if 0 < a then arctan (b / a)
                   else if 0 < b then arctan (b / a) + pi
                   else arctan (b / a) - pi))"
| "js_atan2 (Fin b) PInf = Fin 0"
| "js_atan2 (Fin b) NInf = Fin (if b < 0 then - Math_PI else Math_PI)"
| "js_atan2 PInf (Fin a) = Fin (Math_PI / 2)"
| "js_atan2 NInf (Fin a) = Fin (- (Math_PI / 2))"
| "js_atan2 PInf PInf = Fin (Math_PI / 4)"
| "js_atan2 PInf NInf = js_num (3 * pi / 4)"
| "js_atan2 NInf PInf = Fin (- (Math_PI / 4))"
| "js_atan2 NInf NInf = js_num (- (3 * pi / 4))"

section \<open>Keypoints and the posture classifier (postureDetection.js)\<close>

text \<open>
  A keypoint of the pose detector. The fields \<open>part\<close> and \<open>name\<close> may be missing
  (\<open>None\<close>); the coordinates are the fields \<open>x\<close> and \<open>y\<close> of the source.
\<close>

record keypoint =
  kp_part :: "string option"
  kp_name :: "string option"
  kp_x :: jsnum
  kp_y :: jsnum

text \<open>\<open>k.part || k.name\<close>: a missing or empty \<open>part\<close> is falsy.\<close>

definition kp_key :: "keypoint \<Rightarrow> string option" where
  "kp_key k = (case kp_part k of
                 None \<Rightarrow> kp_name k
               | Some p \<Rightarrow> (if p = [] then kp_name k else Some p))"

text \<open>\<open>keypoints.find((k) => (k.part || k.name) === name)\<close>\<close>

definition findKeypoint :: "keypoint list \<Rightarrow> string \<Rightarrow> keypoint option" where
  "findKeypoint keypoints name = find (\<lambda>k. kp_key k = Some name) keypoints"

record baseline =
  ratio :: jsnum

text \<open>
  The slouching check of \<open>analyzePosture\<close> (priority 1). In the checks the literals
  \<open>0\<close>, \<open>2\<close>, \<open>0.25\<close>, \<open>174\<close> and \<open>180\<close> are doubles; a literal that is not one
  (\<open>0.2\<close>, \<open>0.35\<close>, \<open>0.15\<close>) stands for the double nearest to it.
\<close>

definition slouching_check ::
  "baseline option \<Rightarrow> keypoint \<Rightarrow> keypoint \<Rightarrow> keypoint \<Rightarrow> jsnum \<Rightarrow> string list" where
  "slouching_check baselinePosture leftShoulder rightShoulder nose shoulderWidth =
     (case baselinePosture of
        None \<Rightarrow> []
      | Some b \<Rightarrow>
          if js_gt shoulderWidth (Fin 0) then
            (let avgShoulderY = js_div (js_add (kp_y leftShoulder) (kp_y rightShoulder)) (Fin 2);
                 noseToShoulderGap = js_sub avgShoulderY (kp_y nose);
                 deviation =
                   (if js_truthy (ratio b)
                    then js_div (js_sub (js_div noseToShoulderGap shoulderWidth) (ratio b)) (ratio b)
                    else Fin 0)
             in if js_lt deviation (Fin (- 0.25)) then [''Slouching''] else [])
          else [])"

text \<open>The vertical head tilt check (priority 2).\<close>

definition tilt_check ::
  "keypoint option \<Rightarrow> keypoint option \<Rightarrow> keypoint option \<Rightarrow> keypoint option \<Rightarrow> string list" where
  "tilt_check leftEye rightEye leftEar rightEar =
     (case (leftEye, rightEye, leftEar, rightEar) of
        (Some le, Some re, Some la, Some ra) \<Rightarrow>
          (let avgEyeY = js_div (js_add (kp_y le) (kp_y re)) (Fin 2);
               avgEarY = js_div (js_add (kp_y la) (kp_y ra)) (Fin 2);
               eyeDistance = js_abs (js_sub (kp_x le) (kp_x re));
               tiltRatio = js_div (js_sub avgEarY avgEyeY) eyeDistance
           in if js_lt tiltRatio (js_neg (js_num 0.2)) then [''Looking Down'']
              else if js_gt tiltRatio (js_num 0.35) then [''Looking Up'']
              else [])
      | _ \<Rightarrow> [])"

text \<open>The head leaning check (priority 3).\<close>

definition leaning_check ::
  "keypoint \<Rightarrow> keypoint \<Rightarrow> keypoint option \<Rightarrow> keypoint option \<Rightarrow> jsnum \<Rightarrow> string list" where
  "leaning_check leftShoulder rightShoulder mouthLeft mouthRight shoulderWidth =
     (case (mouthLeft, mouthRight) of
        (Some ml, Some mr) \<Rightarrow>
          (let midShoulderX = js_div (js_add (kp_x leftShoulder) (kp_x rightShoulder)) (Fin 2);
               midMouthX = js_div (js_add (kp_x ml) (kp_x mr)) (Fin 2)
           in if js_gt (js_abs (js_sub midMouthX midShoulderX)) (js_mul shoulderWidth (js_num 0.15))
              then [''Leaning Head''] else [])
      | _ \<Rightarrow> [])"

text \<open>The shoulder tilt check (priority 4).\<close>

definition shoulders_check :: "keypoint \<Rightarrow> keypoint \<Rightarrow> string list" where
  "shoulders_check leftShoulder rightShoulder =
     (let shoulderAngleDeg =
            js_abs (js_div (js_mul (js_atan2 (js_sub (kp_y rightShoulder) (kp_y leftShoulder))
                                             (js_sub (kp_x rightShoulder) (kp_x leftShoulder)))
                                   (Fin 180))
                           (Fin Math_PI))
      in if js_lt shoulderAngleDeg (Fin 174) then [''Tilted Shoulders''] else [])"

text \<open>
  \<open>analyzePosture(keypoints)\<close>; the global \<open>baselinePosture\<close> it reads is the first
  argument. The flags are pushed in the order of the four checks.
\<close>

definition analyzePosture :: "baseline option \<Rightarrow> keypoint list \<Rightarrow> string list" where
  "analyzePosture baselinePosture keypoints =
     (case (findKeypoint keypoints ''left_shoulder'',
            findKeypoint keypoints ''right_shoulder'',
            findKeypoint keypoints ''nose'') of
        (Some leftShoulder, Some rightShoulder, Some nose) \<Rightarrow>
          (let shoulderWidth = js_abs (js_sub (kp_x rightShoulder) (kp_x leftShoulder))
           in slouching_check baselinePosture leftShoulder rightShoulder nose shoulderWidth
              @ tilt_check (findKeypoint keypoints ''left_eye'')
                           (findKeypoint keypoints ''right_eye'')
                           (findKeypoint keypoints ''left_ear'')
                           (findKeypoint keypoints ''right_ear'')
              @ leaning_check leftShoulder rightShoulder
                              (findKeypoint keypoints ''mouth_left'')
                              (findKeypoint keypoints ''mouth_right'') shoulderWidth
              @ shoulders_check leftShoulder rightShoulder)
      | _ \<Rightarrow> [''Key points hidden''])"

section \<open>The shared state of the scripts and of the browser\<close>

text \<open>
  The notifications of the detection code. The texts of the source:
  \<^item> \<open>StillCalibrating\<close>: "Still calibrating. Please wait a moment and try again."
  \<^item> \<open>ShouldersNotDetected\<close>: "Could not detect shoulders clearly. Try adjusting your position."
  \<^item> \<open>CannotDetermineWidth\<close>: "Cannot determine shoulder width. Please sit upright."
  \<^item> \<open>BaselineSaved\<close>: "Baseline posture saved!"
  \<^item> \<open>PostureTip\<close>: "Coaching Tip: Try to maintain an upright posture."
  \<^item> \<open>EmotionTip\<close>: "Coaching Tip: Remember to convey confidence and positivity!"
  \<^item> \<open>InterviewStarted\<close>: "Interview started!"
\<close>

datatype message =
  StillCalibrating | ShouldersNotDetected | CannotDetermineWidth | BaselineSaved
  | PostureTip | EmotionTip | InterviewStarted

datatype severity = Success | Error

text \<open>The icons of the posture indicator and the emoji of the emotion indicator.\<close>

datatype icon = Thinking | Warning | Check

datatype emoji = Happy | Sad | Neutral | Surprised | Angry | Fearful | Puzzled

text \<open>
  The callbacks that the scripts hand to \<open>setTimeout\<close> and \<open>setInterval\<close>: the hiding
  of a notification (\<open>showNotification\<close>), the two alert callbacks, and the emotion loop
  of \<open>startDetection\<close>.
\<close>

datatype timer_cb = HideNotification | PostureAlert | EmotionAlert | EmotionLoop

datatype js_error = TypeError

record video =
  srcObject :: "nat list option"
  paused :: bool
  ended :: bool

record question =
  q_text :: string
  q_type :: string

text \<open>
  The global variables of main.js, postureDetection.js, emotionDetection.js and the
  interview manager, followed by the part of the browser they act on: the pool of
  pending timers (timeouts and intervals share their handles), the pending animation
  frames, the next fresh handle, the camera tracks that are live, the notifications
  shown so far, and the two indicators of the page.
\<close>

record state =
  recording :: bool
  videoElement :: "video option"
  canvasContext :: bool
  detectionInterval :: "nat option"
  poseDetectionFrameId :: "nat option"
  baselinePosture :: "baseline option"
  lastKeypoints :: "keypoint list option"
  badPostureTimer :: "nat option"
  isAlertingPosture :: bool
  badEmotionTimer :: "nat option"
  isAlertingEmotion :: bool
  lastDetectedEmotion :: string
  isFetchingQuestions :: bool
  answersBeingProcessed :: int
  questions :: "question list"
  currentQuestionIndex :: nat
  totalQuestions :: nat
  interviewData :: "string list"
  currentAnswerEmotions :: "string list"
  currentAnswerPostures :: "string list"
  timers :: "(nat \<times> timer_cb) list"
  animationFrames :: "nat list"
  nextHandle :: nat
  liveTracks :: "nat list"
  notifications :: "(message \<times> severity) list"
  postureUI :: "(icon \<times> string) option"
  emotionUI :: "(emoji \<times> string) option"

text \<open>The state when the scripts have been loaded.\<close>

definition init :: state where
  "init = \<lparr> recording = False, videoElement = None, canvasContext = False,
            detectionInterval = None, poseDetectionFrameId = None,
            baselinePosture = None, lastKeypoints = None,
            badPostureTimer = None, isAlertingPosture = False,
            badEmotionTimer = None, isAlertingEmotion = False,
            lastDetectedEmotion = ''neutral'',
            isFetchingQuestions = True, answersBeingProcessed = 0, questions = [],
            currentQuestionIndex = 0, totalQuestions = 0, interviewData = [],
            currentAnswerEmotions = [], currentAnswerPostures = [],
            timers = [], animationFrames = [], nextHandle = 1, liveTracks = [],
            notifications = [], postureUI = None, emotionUI = None \<rparr>"

subsection \<open>Timers of the browser\<close>

text \<open>A handle is a positive integer; as a condition, \<open>null\<close> and \<open>0\<close> are falsy.\<close>

fun handle_truthy :: "nat option \<Rightarrow> bool" where
  "handle_truthy None = False"
| "handle_truthy (Some h) = (h \<noteq> 0)"

definition setTimeout :: "timer_cb \<Rightarrow> state \<Rightarrow> nat \<times> state" where
  "setTimeout cb st =
     (nextHandle st,
      st\<lparr>timers := timers st @ [(nextHandle st, cb)], nextHandle := nextHandle st + 1\<rparr>)"

text \<open>\<open>clearTimeout\<close> and \<open>clearInterval\<close> both remove the timer with the handle.\<close>

definition clearTimeout :: "nat \<Rightarrow> state \<Rightarrow> state" where
  "clearTimeout h st = st\<lparr>timers := filter (\<lambda>t. fst t \<noteq> h) (timers st)\<rparr>"

definition clearInterval :: "nat \<Rightarrow> state \<Rightarrow> state" where
  "clearInterval h st = clearTimeout h st"

definition cancelAnimationFrame :: "nat \<Rightarrow> state \<Rightarrow> state" where
  "cancelAnimationFrame h st = st\<lparr>animationFrames := filter (\<lambda>f. f \<noteq> h) (animationFrames st)\<rparr>"

subsection \<open>uiController.js: notifications\<close>

text \<open>\<open>showNotification\<close> shows the message and sets a timeout that hides it.\<close>

definition showNotification :: "message \<Rightarrow> severity \<Rightarrow> state \<Rightarrow> state" where
  "showNotification m type st =
     snd (setTimeout HideNotification (st\<lparr>notifications := notifications st @ [(m, type)]\<rparr>))"

definition updatePostureUI :: "icon \<Rightarrow> string \<Rightarrow> state \<Rightarrow> state" where
  "updatePostureUI i label st = st\<lparr>postureUI := Some (i, label)\<rparr>"

subsection \<open>main.js: canvas and camera\<close>

definition setupCanvasDrawing :: "state \<Rightarrow> state" where
  "setupCanvasDrawing st = st\<lparr>canvasContext := True\<rparr>"

text \<open>\<open>setupWebcamStream\<close>, with the tracks of the stream that the camera gives.\<close>

definition setupWebcamStream :: "nat list \<Rightarrow> state \<Rightarrow> state" where
  "setupWebcamStream tracks st =
     st\<lparr>videoElement := Some \<lparr>srcObject = Some tracks, paused = False, ended = False\<rparr>,
        liveTracks := liveTracks st @ tracks\<rparr>"

definition stopWebcam :: "state \<Rightarrow> state" where
  "stopWebcam st =
     (case videoElement st of
        None \<Rightarrow> st
      | Some v \<Rightarrow>
          (case srcObject v of
             None \<Rightarrow> st
           | Some tracks \<Rightarrow>
               st\<lparr>liveTracks := filter (\<lambda>t. t \<notin> set tracks) (liveTracks st),
                  videoElement := Some (v\<lparr>srcObject := None\<rparr>)\<rparr>))"

subsection \<open>The detection manager: stopping\<close>

definition stopAllDetections :: "state \<Rightarrow> state" where
  "stopAllDetections st =
     (let st1 = (case poseDetectionFrameId st of
                   Some h \<Rightarrow> if h \<noteq> 0
                             then (cancelAnimationFrame h st)\<lparr>poseDetectionFrameId := None\<rparr>
                             else st
                 | None \<Rightarrow> st);
          st2 = (case detectionInterval st1 of
                   Some h \<Rightarrow> if h \<noteq> 0
                             then (clearInterval h st1)\<lparr>detectionInterval := None\<rparr>
                             else st1
                 | None \<Rightarrow> st1)
      in stopWebcam st2)"

section \<open>postureDetection.js: baseline and frame handler\<close>

text \<open>
  \<open>setBaseline()\<close>: the result and the state after the call. The three failures are
  checked in the order of the source; each one shows its notification and returns
  \<open>false\<close>.
\<close>

definition setBaseline :: "state \<Rightarrow> bool \<times> state" where
  "setBaseline st =
     (case lastKeypoints st of
        None \<Rightarrow> (False, showNotification StillCalibrating Error st)
      | Some keypoints \<Rightarrow>
          (case (findKeypoint keypoints ''left_shoulder'',
                 findKeypoint keypoints ''right_shoulder'',
                 findKeypoint keypoints ''nose'') of
             (Some leftShoulder, Some rightShoulder, Some nose) \<Rightarrow>
               (let shoulderWidth = js_abs (js_sub (kp_x rightShoulder) (kp_x leftShoulder))
                in if js_lt shoulderWidth (Fin 10)
                   then (False, showNotification CannotDetermineWidth Error st)
                   else
                     (let avgShoulderY =
                            js_div (js_add (kp_y leftShoulder) (kp_y rightShoulder)) (Fin 2);
                          noseToShoulderGap = js_sub avgShoulderY (kp_y nose)
                      in (True,
                          showNotification BaselineSaved Success
                            (st\<lparr>baselinePosture :=
                                  Some \<lparr>ratio = js_div noseToShoulderGap shoulderWidth\<rparr>\<rparr>))))
           | _ \<Rightarrow> (False, showNotification ShouldersNotDetected Error st)))"

text \<open>
  A pose of the detector; \<open>keypoints\<close> may be missing. The results of one inference are
  \<open>null\<close> (\<open>None\<close>) or an array of poses, whose entries may be missing too.
\<close>

record pose =
  keypoints :: "keypoint list option"

type_synonym results = "pose option list option"

text \<open>
  The guard of \<open>handlePoseResults\<close>,
  \<open>!results || !results[0] || !results[0].keypoints || isNaN(results[0].keypoints[0].x)\<close>:
  \<open>Inr None\<close> when the guard holds, \<open>Inr (Some keypoints)\<close> when it does not, and the
  error of reading \<open>x\<close> of the missing first entry when the keypoints are an empty array.
\<close>

definition pose_guard :: "results \<Rightarrow> js_error + keypoint list option" where
  "pose_guard results =
     (case results of
        None \<Rightarrow> Inr None
      | Some [] \<Rightarrow> Inr None
      | Some (None # _) \<Rightarrow> Inr None
      | Some (Some p # _) \<Rightarrow>
          (case keypoints p of
             None \<Rightarrow> Inr None
           | Some [] \<Rightarrow> Inl TypeError
           | Some (k # ks) \<Rightarrow> if js_isNaN (kp_x k) then Inr None else Inr (Some (k # ks))))"

text \<open>The callback of the posture timer (lines 116 to 125).\<close>

definition postureAlertCallback :: "state \<Rightarrow> js_error option \<times> state" where
  "postureAlertCallback st =
     (case lastKeypoints st of
        None \<Rightarrow> (Some TypeError, st)
      | Some kps \<Rightarrow>
          (let currentPostureFlags = analyzePosture (baselinePosture st) kps;
               st1 = (if currentPostureFlags \<noteq> []
                      then (showNotification PostureTip Error st)\<lparr>isAlertingPosture := True\<rparr>
                      else st)
           in (None, st1\<lparr>badPostureTimer := None\<rparr>)))"

text \<open>The block that runs while recording (lines 112 to 138).\<close>

definition postureWarning :: "string list \<Rightarrow> state \<Rightarrow> state" where
  "postureWarning postureFlags st =
     (let isBadPosture = (postureFlags \<noteq> []);
          st1 =
            (if isBadPosture then
               (if \<not> handle_truthy (badPostureTimer st) \<and> \<not> isAlertingPosture st
                then (case setTimeout PostureAlert st of (h, s) \<Rightarrow> s\<lparr>badPostureTimer := Some h\<rparr>)
                else st)
             else
               (let s = (case badPostureTimer st of
                           Some h \<Rightarrow> if h \<noteq> 0
                                     then (clearTimeout h st)\<lparr>badPostureTimer := None\<rparr>
                                     else st
                         | None \<Rightarrow> st)
                in s\<lparr>isAlertingPosture := False\<rparr>))
      in st1\<lparr>currentAnswerPostures :=
               currentAnswerPostures st1
               @ [case postureFlags of [] \<Rightarrow> ''Good Posture'' | flag # _ \<Rightarrow> flag]\<rparr>)"

text \<open>
  \<open>handlePoseResults(results)\<close>: the error thrown, if any, and the state then.
  \<open>resizeCanvasToVideo\<close> reads the size of \<open>videoElement\<close> and fails without it.
\<close>

definition handlePoseResults :: "results \<Rightarrow> state \<Rightarrow> js_error option \<times> state" where
  "handlePoseResults results st =
     (case pose_guard results of
        Inl e \<Rightarrow> (Some e, st)
      | Inr None \<Rightarrow> (None, updatePostureUI Thinking ''Calibrating...'' st)
      | Inr (Some kps) \<Rightarrow>
          (let st1 = st\<lparr>lastKeypoints := Some kps\<rparr>
           in if \<not> canvasContext st1 then (None, st1)
              else if videoElement st1 = None then (Some TypeError, st1)
              else
                (let postureFlags = analyzePosture (baselinePosture st1) kps;
                     st2 = (case postureFlags of
                              [] \<Rightarrow> updatePostureUI Check ''Good Posture'' st1
                            | flag # _ \<Rightarrow> updatePostureUI Warning flag st1)
                 in (None, if recording st2 then postureWarning postureFlags st2 else st2))))"

section \<open>emotionDetection.js\<close>

text \<open>
  \<open>Array.prototype.sort\<close> with a comparator is a stable sort; for a comparator that is
  consistent (here the difference of two numbers) its result is that of the stable
  insertion sort.
\<close>

fun js_insort :: "('a \<Rightarrow> 'a \<Rightarrow> real) \<Rightarrow> 'a \<Rightarrow> 'a list \<Rightarrow> 'a list" where
  "js_insort cmp a [] = [a]"
| "js_insort cmp a (b # bs) = (if cmp a b \<le> 0 then a # b # bs else b # js_insort cmp a bs)"

definition js_sort :: "('a \<Rightarrow> 'a \<Rightarrow> real) \<Rightarrow> 'a list \<Rightarrow> 'a list" where
  "js_sort cmp xs = foldr (js_insort cmp) xs []"

text \<open>
  The expression scores of a face are the entries of the object in its iteration order,
  each score a number. The dominant emotion (line 53) is
  \<open>Object.entries(expressions).sort((a, b) => b[1] - a[1])[0]\<close>, destructured; for
  an object without entries the destructuring of \<open>undefined\<close> throws.
\<close>

type_synonym expressions = "(string \<times> real) list"

abbreviation (input) by_score :: "string \<times> real \<Rightarrow> string \<times> real \<Rightarrow> real" where
  "by_score \<equiv> (\<lambda>a b. snd b - snd a)"

definition dominantEmotion :: "expressions \<Rightarrow> js_error + string" where
  "dominantEmotion expressions =
     (case js_sort by_score expressions of
        [] \<Rightarrow> Inl TypeError
      | e # _ \<Rightarrow> Inr (fst e))"

definition NEGATIVE_EMOTIONS :: "string set" where
  "NEGATIVE_EMOTIONS = {''sad'', ''angry'', ''fearful''}"

fun EMOTION_MAP :: "string \<Rightarrow> emoji option" where
  "EMOTION_MAP s =
     (if s = ''happy'' then Some Happy
      else if s = ''sad'' then Some Sad
      else if s = ''neutral'' then Some Neutral
      else if s = ''surprised'' then Some Surprised
      else if s = ''angry'' then Some Angry
      else if s = ''fearful'' then Some Fearful
      else None)"

text \<open>\<open>s.charAt(0).toUpperCase() + s.slice(1)\<close> on the letters of the emotion names.\<close>

definition toUpperCase :: "char \<Rightarrow> char" where
  "toUpperCase c =
     (let n = (of_char c :: nat) in if 97 \<le> n \<and> n \<le> 122 then char_of (n - 32) else c)"

definition capitalize :: "string \<Rightarrow> string" where
  "capitalize s = (case s of [] \<Rightarrow> [] | c # cs \<Rightarrow> toUpperCase c # cs)"

text \<open>The callback of the emotion timer (lines 67 to 74).\<close>

definition emotionAlertCallback :: "state \<Rightarrow> state" where
  "emotionAlertCallback st =
     (let st1 = (if lastDetectedEmotion st \<in> NEGATIVE_EMOTIONS
                 then (showNotification EmotionTip Error st)\<lparr>isAlertingEmotion := True\<rparr>
                 else st)
      in st1\<lparr>badEmotionTimer := None\<rparr>)"

text \<open>The block that runs while recording (lines 61 to 87).\<close>

definition emotionWarning :: "string \<Rightarrow> state \<Rightarrow> state" where
  "emotionWarning emotion st =
     (let isBadEmotion = (emotion \<in> NEGATIVE_EMOTIONS);
          st1 =
            (if isBadEmotion then
               (if \<not> handle_truthy (badEmotionTimer st) \<and> \<not> isAlertingEmotion st
                then (case setTimeout EmotionAlert st of (h, s) \<Rightarrow> s\<lparr>badEmotionTimer := Some h\<rparr>)
                else st)
             else
               (let s = (case badEmotionTimer st of
                           Some h \<Rightarrow> if h \<noteq> 0
                                     then (clearTimeout h st)\<lparr>badEmotionTimer := None\<rparr>
                                     else st
                         | None \<Rightarrow> st)
                in s\<lparr>isAlertingEmotion := False\<rparr>))
      in st1\<lparr>currentAnswerEmotions := currentAnswerEmotions st1 @ [emotion]\<rparr>)"

text \<open>
  \<open>runEmotionDetection()\<close>, with the faces that the inference it awaits detects: the
  expression scores of each face. The check of the video before the \<open>await\<close> and the
  rest of the function are one step.
\<close>

definition runEmotionDetection :: "expressions list \<Rightarrow> state \<Rightarrow> js_error option \<times> state" where
  "runEmotionDetection detections st =
     (case videoElement st of
        None \<Rightarrow> (None, st)
      | Some v \<Rightarrow>
          if paused v \<or> ended v then (None, st)
          else
            (case detections of
               [] \<Rightarrow> (None, st\<lparr>emotionUI := Some (Neutral, ''No Face''),
                                lastDetectedEmotion := ''neutral''\<rparr>)
             | expressions # _ \<Rightarrow>
                 (case dominantEmotion expressions of
                    Inl e \<Rightarrow> (Some e, st)
                  | Inr emotion \<Rightarrow>
                      (let st1 = st\<lparr>lastDetectedEmotion := emotion,
                                     emotionUI :=
                                       Some (case EMOTION_MAP emotion of
                                               Some m \<Rightarrow> m | None \<Rightarrow> Puzzled,
                                             capitalize emotion)\<rparr>
                       in (None, if recording st1 then emotionWarning emotion st1 else st1)))))"

section \<open>The interview manager\<close>

text \<open>
  \<open>calculateDistribution(dataArray)\<close>. The objects \<open>counts\<close> and \<open>distribution\<close> are
  plain objects: maps from the names of their own properties to the values. A plain
  object inherits the properties of \<open>Object.prototype\<close>, whose names are listed below;
  they are not enumerable, so that the \<open>for ... in\<close> loop visits the own properties
  only.

  A value of \<open>counts\<close> is a number or a string. Reading \<open>acc[val]\<close> gives the own
  property, else the inherited one (a function, or the prototype itself for
  \<open>__proto__\<close>), else \<open>undefined\<close>. An own number is at least 1 and a string or an
  inherited value is truthy, so \<open>acc[val] || 0\<close> is \<open>0\<close> for \<open>undefined\<close> only; adding
  1 to a string, a function or an object gives a string, which is no numeral (it
  begins with the text of the function or object). The assignment to \<open>acc[val]\<close>
  creates or changes the own property, except that assigning a string to \<open>__proto__\<close>
  has no effect. The counts are whole numbers below \<open>2 ^ 32\<close>, the bound of the length of
  an array, so the additions are exact.
\<close>

definition Object_prototype :: "string list" where
  "Object_prototype =
     [''constructor'', ''hasOwnProperty'', ''isPrototypeOf'', ''propertyIsEnumerable'',
      ''toLocaleString'', ''toString'', ''valueOf'', ''__proto__'',
      ''__defineGetter__'', ''__defineSetter__'', ''__lookupGetter__'', ''__lookupSetter__'']"

datatype jsval = Num nat | Str

definition count_label :: "(string \<rightharpoonup> jsval) \<Rightarrow> string \<Rightarrow> (string \<rightharpoonup> jsval)" where
  "count_label acc val =
     (let v = (case acc val of
                 Some (Num c) \<Rightarrow> Num (c + 1)
               | Some Str \<Rightarrow> Str
               | None \<Rightarrow> if val \<in> set Object_prototype then Str else Num 1)
      in if val = ''__proto__'' then acc else acc(val \<mapsto> v))"

text \<open>
  The number that a value of \<open>counts\<close> is converted to by the division, and
  \<open>Math.round\<close>: the integer nearest to the number, a half going upwards.
\<close>

fun to_number :: "jsval \<Rightarrow> jsnum" where
  "to_number (Num c) = Fin (real c)"
| "to_number Str = NaN"

fun Math_round :: "jsnum \<Rightarrow> jsnum" where
  "Math_round (Fin a) = Fin (of_int \<lfloor>a + 1 / 2\<rfloor>)"
| "Math_round a = a"

definition calculateDistribution :: "string list \<Rightarrow> (string \<rightharpoonup> jsnum)" where
  "calculateDistribution dataArray =
     (if length dataArray = 0 then Map.empty
      else
        (let counts = foldl count_label Map.empty dataArray
         in (\<lambda>key. case counts key of
                      None \<Rightarrow> None
                    | Some c \<Rightarrow>
                        Some (Math_round
                               (js_mul (js_div (to_number c) (Fin (real (length dataArray))))
                                       (Fin 100))))))"

text \<open>
  \<open>startRecording()\<close> awaits the microphone: the part before the \<open>await\<close> and the part
  that runs when the microphone has been granted.
\<close>

definition startRecording_call :: "state \<Rightarrow> state" where
  "startRecording_call st = st\<lparr>currentAnswerEmotions := [], currentAnswerPostures := []\<rparr>"

definition startRecording_granted :: "state \<Rightarrow> state" where
  "startRecording_granted st = st\<lparr>recording := True\<rparr>"

text \<open>
  \<open>endInterview()\<close>, up to its first \<open>await\<close>; the report that is generated afterwards
  is outside this model.
\<close>

definition endInterview :: "state \<Rightarrow> state" where
  "endInterview st =
     (let st1 = st\<lparr>currentQuestionIndex := currentQuestionIndex st + 1\<rparr>;
          st2 = (if recording st1
                 then st1\<lparr>answersBeingProcessed := answersBeingProcessed st1 + 1,
                         recording := False\<rparr>
                 else st1)
      in stopAllDetections st2)"

text \<open>\<open>displayCurrentQuestion()\<close> of uiController.js.\<close>

definition displayCurrentQuestion :: "state \<Rightarrow> state" where
  "displayCurrentQuestion st =
     (if currentQuestionIndex st < length (questions st) then
        (let st1 = (if currentQuestionIndex st = 0
                    then showNotification InterviewStarted Success st else st)
         in st1\<lparr>currentQuestionIndex := currentQuestionIndex st1 + 1\<rparr>)
      else if \<not> isFetchingQuestions st then endInterview st
      else st)"

definition stopRecording :: "state \<Rightarrow> state" where
  "stopRecording st =
     displayCurrentQuestion
       (st\<lparr>answersBeingProcessed := answersBeingProcessed st + 1, recording := False\<rparr>)"

definition handleAnswerButtonClick :: "state \<Rightarrow> state" where
  "handleAnswerButtonClick st =
     (if \<not> recording st then startRecording_call st else stopRecording st)"

definition resetInterview :: "state \<Rightarrow> state" where
  "resetInterview st =
     st\<lparr>questions := [], currentQuestionIndex := 0, totalQuestions := 0,
        interviewData := [], currentAnswerEmotions := [], currentAnswerPostures := [],
        answersBeingProcessed := 0, isFetchingQuestions := False,
        baselinePosture := None\<rparr>"

text \<open>The click listener of the baseline button.\<close>

definition setBaselineClick :: "state \<Rightarrow> state" where
  "setBaselineClick st =
     (case setBaseline st of
        (baselineWasSet, st1) \<Rightarrow> if \<not> baselineWasSet then st1 else displayCurrentQuestion st1)"

section \<open>Events\<close>

text \<open>
  The scripts run on one thread; each callback runs to its end (or to its next
  \<open>await\<close>) before the next one starts. An execution is a sequence of events: a pose
  inference that delivers its results to \<open>handlePoseResults\<close>, a face inference that
  \<open>runEmotionDetection\<close> awaited, a timer of the pool that fires, and the actions of
  the user. Time is not measured: a timer may fire at any event after it was set.
  An error thrown by a callback ends the callback and leaves the state as it is then.
\<close>

datatype event =
  PoseResults results
  | FacesDetected "expressions list"
  | TimerFires nat
  | SetBaselineClick
  | AnswerButtonClick
  | MicrophoneGranted
  | EndInterviewClick
  | RestartInterviewClick
  | CanvasReady
  | WebcamReady "nat list"

definition timerFires :: "nat \<Rightarrow> state \<Rightarrow> state" where
  "timerFires h st =
     (case find (\<lambda>t. fst t = h) (timers st) of
        None \<Rightarrow> st
      | Some t \<Rightarrow>
          (case snd t of
             EmotionLoop \<Rightarrow> st
           | HideNotification \<Rightarrow> clearTimeout h st
           | PostureAlert \<Rightarrow> snd (postureAlertCallback (clearTimeout h st))
           | EmotionAlert \<Rightarrow> emotionAlertCallback (clearTimeout h st)))"

fun step :: "event \<Rightarrow> state \<Rightarrow> state" where
  "step (PoseResults r) st = snd (handlePoseResults r st)"
| "step (FacesDetected d) st = snd (runEmotionDetection d st)"
| "step (TimerFires h) st = timerFires h st"
| "step SetBaselineClick st = setBaselineClick st"
| "step AnswerButtonClick st = handleAnswerButtonClick st"
| "step MicrophoneGranted st = startRecording_granted st"
| "step EndInterviewClick st = endInterview st"
| "step RestartInterviewClick st = resetInterview st"
| "step CanvasReady st = setupCanvasDrawing st"
| "step (WebcamReady tracks) st = setupWebcamStream tracks st"

fun run :: "event list \<Rightarrow> state \<Rightarrow> state" where
  "run [] st = st"
| "run (e # es) st = run es (step e st)"

subsection \<open>Alerting: notions used to state its properties\<close>

definition posture_tips :: "state \<Rightarrow> nat" where
  "posture_tips st = length (filter (\<lambda>n. fst n = PostureTip) (notifications st))"

definition emotion_tips :: "state \<Rightarrow> nat" where
  "emotion_tips st = length (filter (\<lambda>n. fst n = EmotionTip) (notifications st))"

definition pending :: "timer_cb \<Rightarrow> state \<Rightarrow> (nat \<times> timer_cb) list" where
  "pending cb st = filter (\<lambda>t. snd t = cb) (timers st)"

text \<open>
  The flags that \<open>handlePoseResults\<close> computes for the results in a state, when it gets to
  classify them.
\<close>

definition posture_observation :: "state \<Rightarrow> results \<Rightarrow> string list option" where
  "posture_observation st r =
     (case pose_guard r of
        Inr (Some kps) \<Rightarrow>
          if canvasContext st \<and> videoElement st \<noteq> None
          then Some (analyzePosture (baselinePosture st) kps) else None
      | _ \<Rightarrow> None)"

text \<open>The dominant emotion that \<open>runEmotionDetection\<close> finds, when it finds a face.\<close>

definition emotion_observation :: "state \<Rightarrow> expressions list \<Rightarrow> string option" where
  "emotion_observation st d =
     (case videoElement st of
        None \<Rightarrow> None
      | Some v \<Rightarrow>
          if paused v \<or> ended v then None
          else (case d of
                  [] \<Rightarrow> None
                | expressions # _ \<Rightarrow>
                    (case dominantEmotion expressions of Inl _ \<Rightarrow> None | Inr e \<Rightarrow> Some e)))"

text \<open>An event that is a non-adverse observation made while recording.\<close>

fun posture_recovers :: "state \<Rightarrow> event \<Rightarrow> bool" where
  "posture_recovers st (PoseResults r) = (recording st \<and> posture_observation st r = Some [])"
| "posture_recovers st _ = False"

fun emotion_recovers :: "state \<Rightarrow> event \<Rightarrow> bool" where
  "emotion_recovers st (FacesDetected d) =
     (recording st \<and>
      (case emotion_observation st d of None \<Rightarrow> False | Some e \<Rightarrow> e \<notin> NEGATIVE_EMOTIONS))"
| "emotion_recovers st _ = False"

text \<open>
  An episode: a sequence of events, run from a state, none of which is a non-adverse
  observation made while recording.
\<close>

fun posture_episode :: "state \<Rightarrow> event list \<Rightarrow> bool" where
  "posture_episode st [] = True"
| "posture_episode st (e # es) = (\<not> posture_recovers st e \<and> posture_episode (step e st) es)"

fun emotion_episode :: "state \<Rightarrow> event list \<Rightarrow> bool" where
  "emotion_episode st [] = True"
| "emotion_episode st (e # es) = (\<not> emotion_recovers st e \<and> emotion_episode (step e st) es)"

text \<open>
  The invariant of the two alert timers: at most one timer of each kind is pending, and
  while it is pending its handle is the one stored and the alert has not been given.
\<close>

definition timer_inv :: "timer_cb \<Rightarrow> nat option \<Rightarrow> bool \<Rightarrow> state \<Rightarrow> bool" where
  "timer_inv cb timer alerting st =
     (length (pending cb st) \<le> 1 \<and>
      (\<forall>t \<in> set (pending cb st). timer = Some (fst t) \<and> fst t \<noteq> 0 \<and> \<not> alerting))"

definition alert_inv :: "state \<Rightarrow> bool" where
  "alert_inv st =
     (0 < nextHandle st \<and>
      timer_inv PostureAlert (badPostureTimer st) (isAlertingPosture st) st \<and>
      timer_inv EmotionAlert (badEmotionTimer st) (isAlertingEmotion st) st)"

section \<open>Notions of the specification\<close>

text \<open>A frame contains the landmark with the name.\<close>

definition has_landmark :: "keypoint list \<Rightarrow> string \<Rightarrow> bool" where
  "has_landmark kps name = list_ex (\<lambda>k. kp_key k = Some name) kps"

text \<open>
  A number of the code is a double or a special value: a real number is a double when
  the rounding of the operations leaves it as it is.
\<close>

definition js_double :: "jsnum \<Rightarrow> bool" where
  "js_double x = (case x of Fin a \<Rightarrow> js_num a = Fin a | _ \<Rightarrow> True)"

text \<open>
  The current ratio, (average shoulder height - nose height) / shoulder width, and the
  relative deviation from a baseline ratio, (current - ratio) / ratio, both as the code
  computes them; and 0.75 times a ratio, exactly.
\<close>

definition current_ratio :: "keypoint \<Rightarrow> keypoint \<Rightarrow> keypoint \<Rightarrow> jsnum" where
  "current_ratio leftShoulder rightShoulder nose =
     js_div (js_sub (js_div (js_add (kp_y leftShoulder) (kp_y rightShoulder)) (Fin 2)) (kp_y nose))
            (js_abs (js_sub (kp_x rightShoulder) (kp_x leftShoulder)))"

definition relative_deviation :: "jsnum \<Rightarrow> jsnum \<Rightarrow> jsnum" where
  "relative_deviation current r = js_div (js_sub current r) r"

fun three_quarters :: "jsnum \<Rightarrow> jsnum" where
  "three_quarters (Fin r) = Fin (0.75 * r)"
| "three_quarters r = r"

text \<open>The ratio and the shoulder distance of a frame that has the three landmarks.\<close>

definition frame_ratio :: "keypoint list \<Rightarrow> jsnum" where
  "frame_ratio kps =
     (case (findKeypoint kps ''left_shoulder'', findKeypoint kps ''right_shoulder'',
            findKeypoint kps ''nose'') of
        (Some ls, Some rs, Some n) \<Rightarrow> current_ratio ls rs n
      | _ \<Rightarrow> NaN)"

definition shoulder_distance :: "keypoint list \<Rightarrow> jsnum" where
  "shoulder_distance kps =
     (case (findKeypoint kps ''left_shoulder'', findKeypoint kps ''right_shoulder'') of
        (Some ls, Some rs) \<Rightarrow> js_abs (js_sub (kp_x rs) (kp_x ls))
      | _ \<Rightarrow> NaN)"

text \<open>
  The failures of the calibration: no frame has been seen, a shoulder or the nose is not
  in the last frame, or the shoulders are less than 10 units apart.
\<close>

definition frame_unusable :: "keypoint list \<Rightarrow> bool" where
  "frame_unusable kps =
     (\<not> has_landmark kps ''left_shoulder'' \<or> \<not> has_landmark kps ''right_shoulder''
      \<or> \<not> has_landmark kps ''nose'' \<or> js_lt (shoulder_distance kps) (Fin 10))"

definition baseline_failure :: "state \<Rightarrow> bool" where
  "baseline_failure st =
     (case lastKeypoints st of None \<Rightarrow> True | Some kps \<Rightarrow> frame_unusable kps)"

text \<open>
  The guard of the frame handler in words: there are no results, no first subject, no
  keypoints of the first subject, or the \<open>x\<close> of its first keypoint is not a number.
\<close>

definition no_signal :: "results \<Rightarrow> bool" where
  "no_signal r =
     (case r of
        None \<Rightarrow> True
      | Some [] \<Rightarrow> True
      | Some (None # _) \<Rightarrow> True
      | Some (Some p # _) \<Rightarrow>
          (case keypoints p of
             None \<Rightarrow> True
           | Some [] \<Rightarrow> False
           | Some (k # _) \<Rightarrow> js_isNaN (kp_x k)))"

text \<open>
  The part of the state that the claims about recording are about: the accumulators, the
  two timer handles and alert flags, the pool of pending timers with the next handle, and
  the notifications.
\<close>

definition alert_state ::
  "state \<Rightarrow> string list \<times> string list \<times> nat option \<times> bool \<times> nat option \<times> bool
            \<times> (nat \<times> timer_cb) list \<times> nat \<times> (message \<times> severity) list" where
  "alert_state st =
     (currentAnswerPostures st, currentAnswerEmotions st,
      badPostureTimer st, isAlertingPosture st, badEmotionTimer st, isAlertingEmotion st,
      timers st, nextHandle st, notifications st)"

text \<open>What the indicators of the page show for the flags of a frame and for an emotion.\<close>

definition posture_display :: "string list \<Rightarrow> icon \<times> string" where
  "posture_display flags = (case flags of [] \<Rightarrow> (Check, ''Good Posture'') | f # _ \<Rightarrow> (Warning, f))"

definition emotion_display :: "string \<Rightarrow> emoji \<times> string" where
  "emotion_display e = ((case EMOTION_MAP e of Some m \<Rightarrow> m | None \<Rightarrow> Puzzled), capitalize e)"

text \<open>
  The percentage that the code computes for \<open>c\<close> labels among \<open>n\<close>, before
  \<open>Math.round\<close>: the quotient rounded to a double, and its product with 100 rounded
  again; and the exact percentage \<open>100 * c / n\<close> being half-way between two integers,
  that is \<open>200 * c + n\<close> being a multiple of \<open>2 * n\<close>.
\<close>

definition percentage :: "nat \<Rightarrow> nat \<Rightarrow> real" where
  "percentage c n = fl (fl (real c / real n) * 100)"

definition tie :: "nat \<Rightarrow> nat \<Rightarrow> bool" where
  "tie c n = (2 * n dvd 200 * c + n)"

subsection \<open>A notion used in the proofs about rounding\<close>

text \<open>
  The reals that the rounding leaves as they are: the whole multiples of a power of two,
  the multiple below \<open>2 ^ 53\<close> in magnitude and the power not below \<open>2 ^ - 1074\<close>.
\<close>

definition representable :: "real \<Rightarrow> bool" where
  "representable x =
     (\<exists>m k. x = of_int m * 2 powr (of_int k) \<and> \<bar>m\<bar> < 2 ^ 53 \<and> - 1074 \<le> k)"

subsection \<open>Notions used in the proof of the alerting properties\<close>

text \<open>
  The allowance of a machine is the one alert it may still give in the current episode;
  tips shown plus allowance is unchanged by every event that is not a recovery. A step
  is calm for a machine when it leaves the handle, the flag and the tips of the machine
  alone and adds no pending timer of its kind.
\<close>

definition allowance :: "bool \<Rightarrow> nat" where
  "allowance alerting = (if alerting then 0 else 1)"

definition posture_budget :: "state \<Rightarrow> nat" where
  "posture_budget st = posture_tips st + allowance (isAlertingPosture st)"

definition emotion_budget :: "state \<Rightarrow> nat" where
  "emotion_budget st = emotion_tips st + allowance (isAlertingEmotion st)"

definition shrinks :: "timer_cb \<Rightarrow> state \<Rightarrow> state \<Rightarrow> bool" where
  "shrinks cb st st' =
     (set (pending cb st') \<subseteq> set (pending cb st) \<and>
      length (pending cb st') \<le> length (pending cb st))"

definition posture_calm :: "state \<Rightarrow> state \<Rightarrow> bool" where
  "posture_calm st st' =
     (badPostureTimer st' = badPostureTimer st \<and> isAlertingPosture st' = isAlertingPosture st \<and>
      posture_tips st' = posture_tips st \<and> shrinks PostureAlert st st')"

definition emotion_calm :: "state \<Rightarrow> state \<Rightarrow> bool" where
  "emotion_calm st st' =
     (badEmotionTimer st' = badEmotionTimer st \<and> isAlertingEmotion st' = isAlertingEmotion st \<and>
      emotion_tips st' = emotion_tips st \<and> shrinks EmotionAlert st st')"

definition benign :: "state \<Rightarrow> state \<Rightarrow> bool" where
  "benign st st' =
     (posture_calm st st' \<and> emotion_calm st st' \<and> nextHandle st \<le> nextHandle st')"

text \<open>An alert: the tip is shown, the flag is set and the handle is cleared.\<close>

definition posture_alerted :: "state \<Rightarrow> state" where
  "posture_alerted s =
     (showNotification PostureTip Error s)\<lparr>isAlertingPosture := True, badPostureTimer := None\<rparr>"

definition emotion_alerted :: "state \<Rightarrow> state" where
  "emotion_alerted s =
     (showNotification EmotionTip Error s)\<lparr>isAlertingEmotion := True, badEmotionTimer := None\<rparr>"

section \<open>Example inputs\<close>

definition landmark :: "string \<Rightarrow> real \<Rightarrow> real \<Rightarrow> keypoint" where
  "landmark n a b = \<lparr>kp_part = None, kp_name = Some n, kp_x = Fin a, kp_y = Fin b\<rparr>"

text \<open>A frame without shoulders, one with the shoulders 5 apart, one with 50.\<close>

definition nose_only :: "keypoint list" where
  "nose_only = [landmark ''nose'' 100 40]"

definition narrow_frame :: "keypoint list" where
  "narrow_frame = [landmark ''nose'' 2 80, landmark ''left_shoulder'' 0 100,
                   landmark ''right_shoulder'' 5 100]"

definition wide_frame :: "keypoint list" where
  "wide_frame = [landmark ''nose'' 25 80, landmark ''left_shoulder'' 0 100,
                 landmark ''right_shoulder'' 50 100]"

text \<open>
  Frames with the shoulders 10 apart and the nose 4 and 3 above them, and a frame with
  the shoulders 8 apart and the nose 3 above them.
\<close>

definition upright_frame :: "keypoint list" where
  "upright_frame = [landmark ''nose'' 5 96, landmark ''left_shoulder'' 10 100,
                    landmark ''right_shoulder'' 0 100]"

definition lowered_frame :: "keypoint list" where
  "lowered_frame = [landmark ''nose'' 5 97, landmark ''left_shoulder'' 10 100,
                    landmark ''right_shoulder'' 0 100]"

definition boundary_frame :: "keypoint list" where
  "boundary_frame = [landmark ''nose'' 4 97, landmark ''left_shoulder'' 8 100,
                     landmark ''right_shoulder'' 0 100]"

text \<open>
  A frame with the shoulders 10 apart and the nose 17 above them, and a frame with the
  shoulders 40 apart and the nose 51 above them: three quarters of the ratio.
\<close>

definition reference_frame :: "keypoint list" where
  "reference_frame = [landmark ''nose'' 5 83, landmark ''left_shoulder'' 10 100,
                      landmark ''right_shoulder'' 0 100]"

definition three_quarter_frame :: "keypoint list" where
  "three_quarter_frame = [landmark ''nose'' 20 49, landmark ''left_shoulder'' 40 100,
                          landmark ''right_shoulder'' 0 100]"

text \<open>A frame whose first keypoint is valid and whose second has no valid coordinate.\<close>

definition broken_frame :: "keypoint list" where
  "broken_frame = [landmark ''nose'' 100 40,
                   \<lparr>kp_part = None, kp_name = Some ''left_shoulder'', kp_x = NaN, kp_y = NaN\<rparr>]"

text \<open>The results of an inference that detects one subject with the keypoints.\<close>

definition frame_results :: "keypoint list \<Rightarrow> results" where
  "frame_results kps = Some [Some \<lparr>keypoints = Some kps\<rparr>]"

text \<open>The state when canvas and camera are set up and an answer is being recorded.\<close>

definition recording_state :: state where
  "recording_state = run [CanvasReady, WebcamReady [0], AnswerButtonClick, MicrophoneGranted] init"

text \<open>The expression scores of the example in the specification, and scores with a tie.\<close>

definition example_scores :: expressions where
  "example_scores = [(''happy'', 0.2), (''sad'', 0.6), (''neutral'', 0.2)]"

definition tied_scores :: expressions where
  "tied_scores = [(''neutral'', 0.2), (''happy'', 0.4), (''sad'', 0.4)]"

text \<open>Forty labels of which 23 are "A", and eight labels of which one is "A".\<close>

definition forty_labels :: "string list" where
  "forty_labels = replicate 23 ''A'' @ replicate 17 ''B''"

definition eight_labels :: "string list" where
  "eight_labels = ''A'' # replicate 7 ''B''"

text \<open>A state with a baseline of ratio 1 whose last frame is the narrow one.\<close>

definition narrow_state :: state where
  "narrow_state = init\<lparr>baselinePosture := Some \<lparr>ratio = Fin 1\<rparr>,
                       lastKeypoints := Some narrow_frame\<rparr>"

text \<open>
  While recording, a frame without shoulders is handled; then the answer button is
  clicked, which stops the recording.
\<close>

definition hidden_state :: state where
  "hidden_state = step (PoseResults (frame_results nose_only)) recording_state"

definition stopped_state :: state where
  "stopped_state = step AnswerButtonClick hidden_state"

text \<open>
  Canvas and camera are set up and detection has been started: \<open>startDetection\<close> (whose
  loops are not part of this model) has set the interval of the emotion loop, and the
  pose loop has requested an animation frame. Then an answer is recorded and a frame
  without shoulders is handled.
\<close>

definition detecting_state :: state where
  "detecting_state =
     (run [CanvasReady, WebcamReady [0]] init)
       \<lparr>detectionInterval := Some 1, timers := [(1, EmotionLoop)], nextHandle := 2,
        poseDetectionFrameId := Some 1, animationFrames := [1]\<rparr>"

definition running_state :: state where
  "running_state =
     run [AnswerButtonClick, MicrophoneGranted, PoseResults (frame_results nose_only)]
       detecting_state"

text \<open>
  A frame with level shoulders, which raises no flag; expression scores whose dominant
  emotion is negative; the events that deliver them; and an episode for both machines
  followed by a recovery and a second episode.
\<close>

definition level_frame :: "keypoint list" where
  "level_frame = [landmark ''nose'' 25 80, landmark ''left_shoulder'' 50 100,
                  landmark ''right_shoulder'' 0 100]"

definition sad_scores :: expressions where
  "sad_scores = [(''neutral'', 0.1), (''happy'', 0.1), (''sad'', 0.8)]"

definition hidden :: event where
  "hidden = PoseResults (frame_results nose_only)"

definition level :: event where
  "level = PoseResults (frame_results level_frame)"

definition sad :: event where
  "sad = FacesDetected [sad_scores]"

definition calm :: event where
  "calm = FacesDetected [tied_scores]"

definition adverse_run :: "event list" where
  "adverse_run = [hidden, sad, TimerFires 1, TimerFires 2, hidden, sad]"

definition second_run :: "event list" where
  "second_run = [level, calm, hidden, sad, TimerFires 5, TimerFires 6]"

section \<open>Properties\<close>

subsection \<open>Numbers and landmarks\<close>

text \<open>
  The rounding: the result is representable, a representable real is left as it is, the
  error is at most half a unit of the last place, and a quarter of a double \<open>r\<close> is a
  double when three quarters of \<open>r\<close> are one.
\<close>

lemma round_even_int: "round_even (of_int n) = n"
  by (simp add: round_even_def)

lemma round_even_near: "\<bar>of_int (round_even y) - y\<bar> \<le> 1 / 2"
  unfolding round_even_def Let_def by (auto simp: abs_le_iff)

lemma fl_eval:
  assumes "a \<noteq> 0" "- 1022 \<le> e" "2 powr (of_int e) \<le> \<bar>a\<bar>" "\<bar>a\<bar> < 2 powr (of_int e + 1)"
  shows "fl a = fl_at e a"
  using floor_log_eq_powr_iff[of "\<bar>a\<bar>" 2 e] assms by (simp add: fl_def max_def)

lemma fl_exponent:
  assumes "a \<noteq> 0"
  defines "e \<equiv> max \<lfloor>log 2 \<bar>a\<bar>\<rfloor> (- 1022)"
  shows "fl a = fl_at e a" "- 1022 \<le> e" "\<bar>a\<bar> < 2 powr (of_int e + 1)"
    "2 powr (- 1022) \<le> \<bar>a\<bar> \<Longrightarrow> 2 powr (of_int e) \<le> \<bar>a\<bar>"
proof -
  define e0 where "e0 = \<lfloor>log 2 \<bar>a\<bar>\<rfloor>"
  have b: "2 powr (of_int e0) \<le> \<bar>a\<bar>" "\<bar>a\<bar> < 2 powr (of_int e0 + 1)"
    using floor_log_eq_powr_iff[of "\<bar>a\<bar>" 2 e0] assms(1) by (simp_all add: e0_def)
  show "fl a = fl_at e a" using assms(1) by (simp add: fl_def e_def)
  show "- 1022 \<le> e" by (simp add: e_def)
  have "e0 \<le> e" by (simp add: e_def e0_def)
  then have "(2::real) powr (of_int e0 + 1) \<le> 2 powr (of_int e + 1)" by simp
  then show "\<bar>a\<bar> < 2 powr (of_int e + 1)" using b(2) by linarith
  show "2 powr (of_int e) \<le> \<bar>a\<bar>" if "2 powr (- 1022) \<le> \<bar>a\<bar>"
  proof (cases "e0 \<le> - 1022")
    case True
    then have "e = - 1022" by (simp add: e_def e0_def)
    then show ?thesis using that by simp
  next
    case False
    then have "e = e0" by (simp add: e_def e0_def)
    then show ?thesis using b(1) by simp
  qed
qed

lemma representable_fl:
  assumes "representable x"
  shows "fl x = x"
proof (cases "x = 0")
  case True
  then show ?thesis by (simp add: fl_def)
next
  case False
  from assms obtain m k where x: "x = of_int m * 2 powr (of_int k)"
    and m: "\<bar>m\<bar> < 2 ^ 53" and k: "- 1074 \<le> k"
    unfolding representable_def by blast
  define e where "e = max \<lfloor>log 2 \<bar>x\<bar>\<rfloor> (- 1022)"
  define e0 where "e0 = \<lfloor>log 2 \<bar>x\<bar>\<rfloor>"
  have b: "2 powr (of_int e0) \<le> \<bar>x\<bar>"
    using floor_log_eq_powr_iff[of "\<bar>x\<bar>" 2 e0] False by (simp add: e0_def)
  have "\<bar>x\<bar> = of_int \<bar>m\<bar> * 2 powr (of_int k)" by (simp add: x abs_mult)
  also have "\<dots> < 2 ^ 53 * 2 powr (of_int k)"
  proof -
    have "(of_int \<bar>m\<bar> :: real) < 2 ^ 53" using m by (metis of_int_less_iff of_int_numeral of_int_power)
    then show ?thesis by (intro mult_strict_right_mono) simp_all
  qed
  also have "\<dots> = 2 powr (of_int (k + 53))"
    by (simp add: powr_add powr_realpow[symmetric])
  finally have "2 powr (of_int e0) < (2::real) powr (of_int (k + 53))" using b by linarith
  then have "e0 < k + 53" by simp
  then have ek: "e - 52 \<le> k" using k by (simp add: e_def e0_def)
  define d where "d = nat (k - (e - 52))"
  have pk: "(2::real) powr (of_int k) = 2 ^ d * 2 powr (of_int e - 52)"
  proof -
    have "of_int k = real d + (of_int e - 52)" using ek by (simp add: d_def)
    then have "(2::real) powr (of_int k) = 2 powr (real d) * 2 powr (of_int e - 52)"
      by (simp add: powr_add[symmetric])
    then show ?thesis by (simp add: powr_realpow)
  qed
  have "x / 2 powr (of_int e - 52) = of_int (m * 2 ^ d)"
    by (simp add: x pk)
  then have "round_even (x / 2 powr (of_int e - 52)) = m * 2 ^ d"
    by (simp only: round_even_int)
  then have "fl_at e x = of_int (m * 2 ^ d) * 2 powr (of_int e - 52)"
    by (simp add: fl_at_def)
  also have "\<dots> = x" by (simp add: x pk)
  finally show ?thesis using False by (simp add: fl_def e_def)
qed

lemma fl_representable: "representable (fl a)"
proof (cases "a = 0")
  case True
  have "(0::real) = of_int 0 * 2 powr (of_int 0)" by simp
  then have "representable 0" unfolding representable_def
    by (intro exI[of _ 0] exI[of _ "0::int"]) simp
  then show ?thesis using True by (simp add: fl_def)
next
  case False
  define e where "e = max \<lfloor>log 2 \<bar>a\<bar>\<rfloor> (- 1022)"
  define u :: real where "u = 2 powr (of_int e - 52)"
  define n where "n = round_even (a / u)"
  have f: "fl a = of_int n * u" and e: "- 1022 \<le> e" and up: "\<bar>a\<bar> < 2 powr (of_int e + 1)"
    using fl_exponent(1-3)[OF False] by (simp_all add: e_def fl_at_def u_def n_def)
  have u: "0 < u" by (simp add: u_def)
  have "2 powr (of_int e + 1) = 2 ^ 53 * u"
  proof -
    have "of_int e + 1 = real 53 + (of_int e - 52)" by simp
    then have "(2::real) powr (of_int e + 1) = 2 powr (real 53) * 2 powr (of_int e - 52)"
      by (simp only: powr_add)
    then show ?thesis by (simp add: u_def powr_realpow del: of_nat_numeral)
  qed
  then have "\<bar>a / u\<bar> < 2 ^ 53" using up u by (simp add: field_simps)
  moreover have "\<bar>of_int n - a / u\<bar> \<le> 1 / 2"
    unfolding n_def by (rule round_even_near)
  ultimately have "\<bar>of_int n :: real\<bar> < 2 ^ 53 + 1"
    by linarith
  then have "(of_int \<bar>n\<bar> :: real) < of_int (2 ^ 53 + 1)"
    by simp
  then have "\<bar>n\<bar> < 2 ^ 53 + 1"
    by (simp only: of_int_less_iff)
  then have n: "\<bar>n\<bar> \<le> 2 ^ 53" by simp
  show ?thesis
  proof (cases "\<bar>n\<bar> < 2 ^ 53")
    case True
    have "fl a = of_int n * 2 powr (of_int (e - 52))" using f by (simp add: u_def)
    then show ?thesis unfolding representable_def using True e
      by (intro exI[of _ n] exI[of _ "e - 52"]) simp
  next
    case False
    then have "\<bar>n\<bar> = 2 ^ 53" using n by linarith
    then have "n = 2 * 2 ^ 52 \<or> n = 2 * - (2 ^ 52)"
      by (simp add: abs_if split: if_splits)
    then obtain h :: int where h: "n = 2 * h" "\<bar>h\<bar> < 2 ^ 53"
      by fastforce
    have hu: "of_int n * u = of_int h * (2 * u)"
      by (simp add: h(1))
    have "2 * u = 2 powr (of_int (e - 51))"
    proof -
      have "of_int (e - 51) = 1 + (of_int e - 52 :: real)" by simp
      then show ?thesis unfolding u_def by (simp only: powr_add) simp
    qed
    then show ?thesis unfolding representable_def using e f h hu
      by (intro exI[of _ h] exI[of _ "e - 51"]) simp
  qed
qed

lemma fl_idem: "fl (fl a) = fl a"
  by (rule representable_fl[OF fl_representable])

lemma representable_iff: "representable x \<longleftrightarrow> fl x = x"
  using representable_fl fl_representable[of x] by auto

lemma representable_minus: "representable x \<Longrightarrow> representable (- x)"
  unfolding representable_def
  by (elim exE conjE, rule_tac x = "- m" in exI, rule_tac x = k in exI) simp


lemma representable_quarter:
  assumes "representable r" and "representable (3 / 4 * r)"
  shows "representable (r / 4)"
proof -
  from assms(1) obtain m k where r: "r = of_int m * 2 powr (of_int k)"
    and m: "\<bar>m\<bar> < 2 ^ 53" and k: "- 1074 \<le> k"
    unfolding representable_def by blast
  from assms(2) obtain n j where c: "3 / 4 * r = of_int n * 2 powr (of_int j)"
    and n: "\<bar>n\<bar> < 2 ^ 53" and j: "- 1074 \<le> j"
    unfolding representable_def by blast
  have q: "r / 4 = r - 3 / 4 * r" by simp
  show ?thesis
  proof (cases "k \<le> j")
    case True
    define d where "d = nat (j - k)"
    have "of_int j = real d + of_int k" using True by (simp add: d_def)
    then have pj: "(2::real) powr (of_int j) = 2 ^ d * 2 powr (of_int k)"
      by (simp add: powr_add powr_realpow)
    define M where "M = m - n * 2 ^ d"
    have M: "r / 4 = of_int M * 2 powr (of_int k)"
      unfolding q c unfolding r by (simp add: M_def pj algebra_simps)
    then have "of_int M * 2 powr (of_int k) = (of_int m / 4 * 2 powr (of_int k) :: real)"
      by (simp add: r)
    then have "(of_int M :: real) = of_int m / 4" by simp
    then have "\<bar>of_int M :: real\<bar> \<le> \<bar>of_int m\<bar>" by simp
    then have "\<bar>M\<bar> \<le> \<bar>m\<bar>" by (simp only: of_int_abs[symmetric] of_int_le_iff)
    then have "\<bar>M\<bar> < 2 ^ 53" using m by linarith
    then show ?thesis unfolding representable_def using M k by blast
  next
    case False
    define d where "d = nat (k - j)"
    have "of_int k = real d + of_int j" using False by (simp add: d_def)
    then have pk: "(2::real) powr (of_int k) = 2 ^ d * 2 powr (of_int j)"
      by (simp add: powr_add powr_realpow)
    define M where "M = m * 2 ^ d - n"
    have M: "r / 4 = of_int M * 2 powr (of_int j)"
      unfolding q c unfolding r by (simp add: M_def pk algebra_simps)
    have "r / 4 = (3 / 4 * r) / 3" by simp
    then have "of_int M * 2 powr (of_int j) = (of_int n / 3 * 2 powr (of_int j) :: real)"
      unfolding M[symmetric] c by simp
    then have "(of_int M :: real) = of_int n / 3" by simp
    then have "\<bar>of_int M :: real\<bar> \<le> \<bar>of_int n\<bar>" by simp
    then have "\<bar>M\<bar> \<le> \<bar>n\<bar>" by (simp only: of_int_abs[symmetric] of_int_le_iff)
    then have "\<bar>M\<bar> < 2 ^ 53" using n by linarith
    then show ?thesis unfolding representable_def using M j by blast
  qed
qed

lemma fl_near:
  assumes "a \<noteq> 0"
  shows "\<bar>fl a - a\<bar> \<le> 2 powr (of_int (max \<lfloor>log 2 \<bar>a\<bar>\<rfloor> (- 1022)) - 53)"
proof -
  define e where "e = max \<lfloor>log 2 \<bar>a\<bar>\<rfloor> (- 1022)"
  define u :: real where "u = 2 powr (of_int e - 52)"
  have u: "0 < u" by (simp add: u_def)
  have "of_int e - 52 = 1 + (of_int e - 53 :: real)" by simp
  then have h: "u = 2 * 2 powr (of_int e - 53)"
    unfolding u_def by (simp only: powr_add) simp
  have "fl a - a = (of_int (round_even (a / u)) - a / u) * u"
    using u assms by (simp add: fl_def fl_at_def e_def u_def field_simps)
  then have "\<bar>fl a - a\<bar> = \<bar>of_int (round_even (a / u)) - a / u\<bar> * u"
    using u by (simp add: abs_mult)
  also have "\<dots> \<le> 1 / 2 * u"
    using round_even_near[of "a / u"] u by (intro mult_right_mono) simp_all
  finally show ?thesis using h by (simp add: e_def)
qed

lemma fl_error:
  assumes "2 powr (- 1022) \<le> \<bar>a\<bar>"
  shows "\<bar>fl a - a\<bar> \<le> \<bar>a\<bar> / 2 ^ 53"
proof -
  have a: "a \<noteq> 0" using assms by (auto simp: not_le[symmetric])
  define e where "e = max \<lfloor>log 2 \<bar>a\<bar>\<rfloor> (- 1022)"
  have lo: "2 powr (of_int e) \<le> \<bar>a\<bar>"
    unfolding e_def using a assms by (rule fl_exponent(4))
  have "(2::real) powr (of_int e - 53) = 2 powr (of_int e) / 2 ^ 53"
    by (simp add: powr_diff)
  then have "2 powr (of_int e - 53) \<le> \<bar>a\<bar> / 2 ^ 53"
    using lo by (simp add: field_simps)
  then show ?thesis using fl_near[OF a] by (simp add: e_def)
qed

lemma fl_finite:
  assumes "\<bar>a\<bar> \<le> 2 ^ 1023"
  shows "\<bar>fl a\<bar> < 2 ^ 1024"
proof (cases "a = 0")
  case True
  then show ?thesis by (simp add: fl_def)
next
  case False
  define e0 where "e0 = \<lfloor>log 2 \<bar>a\<bar>\<rfloor>"
  have lo: "2 powr (of_int e0) \<le> \<bar>a\<bar>"
    using floor_log_eq_powr_iff[of "\<bar>a\<bar>" 2 e0] False by (simp add: e0_def)
  have p: "(2::real) powr (of_int 1023) = 2 ^ 1023" by simp
  have "2 powr (of_int e0) \<le> (2::real) powr (of_int 1023)"
    unfolding p using lo assms by linarith
  then have "of_int e0 \<le> (of_int 1023 :: real)"
    by (rule powr_le_cancel_iff[THEN iffD1, rotated]) simp
  then have "e0 \<le> 1023" by (simp only: of_int_le_iff)
  then have "of_int (max e0 (- 1022)) - 53 \<le> (970::real)" by simp
  then have "(2::real) powr (of_int (max e0 (- 1022)) - 53) \<le> 2 powr 970"
    by (simp only: powr_le_cancel_iff) 
  also have "\<dots> = 2 ^ 970" by (simp add: powr_realpow[symmetric])
  finally have "\<bar>fl a - a\<bar> \<le> 2 ^ 970"
    using fl_near[OF False] by (simp add: e0_def)
  moreover have "(2::real) ^ 1023 + 2 ^ 970 < 2 ^ 1024" by simp
  ultimately show ?thesis using assms by linarith
qed

lemma js_num_finite: "\<bar>a\<bar> \<le> 2 ^ 1022 \<Longrightarrow> js_num a = Fin (fl a)"
proof -
  assume "\<bar>a\<bar> \<le> 2 ^ 1022"
  moreover have "(2::real) ^ 1022 \<le> 2 ^ 1023" by simp
  ultimately have "\<bar>a\<bar> \<le> 2 ^ 1023" by linarith
  then show ?thesis using fl_finite[of a] by (simp add: js_num_def Let_def)
qed

lemma js_num_representable:
  "representable a \<Longrightarrow> \<bar>a\<bar> < 2 ^ 1024 \<Longrightarrow> js_num a = Fin a"
  by (simp add: js_num_def Let_def representable_fl)

lemma js_num_Fin:
  "js_num a = Fin r \<Longrightarrow> r = fl a \<and> representable r \<and> \<bar>r\<bar> < 2 ^ 1024"
  by (auto simp: js_num_def Let_def fl_representable split: if_splits)

lemma representable_int: "\<bar>n\<bar> < 2 ^ 53 \<Longrightarrow> representable (of_int n)"
  unfolding representable_def by (intro exI[of _ n] exI[of _ "0::int"]) simp

lemma representable_dyadic:
  assumes "\<bar>m\<bar> < 2 ^ 53" and "k \<le> 1074"
  shows "representable (of_int m / 2 ^ k)"
proof -
  have "(2::real) powr (of_int (- int k)) = 1 / 2 ^ k"
    by (simp add: powr_minus powr_realpow field_simps)
  then have "of_int m / 2 ^ k = of_int m * (2::real) powr (of_int (- int k))"
    by simp
  then show ?thesis unfolding representable_def using assms
    by (intro exI[of _ m] exI[of _ "- int k"]) simp
qed

lemma int_below: "\<bar>n\<bar> < 2 ^ 53 \<Longrightarrow> \<bar>of_int n :: real\<bar> < 2 ^ 1024"
proof -
  assume "\<bar>n\<bar> < 2 ^ 53"
  then have "(of_int \<bar>n\<bar> :: real) < of_int (2 ^ 53)" by (simp only: of_int_less_iff)
  then show ?thesis by simp
qed

lemma js_num_int: "\<bar>n\<bar> < 2 ^ 53 \<Longrightarrow> js_num (of_int n) = Fin (of_int n)"
  by (rule js_num_representable[OF representable_int int_below])

lemma js_num_dyadic:
  assumes "\<bar>m\<bar> < 2 ^ 53" and "k \<le> 1074"
  shows "js_num (of_int m / 2 ^ k) = Fin (of_int m / 2 ^ k)"
proof -
  have "(1::real) \<le> 2 ^ k" by simp
  then have "\<bar>of_int m :: real\<bar> * 1 \<le> \<bar>of_int m\<bar> * 2 ^ k"
    by (intro mult_left_mono) simp_all
  then have "\<bar>of_int m / 2 ^ k :: real\<bar> \<le> \<bar>of_int m\<bar>"
    by (simp add: abs_divide field_simps)
  then have "\<bar>of_int m / 2 ^ k :: real\<bar> < 2 ^ 1024"
    using int_below[OF assms(1)] by linarith
  then show ?thesis
    using representable_dyadic[OF assms] by (rule js_num_representable[rotated])
qed

lemma js_num_numeral:
  "js_num 0 = Fin 0" "js_num 1 = Fin 1"
  "numeral w < (2 ^ 53 :: int) \<Longrightarrow> js_num (numeral w) = Fin (numeral w)"
  "numeral w < (2 ^ 53 :: int) \<Longrightarrow> js_num (- numeral w) = Fin (- numeral w)"
  using js_num_int[of 0] js_num_int[of 1] js_num_int[of "numeral w"]
    js_num_int[of "- numeral w"]
  by simp_all

lemma js_num_eval:
  assumes "a \<noteq> 0" "- 1022 \<le> e" "e \<le> 1021"
    and "2 powr (of_int e) \<le> \<bar>a\<bar>" "\<bar>a\<bar> < 2 powr (of_int e + 1)"
    and "fl_at e a = r"
  shows "js_num a = Fin r"
proof -
  have "of_int e + 1 \<le> (of_int 1022 :: real)" using assms(3) by simp
  then have "(2::real) powr (of_int e + 1) \<le> 2 powr (of_int 1022)"
    by (simp only: powr_le_cancel_iff) 
  also have "\<dots> = 2 ^ 1022" by simp
  finally have "\<bar>a\<bar> \<le> 2 ^ 1022" using assms(5) by linarith
  then have "js_num a = Fin (fl a)" by (rule js_num_finite)
  then show ?thesis using fl_eval[OF assms(1,2,4,5)] assms(6) by simp
qed

lemma js_double_iff: "js_double (Fin a) \<longleftrightarrow> representable a \<and> \<bar>a\<bar> < 2 ^ 1024"
  using js_num_Fin[of a a] js_num_representable[of a] by (auto simp: js_double_def)

lemma js_num_double: "js_double (js_num a)"
proof (cases "js_num a")
  case (Fin r)
  have "representable r \<and> \<bar>r\<bar> < 2 ^ 1024" using js_num_Fin[OF Fin] by blast
  then show ?thesis unfolding Fin by (simp only: js_double_iff)
qed (simp_all add: js_double_def)

lemma js_div_double: "js_double (js_div a b)"
proof -
  have z: "js_double (Fin 0)" using js_num_double[of 0] by (simp add: js_num_numeral)
  show ?thesis
    by (cases a; cases b) (simp_all add: js_num_double js_inf_def js_double_def[of PInf]
        js_double_def[of NInf] js_double_def[of NaN] z)
qed

lemmas fl_numeral = fl_at_def round_even_def Let_def powr_neg_numeral powr_minus

lemma js_add_NaN_right: "js_add c NaN = NaN"
  by (cases c) simp_all

lemma findKeypoint_None: "findKeypoint kps name = None \<longleftrightarrow> \<not> has_landmark kps name"
  by (auto simp: findKeypoint_def has_landmark_def find_None_iff list_ex_iff)

lemmas frame_eval =
  landmark_def findKeypoint_def kp_key_def has_landmark_def js_sub_def js_num_numeral

subsection \<open>The posture classifier\<close>

text \<open>
  Claim C1. For every frame in which the left shoulder, the right shoulder or the nose is
  absent, \<open>analyzePosture\<close> returns exactly the one-element list with the flag
  "Key points hidden", whatever the baseline: no other flag is emitted.
\<close>

theorem C1_key_points_hidden:
  "\<not> has_landmark kps ''left_shoulder'' \<or> \<not> has_landmark kps ''right_shoulder''
     \<or> \<not> has_landmark kps ''nose''
   \<Longrightarrow> analyzePosture b kps = [''Key points hidden'']"
  by (auto simp: analyzePosture_def findKeypoint_None[symmetric] split: option.splits)

theorem C1_key_points_hidden_witness:
  "\<not> has_landmark nose_only ''left_shoulder'' \<and>
   analyzePosture None nose_only = [''Key points hidden'']"
  using C1_key_points_hidden[of nose_only None]
  by (simp add: nose_only_def frame_eval)

lemma slouching_check_cases:
  "slouching_check bl ls rs n w = [] \<or> slouching_check bl ls rs n w = [''Slouching'']"
  by (simp add: slouching_check_def Let_def split: option.splits)

lemma no_slouching_tilt: "''Slouching'' \<notin> set (tilt_check a b c d)"
  by (auto simp: tilt_check_def Let_def split: option.splits)

lemma no_slouching_leaning: "''Slouching'' \<notin> set (leaning_check a b c d w)"
  by (auto simp: leaning_check_def Let_def split: option.splits)

lemma no_slouching_shoulders: "''Slouching'' \<notin> set (shoulders_check a b)"
  by (auto simp: shoulders_check_def Let_def)

lemma slouching_iff:
  assumes "findKeypoint kps ''left_shoulder'' = Some ls"
    and "findKeypoint kps ''right_shoulder'' = Some rs"
    and "findKeypoint kps ''nose'' = Some n"
  shows "''Slouching'' \<in> set (analyzePosture bl kps) \<longleftrightarrow>
         slouching_check bl ls rs n (js_abs (js_sub (kp_x rs) (kp_x ls))) = [''Slouching'']"
  using assms slouching_check_cases[of bl ls rs n "js_abs (js_sub (kp_x rs) (kp_x ls))"]
  by (auto simp: analyzePosture_def Let_def no_slouching_tilt no_slouching_leaning
      no_slouching_shoulders)

lemma deviation_falsy:
  "r \<noteq> Fin 0 \<Longrightarrow> \<not> js_truthy r \<Longrightarrow> \<not> js_lt (relative_deviation c r) (Fin (- 0.25))"
  by (cases r) (auto simp: relative_deviation_def js_sub_def js_add_NaN_right)

lemma quarter_double: "js_num (- (1 / 4)) = Fin (- (1 / 4))"
  using js_num_dyadic[of "- 1" 2] by simp

lemma deviation_boundary:
  assumes r: "js_double (Fin r)" and c: "js_double (Fin (0.75 * r))" and "r \<noteq> 0"
  shows "relative_deviation (Fin (0.75 * r)) (Fin r) = Fin (- 0.25)"
proof -
  have "representable r" "representable (3 / 4 * r)" and b: "\<bar>r\<bar> < 2 ^ 1024"
    using r c by (simp_all add: js_double_iff)
  then have "representable (- (r / 4))"
    by (intro representable_minus representable_quarter)
  moreover have "\<bar>- (r / 4)\<bar> < 2 ^ 1024" using b by simp
  ultimately have "js_num (- (r / 4)) = Fin (- (r / 4))"
    by (rule js_num_representable)
  moreover have "0.75 * r + - r = - (r / 4)" by simp
  ultimately have s: "js_sub (Fin (0.75 * r)) (Fin r) = Fin (- (r / 4))"
    by (simp add: js_sub_def)
  have "- (r / 4) / r = - (1 / 4)" using assms(3) by simp
  then have "js_div (Fin (- (r / 4))) (Fin r) = Fin (- (1 / 4))"
    using assms(3) quarter_double by simp
  then show ?thesis unfolding relative_deviation_def s by simp
qed

lemma boundary_no_flag:
  assumes "js_double r" and "js_double (three_quarters r)"
  shows "\<not> js_lt (relative_deviation (three_quarters r) r) (Fin (- 0.25))"
proof (cases r)
  case (Fin a)
  show ?thesis
  proof (cases "a = 0")
    case True
    then show ?thesis using Fin
      by (simp add: relative_deviation_def js_sub_def js_num_numeral)
  next
    case False
    then show ?thesis
      using assms deviation_boundary[of a] Fin by simp
  qed
qed (simp_all add: relative_deviation_def js_sub_def)

text \<open>Evaluation of the example frames.\<close>

lemma two_fifths: "js_num (2 / 5) = Fin (3602879701896397 / 2 ^ 53)"
  by (rule js_num_eval[where e = "- 2"]) (simp_all add: fl_numeral)

lemma three_tenths: "js_num (3 / 10) = Fin (5404319552844595 / 2 ^ 54)"
  by (rule js_num_eval[where e = "- 2"]) (simp_all add: fl_numeral)

lemma upright_landmarks:
  "findKeypoint upright_frame ''left_shoulder'' = Some (landmark ''left_shoulder'' 10 100)"
  "findKeypoint upright_frame ''right_shoulder'' = Some (landmark ''right_shoulder'' 0 100)"
  "findKeypoint upright_frame ''nose'' = Some (landmark ''nose'' 5 96)"
  by (simp_all add: upright_frame_def frame_eval)

lemma lowered_landmarks:
  "findKeypoint lowered_frame ''left_shoulder'' = Some (landmark ''left_shoulder'' 10 100)"
  "findKeypoint lowered_frame ''right_shoulder'' = Some (landmark ''right_shoulder'' 0 100)"
  "findKeypoint lowered_frame ''nose'' = Some (landmark ''nose'' 5 97)"
  by (simp_all add: lowered_frame_def frame_eval)

lemma boundary_landmarks:
  "findKeypoint boundary_frame ''left_shoulder'' = Some (landmark ''left_shoulder'' 8 100)"
  "findKeypoint boundary_frame ''right_shoulder'' = Some (landmark ''right_shoulder'' 0 100)"
  "findKeypoint boundary_frame ''nose'' = Some (landmark ''nose'' 4 97)"
  by (simp_all add: boundary_frame_def frame_eval)

lemma example_ratios:
  "frame_ratio upright_frame = Fin (3602879701896397 / 2 ^ 53)"
  "frame_ratio lowered_frame = Fin (5404319552844595 / 2 ^ 54)"
  "frame_ratio boundary_frame = Fin (3 / 8)"
  using js_num_dyadic[of 3 3]
  by (simp_all add: frame_ratio_def upright_landmarks lowered_landmarks boundary_landmarks
      current_ratio_def landmark_def js_sub_def js_num_numeral two_fifths three_tenths)

lemma lowered_deviation:
  "relative_deviation (Fin (5404319552844595 / 2 ^ 54)) (Fin (3602879701896397 / 2 ^ 53))
     = Fin (- (4503599627370497 / 2 ^ 54))"
proof -
  have s: "js_num (- (1801439850948199 / 2 ^ 54)) = Fin (- (1801439850948199 / 2 ^ 54))"
    using js_num_dyadic[of "- 1801439850948199" 54] by simp
  have d: "js_num (- (1801439850948199 / 2 ^ 54) / (3602879701896397 / 2 ^ 53))
             = Fin (- (4503599627370497 / 2 ^ 54))"
    by (rule js_num_eval[where e = "- 2"]) (simp_all add: fl_numeral)
  have "(5404319552844595 / 2 ^ 54 + - (3602879701896397 / 2 ^ 53) :: real)
          = - (1801439850948199 / 2 ^ 54)"
    by simp
  then have "js_sub (Fin (5404319552844595 / 2 ^ 54)) (Fin (3602879701896397 / 2 ^ 53))
          = Fin (- (1801439850948199 / 2 ^ 54))"
    unfolding js_sub_def js_neg.simps js_add.simps using s by simp
  then show ?thesis
    unfolding relative_deviation_def using d by simp
qed

lemma reference_landmarks:
  "findKeypoint reference_frame ''left_shoulder'' = Some (landmark ''left_shoulder'' 10 100)"
  "findKeypoint reference_frame ''right_shoulder'' = Some (landmark ''right_shoulder'' 0 100)"
  "findKeypoint reference_frame ''nose'' = Some (landmark ''nose'' 5 83)"
  by (simp_all add: reference_frame_def frame_eval)

lemma three_quarter_landmarks:
  "findKeypoint three_quarter_frame ''left_shoulder'' = Some (landmark ''left_shoulder'' 40 100)"
  "findKeypoint three_quarter_frame ''right_shoulder'' = Some (landmark ''right_shoulder'' 0 100)"
  "findKeypoint three_quarter_frame ''nose'' = Some (landmark ''nose'' 20 49)"
  by (simp_all add: three_quarter_frame_def frame_eval)

lemma seventeen_tenths: "js_num (17 / 10) = Fin (7656119366529843 / 2 ^ 52)"
  by (rule js_num_eval[where e = 0]) (simp_all add: fl_numeral)

lemma fiftyone_fortieths: "js_num (51 / 40) = Fin (2871044762448691 / 2 ^ 51)"
  by (rule js_num_eval[where e = 0]) (simp_all add: fl_numeral)

lemma three_quarter_ratios:
  "frame_ratio reference_frame = Fin (7656119366529843 / 2 ^ 52)"
  "frame_ratio three_quarter_frame = Fin (2871044762448691 / 2 ^ 51)"
  "shoulder_distance three_quarter_frame = Fin 40"
  by (simp_all add: frame_ratio_def shoulder_distance_def reference_landmarks
      three_quarter_landmarks current_ratio_def landmark_def js_sub_def js_num_numeral
      seventeen_tenths fiftyone_fortieths)

lemma three_quarter_product:
  "js_mul (Fin 0.75) (Fin (7656119366529843 / 2 ^ 52)) = Fin (2871044762448691 / 2 ^ 51)"
proof -
  have "js_num (0.75 * (7656119366529843 / 2 ^ 52)) = Fin (2871044762448691 / 2 ^ 51)"
    by (rule js_num_eval[where e = 0]) (simp_all add: fl_numeral)
  then show ?thesis by simp
qed

lemma three_quarter_deviation:
  "relative_deviation (Fin (2871044762448691 / 2 ^ 51)) (Fin (7656119366529843 / 2 ^ 52))
     = Fin (- (4503599627370497 / 2 ^ 54))"
proof -
  have s: "js_num (- (1914029841632461 / 2 ^ 52)) = Fin (- (1914029841632461 / 2 ^ 52))"
    using js_num_dyadic[of "- 1914029841632461" 52] by simp
  have d: "js_num (- (1914029841632461 / 2 ^ 52) / (7656119366529843 / 2 ^ 52))
             = Fin (- (4503599627370497 / 2 ^ 54))"
    by (rule js_num_eval[where e = "- 2"]) (simp_all add: fl_numeral)
  have "(2871044762448691 / 2 ^ 51 + - (7656119366529843 / 2 ^ 52) :: real)
          = - (1914029841632461 / 2 ^ 52)"
    by simp
  then have "js_sub (Fin (2871044762448691 / 2 ^ 51)) (Fin (7656119366529843 / 2 ^ 52))
          = Fin (- (1914029841632461 / 2 ^ 52))"
    unfolding js_sub_def js_neg.simps js_add.simps using s by simp
  then show ?thesis
    unfolding relative_deviation_def using d by simp
qed

lemma three_quarter_flagged:
  "''Slouching'' \<in> set (analyzePosture (Some \<lparr>ratio = frame_ratio reference_frame\<rparr>)
                                        three_quarter_frame)"
proof -
  have "slouching_check (Some \<lparr>ratio = frame_ratio reference_frame\<rparr>)
          (landmark ''left_shoulder'' 40 100) (landmark ''right_shoulder'' 0 100)
          (landmark ''nose'' 20 49)
          (js_abs (js_sub (kp_x (landmark ''right_shoulder'' 0 100))
                          (kp_x (landmark ''left_shoulder'' 40 100))))
        = [''Slouching'']"
  proof -
    have c: "js_div (js_sub (js_div (js_add (Fin 100) (Fin 100)) (Fin 2)) (Fin 49)) (Fin 40)
               = Fin (2871044762448691 / 2 ^ 51)"
      by (simp add: js_sub_def js_num_numeral fiftyone_fortieths)
    have w: "js_abs (js_sub (Fin 0) (Fin 40)) = Fin 40"
      by (simp add: js_sub_def js_num_numeral)
    have d: "js_div (js_sub (Fin (2871044762448691 / 2 ^ 51)) (Fin (7656119366529843 / 2 ^ 52)))
               (Fin (7656119366529843 / 2 ^ 52)) = Fin (- (4503599627370497 / 2 ^ 54))"
      using three_quarter_deviation by (simp only: relative_deviation_def)
    show ?thesis
      unfolding slouching_check_def landmark_def three_quarter_ratios
      by (simp only: keypoint.simps baseline.simps option.case w c d Let_def)
         (simp add: js_gt_def)
  qed
  then show ?thesis
    by (simp only: slouching_iff[OF three_quarter_landmarks]) 
qed

text \<open>
  Claim C2 as stated fails at the boundary, because the code computes in doubles. The
  baseline ratio of the frame with the nose 17 above shoulders 10 apart is the double
  1.7, and the ratio of the frame with the nose 51 above shoulders 40 apart is the
  double 1.275, which is what \<open>0.75 * 1.7\<close> gives in doubles. The double 1.275 lies
  below three quarters of the double 1.7: the relative deviation that the code computes
  is -0.25000000000000006, and the frame is flagged.
\<close>

theorem C2_counterexample:
  "shoulder_distance three_quarter_frame = Fin 40
   \<and> frame_ratio reference_frame = js_num (17 / 10)
   \<and> frame_ratio three_quarter_frame = js_num (51 / 40)
   \<and> frame_ratio three_quarter_frame = js_mul (Fin 0.75) (frame_ratio reference_frame)
   \<and> relative_deviation (frame_ratio three_quarter_frame) (frame_ratio reference_frame)
       = Fin (- (4503599627370497 / 2 ^ 54))
   \<and> ''Slouching'' \<in> set (analyzePosture (Some \<lparr>ratio = frame_ratio reference_frame\<rparr>)
                                          three_quarter_frame)"
  using three_quarter_flagged
  by (simp only: three_quarter_ratios three_quarter_product three_quarter_deviation
      seventeen_tenths fiftyone_fortieths)

text \<open>
  Claim C2, amended. For a frame with both shoulders and the nose, a baseline whose ratio
  is not zero and a shoulder width above zero, the flag "Slouching" is raised if and only
  if the relative deviation (current ratio - baseline ratio) / baseline ratio, as the
  code computes it in doubles, is strictly less than -0.25. A frame whose computed
  deviation is exactly -0.25 does not raise it; and a frame whose computed ratio is
  0.75 times the baseline ratio exactly, as a product of reals without rounding (the
  baseline ratio being a double, as every number of the code is), has the computed
  deviation exactly -0.25 and does not raise it.
\<close>

theorem C2_slouching_threshold:
  assumes "findKeypoint kps ''left_shoulder'' = Some ls"
    and "findKeypoint kps ''right_shoulder'' = Some rs"
    and "findKeypoint kps ''nose'' = Some n"
    and "ratio b \<noteq> Fin 0"
    and "js_gt (js_abs (js_sub (kp_x rs) (kp_x ls))) (Fin 0)"
  shows "(''Slouching'' \<in> set (analyzePosture (Some b) kps) \<longleftrightarrow>
            js_lt (relative_deviation (current_ratio ls rs n) (ratio b)) (Fin (- 0.25)))
         \<and> (relative_deviation (current_ratio ls rs n) (ratio b) = Fin (- 0.25) \<longrightarrow>
              ''Slouching'' \<notin> set (analyzePosture (Some b) kps))
         \<and> (js_double (ratio b) \<and> current_ratio ls rs n = three_quarters (ratio b) \<longrightarrow>
              ''Slouching'' \<notin> set (analyzePosture (Some b) kps))
         \<and> (js_double (ratio b) \<and> ratio b = Fin r \<and> current_ratio ls rs n = Fin (0.75 * r) \<longrightarrow>
              relative_deviation (current_ratio ls rs n) (ratio b) = Fin (- 0.25))"
proof -
  have iff: "''Slouching'' \<in> set (analyzePosture (Some b) kps) \<longleftrightarrow>
        js_lt (relative_deviation (current_ratio ls rs n) (ratio b)) (Fin (- 0.25))"
  proof (cases "js_truthy (ratio b)")
    case True
    then show ?thesis
      using assms
      by (simp add: slouching_iff[OF assms(1-3)] slouching_check_def Let_def
          relative_deviation_def current_ratio_def)
  next
    case False
    then show ?thesis
      using assms deviation_falsy[OF assms(4) False]
      by (simp add: slouching_iff[OF assms(1-3)] slouching_check_def Let_def)
  qed
  have c: "js_double (current_ratio ls rs n)"
    unfolding current_ratio_def by (rule js_div_double)
  have "\<not> js_lt (relative_deviation (current_ratio ls rs n) (ratio b)) (Fin (- 0.25))"
    if "js_double (ratio b)" "current_ratio ls rs n = three_quarters (ratio b)"
    using boundary_no_flag[of "ratio b"] that c by simp
  moreover have "relative_deviation (current_ratio ls rs n) (ratio b) = Fin (- 0.25)"
    if "js_double (ratio b)" "ratio b = Fin r" "current_ratio ls rs n = Fin (0.75 * r)"
    using deviation_boundary[of r] that c assms(4) by simp
  moreover have "\<not> js_lt (Fin (- 0.25)) (Fin (- 0.25))" by simp
  ultimately show ?thesis
    using iff by metis
qed

text \<open>
  The frame with the nose 3 above shoulders that are 10 apart is flagged against the
  baseline of the frame with the nose 4 above them: the doubles nearest to 3 / 10 and
  4 / 10 have the relative deviation -0.25000000000000006. The frame with the ratio
  3 / 8 is not flagged against the baseline ratio 1 / 2.
\<close>

theorem C2_slouching_threshold_witness:
  "frame_ratio upright_frame = Fin (3602879701896397 / 2 ^ 53) \<and>
   relative_deviation (frame_ratio lowered_frame) (frame_ratio upright_frame)
     = Fin (- (4503599627370497 / 2 ^ 54)) \<and>
   ''Slouching'' \<in> set (analyzePosture (Some \<lparr>ratio = frame_ratio upright_frame\<rparr>) lowered_frame) \<and>
   js_double (Fin (1 / 2)) \<and>
   frame_ratio boundary_frame = three_quarters (Fin (1 / 2)) \<and>
   relative_deviation (frame_ratio boundary_frame) (Fin (1 / 2)) = Fin (- 0.25) \<and>
   ''Slouching'' \<notin> set (analyzePosture (Some \<lparr>ratio = Fin (1 / 2)\<rparr>) boundary_frame)"
proof -
  have w: "js_gt (js_abs (js_sub (kp_x (landmark ''right_shoulder'' 0 100))
                                 (kp_x (landmark ''left_shoulder'' 10 100)))) (Fin 0)"
    "js_gt (js_abs (js_sub (kp_x (landmark ''right_shoulder'' 0 100))
                           (kp_x (landmark ''left_shoulder'' 8 100)))) (Fin 0)"
    by (simp_all add: landmark_def js_sub_def js_num_numeral js_gt_def)
  have l: "current_ratio (landmark ''left_shoulder'' 10 100) (landmark ''right_shoulder'' 0 100)
             (landmark ''nose'' 5 97) = frame_ratio lowered_frame"
    by (simp add: frame_ratio_def lowered_landmarks)
  have b: "current_ratio (landmark ''left_shoulder'' 8 100) (landmark ''right_shoulder'' 0 100)
             (landmark ''nose'' 4 97) = frame_ratio boundary_frame"
    by (simp add: frame_ratio_def boundary_landmarks)
  have h: "js_double (Fin (1 / 2))"
    using representable_dyadic[of 1 1] by (simp add: js_double_iff)
  have dv: "relative_deviation (frame_ratio lowered_frame) (frame_ratio upright_frame)
              = Fin (- (4503599627370497 / 2 ^ 54))"
    unfolding example_ratios by (rule lowered_deviation)
  have lt: "js_lt (relative_deviation (frame_ratio lowered_frame) (frame_ratio upright_frame))
              (Fin (- 0.25))"
    unfolding dv by simp
  have nz: "ratio \<lparr>ratio = frame_ratio upright_frame\<rparr> \<noteq> Fin 0"
    by (simp add: example_ratios)
  have "''Slouching'' \<in> set (analyzePosture (Some \<lparr>ratio = frame_ratio upright_frame\<rparr>) lowered_frame)"
    using C2_slouching_threshold[OF lowered_landmarks nz w(1), of 0] lt
    unfolding l by simp
  moreover have "relative_deviation (frame_ratio boundary_frame) (Fin (1 / 2)) = Fin (- 0.25)
     \<and> ''Slouching'' \<notin> set (analyzePosture (Some \<lparr>ratio = Fin (1 / 2)\<rparr>) boundary_frame)"
    using C2_slouching_threshold[OF boundary_landmarks _ w(2), of "\<lparr>ratio = Fin (1 / 2)\<rparr>" "1 / 2"] h
    unfolding b by (simp add: example_ratios)
  ultimately show ?thesis
    using h dv by (simp add: example_ratios)
qed

subsection \<open>The baseline calibrator\<close>

lemma showNotification_fields:
  "baselinePosture (showNotification m s st) = baselinePosture st"
  "lastKeypoints (showNotification m s st) = lastKeypoints st"
  "notifications (showNotification m s st) = notifications st @ [(m, s)]"
  "recording (showNotification m s st) = recording st"
  by (simp_all add: showNotification_def setTimeout_def)

lemma setBaseline_fails:
  "baseline_failure st \<Longrightarrow>
     \<not> fst (setBaseline st) \<and> baselinePosture (snd (setBaseline st)) = baselinePosture st"
  by (auto simp: baseline_failure_def frame_unusable_def setBaseline_def shoulder_distance_def
      showNotification_fields findKeypoint_None[symmetric] Let_def split: option.splits)

lemma setBaseline_succeeds:
  "\<not> baseline_failure st \<Longrightarrow>
     fst (setBaseline st) \<and>
     baselinePosture (snd (setBaseline st))
       = map_option (\<lambda>kps. \<lparr>ratio = frame_ratio kps\<rparr>) (lastKeypoints st)"
  by (auto simp: baseline_failure_def frame_unusable_def setBaseline_def shoulder_distance_def
      frame_ratio_def current_ratio_def showNotification_fields
      findKeypoint_None[symmetric] Let_def split: option.splits)

text \<open>The ratio of a baseline that \<open>setBaseline\<close> stores is a double.\<close>

lemma frame_ratio_double: "js_double (frame_ratio kps)"
  by (simp add: frame_ratio_def current_ratio_def js_div_double js_double_def[of NaN]
      split: option.splits)

lemma setBaseline_double:
  assumes "baselinePosture (snd (setBaseline st)) = Some b"
  shows "baselinePosture st = Some b \<or> js_double (ratio b)"
proof (cases "baseline_failure st")
  case True
  then show ?thesis using setBaseline_fails[of st] assms by simp
next
  case False
  then obtain kps where "b = \<lparr>ratio = frame_ratio kps\<rparr>"
    using setBaseline_succeeds[of st] assms by (cases "lastKeypoints st") auto
  then show ?thesis by (simp add: frame_ratio_double)
qed

text \<open>
  Claim C6. Every failing call of \<open>setBaseline\<close> (no frame seen yet, a shoulder or the
  nose not detected, or a shoulder width below 10) returns failure and leaves the stored
  baseline as it was; every other call returns success and replaces the baseline by the
  ratio computed from the last frame.
\<close>

theorem C6_setBaseline:
  "(baseline_failure st \<longrightarrow>
      \<not> fst (setBaseline st) \<and> baselinePosture (snd (setBaseline st)) = baselinePosture st)
   \<and> (\<not> baseline_failure st \<longrightarrow>
      fst (setBaseline st) \<and>
      baselinePosture (snd (setBaseline st))
        = map_option (\<lambda>kps. \<lparr>ratio = frame_ratio kps\<rparr>) (lastKeypoints st))"
  using setBaseline_fails setBaseline_succeeds by blast

lemma narrow_eval:
  "shoulder_distance narrow_frame = Fin 5" "baseline_failure narrow_state"
  by (simp_all add: shoulder_distance_def narrow_frame_def narrow_state_def frame_eval
     baseline_failure_def frame_unusable_def)

lemma wide_eval:
  "shoulder_distance wide_frame = Fin 50"
  "frame_ratio wide_frame = Fin (3602879701896397 / 2 ^ 53)"
  "\<not> frame_unusable wide_frame"
  by (simp_all add: shoulder_distance_def wide_frame_def frame_eval
     frame_ratio_def current_ratio_def frame_unusable_def two_fifths)

text \<open>
  The example of the specification: with the shoulders 5 apart the call fails and the
  baseline of ratio 1 stays; a following call with the shoulders 50 apart succeeds and
  overwrites it.
\<close>

theorem C6_setBaseline_witness:
  "shoulder_distance narrow_frame = Fin 5 \<and>
   \<not> fst (setBaseline narrow_state) \<and>
   baselinePosture (snd (setBaseline narrow_state)) = Some \<lparr>ratio = Fin 1\<rparr> \<and>
   shoulder_distance wide_frame = Fin 50 \<and>
   fst (setBaseline ((snd (setBaseline narrow_state))\<lparr>lastKeypoints := Some wide_frame\<rparr>)) \<and>
   baselinePosture
     (snd (setBaseline ((snd (setBaseline narrow_state))\<lparr>lastKeypoints := Some wide_frame\<rparr>)))
     = Some \<lparr>ratio = Fin (3602879701896397 / 2 ^ 53)\<rparr>"
proof -
  let ?s = "(snd (setBaseline narrow_state))\<lparr>lastKeypoints := Some wide_frame\<rparr>"
  have "\<not> fst (setBaseline narrow_state) \<and>
        baselinePosture (snd (setBaseline narrow_state)) = baselinePosture narrow_state"
    using C6_setBaseline[of narrow_state] narrow_eval(2) by blast
  moreover have "baselinePosture narrow_state = Some \<lparr>ratio = Fin 1\<rparr>"
    by (simp add: narrow_state_def)
  moreover have "\<not> baseline_failure ?s"
    by (simp add: baseline_failure_def wide_eval)
  then have "fst (setBaseline ?s) \<and>
        baselinePosture (snd (setBaseline ?s)) = Some \<lparr>ratio = frame_ratio wide_frame\<rparr>"
    using C6_setBaseline[of ?s] by simp
  ultimately show ?thesis
    by (simp add: narrow_eval wide_eval)
qed

subsection \<open>The distribution of the labels of an answer\<close>

lemma proto_inherited: "''__proto__'' \<in> set Object_prototype"
  by (simp add: Object_prototype_def)

lemma count_label_apply:
  "count_label acc v l =
     (if l = v \<and> v \<noteq> ''__proto__''
      then Some (case acc v of
                   Some (Num c) \<Rightarrow> Num (c + 1)
                 | Some Str \<Rightarrow> Str
                 | None \<Rightarrow> if v \<in> set Object_prototype then Str else Num 1)
      else acc l)"
  by (simp add: count_label_def Let_def)

lemma counts_absent: "l \<notin> set xs \<Longrightarrow> foldl count_label acc xs l = acc l"
  by (induction xs arbitrary: acc) (simp_all add: count_label_apply)

lemma counts_present:
  "l \<notin> set Object_prototype \<Longrightarrow> acc l = Some (Num c) \<Longrightarrow>
     foldl count_label acc xs l = Some (Num (c + count_list xs l))"
proof (induction xs arbitrary: acc c)
  case Nil
  then show ?case by simp
next
  case (Cons x xs)
  have p: "l \<noteq> ''__proto__''" using Cons.prems(1) proto_inherited by auto
  show ?case
  proof (cases "x = l")
    case True
    then have "count_label acc x l = Some (Num (c + 1))"
      using Cons.prems(2) p by (simp add: count_label_apply)
    then show ?thesis
      using Cons.IH[OF Cons.prems(1), of "count_label acc x" "c + 1"] True by simp
  next
    case False
    then have "count_label acc x l = Some (Num c)"
      using Cons.prems(2) by (simp add: count_label_apply)
    then show ?thesis
      using Cons.IH[OF Cons.prems(1), of "count_label acc x" c] False by simp
  qed
qed

lemma counts_new:
  "l \<notin> set Object_prototype \<Longrightarrow> acc l = None \<Longrightarrow> l \<in> set xs \<Longrightarrow>
     foldl count_label acc xs l = Some (Num (count_list xs l))"
proof (induction xs arbitrary: acc)
  case Nil
  then show ?case by simp
next
  case (Cons x xs)
  have p: "l \<noteq> ''__proto__''" using Cons.prems(1) proto_inherited by auto
  show ?case
  proof (cases "x = l")
    case True
    then have "count_label acc x l = Some (Num 1)"
      using Cons.prems(1,2) p by (simp add: count_label_apply)
    then show ?thesis
      using counts_present[OF Cons.prems(1), of "count_label acc x" 1 xs] True by simp
  next
    case False
    then have "count_label acc x l = None" "l \<in> set xs"
      using Cons.prems(2,3) by (simp_all add: count_label_apply)
    then show ?thesis
      using Cons.IH[OF Cons.prems(1), of "count_label acc x"] False by simp
  qed
qed

lemma fl_small:
  assumes "\<bar>a\<bar> \<le> 1"
  shows "\<bar>fl a\<bar> \<le> 2"
proof (cases "a = 0")
  case True
  then show ?thesis by (simp add: fl_def)
next
  case False
  define e0 where "e0 = \<lfloor>log 2 \<bar>a\<bar>\<rfloor>"
  have lo: "2 powr (of_int e0) \<le> \<bar>a\<bar>"
    using floor_log_eq_powr_iff[of "\<bar>a\<bar>" 2 e0] False by (simp add: e0_def)
  have "2 powr (of_int e0) \<le> (2::real) powr (of_int 0)"
    using lo assms by simp
  then have "of_int e0 \<le> (of_int 0 :: real)"
    by (rule powr_le_cancel_iff[THEN iffD1, rotated]) simp
  then have "e0 \<le> 0" by (simp only: of_int_le_iff)
  then have "of_int (max e0 (- 1022)) - 53 \<le> (0::real)" by simp
  then have "(2::real) powr (of_int (max e0 (- 1022)) - 53) \<le> 2 powr 0"
    by (simp only: powr_le_cancel_iff)
  then have "\<bar>fl a - a\<bar> \<le> 1"
    using fl_near[OF False] by (simp add: e0_def)
  then show ?thesis using assms by linarith
qed

lemma percent_value:
  assumes "0 < c" and "c \<le> n"
  shows "js_mul (js_div (Fin (real c)) (Fin (real n))) (Fin 100) = Fin (percentage c n)"
proof -
  define q where "q = real c / real n"
  have q: "\<bar>q\<bar> \<le> 1" using assms by (simp add: q_def)
  have big: "(200::real) \<le> 2 ^ 1022" "(1::real) \<le> 2 ^ 1022" by simp_all
  have "js_num q = Fin (fl q)"
    using q big(2) by (intro js_num_finite) linarith
  then have d: "js_div (Fin (real c)) (Fin (real n)) = Fin (fl q)"
    using assms by (simp add: q_def)
  have "\<bar>fl q * 100\<bar> \<le> 200" using fl_small[OF q] by (simp add: abs_mult)
  then have "js_num (fl q * 100) = Fin (fl (fl q * 100))"
    using big(1) by (intro js_num_finite) linarith
  then show ?thesis unfolding d by (simp add: percentage_def q_def)
qed

lemma distribution_absent: "l \<notin> set xs \<Longrightarrow> calculateDistribution xs l = None"
  by (simp add: calculateDistribution_def Let_def counts_absent)

lemma distribution_present:
  assumes "l \<in> set xs" and "l \<notin> set Object_prototype"
  shows "calculateDistribution xs l
           = Some (Fin (of_int \<lfloor>percentage (count_list xs l) (length xs) + 1 / 2\<rfloor>))"
proof -
  have "0 < count_list xs l"
    using assms(1) count_list_0_iff[of xs l] by (cases "count_list xs l") auto
  moreover have "count_list xs l \<le> length xs" by (rule count_le_length)
  ultimately have "js_mul (js_div (Fin (real (count_list xs l))) (Fin (real (length xs)))) (Fin 100)
      = Fin (percentage (count_list xs l) (length xs))"
    by (rule percent_value)
  moreover have "foldl count_label Map.empty xs l = Some (Num (count_list xs l))"
    using assms by (intro counts_new) simp_all
  moreover have "xs \<noteq> []" using assms(1) by auto
  ultimately show ?thesis
    by (simp add: calculateDistribution_def Let_def)
qed

lemma count_list_replicate: "count_list (replicate n a) b = (if a = b then n else 0)"
  by (induction n) auto

text \<open>The error of the rounding, and the percentages of the examples.\<close>

lemma percentage_error:
  assumes "0 < c" and "c \<le> n" and "n < 2 ^ 32"
  shows "\<bar>percentage c n - 100 * real c / real n\<bar> \<le> 1 / 2 ^ 44"
proof -
  define q where "q = real c / real n"
  define a where "a = fl q"
  have n: "real n < 2 ^ 32" using assms(3) by (metis of_nat_less_iff of_nat_numeral of_nat_power)
  have "1 \<le> real c" using assms(1) by simp
  then have "1 / real n \<le> q" using assms by (simp add: q_def field_simps)
  moreover have "1 / 2 ^ 32 < 1 / real n" using n assms by (simp add: field_simps)
  ultimately have qlo: "1 / 2 ^ 32 < q" by linarith
  have q: "0 < q" "q \<le> 1" using assms by (simp_all add: q_def)
  have small: "(2::real) powr (- 1022) \<le> 1 / 2 ^ 33"
    by (simp add: powr_neg_numeral)
  have "2 powr (- 1022) \<le> \<bar>q\<bar>" using small qlo by simp
  then have "\<bar>a - q\<bar> \<le> \<bar>q\<bar> / 2 ^ 53" unfolding a_def by (rule fl_error)
  then have ea: "\<bar>a - q\<bar> \<le> q / 2 ^ 53" using q(1) by simp
  then have a1: "\<bar>a - q\<bar> \<le> 1 / 2 ^ 53" using q(2) by (simp add: field_simps)
  have "q / 2 ^ 53 \<le> q / 2" using q(1) by (simp add: field_simps)
  then have ahalf: "q / 2 \<le> a" using ea by linarith
  then have apos: "0 < a" using q(1) by linarith
  have "(1::real) / 2 ^ 53 \<le> 1" by simp
  then have a2: "a \<le> 2" using a1 q(2) by linarith
  have "1 / 2 ^ 33 \<le> a" using ahalf qlo by simp
  then have "2 powr (- 1022) \<le> \<bar>a * 100\<bar>" using small apos by simp
  then have "\<bar>fl (a * 100) - a * 100\<bar> \<le> \<bar>a * 100\<bar> / 2 ^ 53"
    by (rule fl_error)
  also have "\<dots> \<le> 200 / 2 ^ 53" using a2 apos by simp
  finally have eb: "\<bar>fl (a * 100) - a * 100\<bar> \<le> 200 / 2 ^ 53" .
  define b where "b = fl (a * 100)"
  have "b - a * 100 \<le> 200 / 2 ^ 53" "- (200 / 2 ^ 53) \<le> b - a * 100"
    using eb unfolding b_def by linarith+
  moreover have "a - q \<le> 1 / 2 ^ 53" "- (1 / 2 ^ 53) \<le> a - q"
    using a1 by linarith+
  ultimately have "b - 100 * q \<le> 300 / 2 ^ 53" "- (300 / 2 ^ 53) \<le> b - 100 * q"
    by linarith+
  then have "\<bar>b - 100 * q\<bar> \<le> 300 / 2 ^ 53" by linarith
  also have "\<dots> \<le> 1 / 2 ^ 44" by simp
  finally have "\<bar>b - 100 * q\<bar> \<le> 1 / 2 ^ 44" .
  then show ?thesis by (simp add: percentage_def b_def a_def q_def)
qed

lemma exact_round:
  assumes "0 < n"
  shows "round (100 * real c / real n) = int ((200 * c + n) div (2 * n))"
proof -
  have "100 * real c / real n + 1 / 2 = real (200 * c + n) / real (2 * n)"
    using assms by (simp add: field_simps)
  then show ?thesis
    unfolding round_def by (simp only: floor_divide_of_nat_eq)
qed

lemma Math_round_percentage:
  assumes c: "0 < c" "c \<le> n" and n: "n < 2 ^ 32"
  shows "if tie c n
         then \<lfloor>percentage c n + 1 / 2\<rfloor> = round (100 * real c / real n)
              \<or> \<lfloor>percentage c n + 1 / 2\<rfloor> = round (100 * real c / real n) - 1
         else \<lfloor>percentage c n + 1 / 2\<rfloor> = round (100 * real c / real n)"
proof -
  define K where "K = (200 * c + n) div (2 * n)"
  define m where "m = (200 * c + n) mod (2 * n)"
  define y where "y = 100 * real c / real n + 1 / 2"
  define b where "b = percentage c n + 1 / 2"
  have npos: "0 < n" using c by simp
  have r: "round (100 * real c / real n) = int K"
    unfolding K_def using npos by (rule exact_round)
  have "200 * c + n = K * (2 * n) + m"
    unfolding K_def m_def by (rule div_mult_mod_eq[symmetric])
  then have "real (200 * c + n) = real K * real (2 * n) + real m"
    by (metis of_nat_add of_nat_mult)
  then have y: "y = real K + real m / real (2 * n)"
    using npos by (simp add: y_def field_simps)
  have err: "\<bar>b - y\<bar> \<le> 1 / 2 ^ 44"
    using percentage_error[OF c n] by (simp add: b_def y_def)
  have "real n < 2 ^ 32" using n by (metis of_nat_less_iff of_nat_numeral of_nat_power)
  then have small: "1 / 2 ^ 44 < 1 / real (2 * n)"
    using npos by (simp add: field_simps)
  have e: "b - y \<le> 1 / 2 ^ 44" "- (1 / 2 ^ 44) \<le> b - y"
    using err by linarith+
  have tiny: "(1::real) / 2 ^ 44 < 1" by simp
  show ?thesis
  proof (cases "tie c n")
    case True
    then have "m = 0" unfolding tie_def m_def by (simp add: dvd_eq_mod_eq_0)
    then have "y = real K" using y by simp
    then have "real K - 1 \<le> b" "b < real K + 1"
      using e tiny by linarith+
    then have "\<lfloor>b\<rfloor> = int K \<or> \<lfloor>b\<rfloor> = int K - 1"
      by (simp add: floor_eq_iff) linarith
    then show ?thesis using True r by (simp add: b_def)
  next
    case False
    then have "0 < m" unfolding tie_def m_def by (simp add: dvd_eq_mod_eq_0)
    moreover have "m < 2 * n" using npos by (simp add: m_def)
    ultimately have "1 \<le> real m" "real m \<le> real (2 * n) - 1"
      by simp_all
    then have "1 / real (2 * n) \<le> real m / real (2 * n)"
      "real m / real (2 * n) \<le> 1 - 1 / real (2 * n)"
      using npos by (simp_all add: field_simps)
    then have "real K \<le> b" "b < real K + 1"
      using e y small by linarith+
    then have "\<lfloor>b\<rfloor> = int K"
      by (simp add: floor_eq_iff)
    then show ?thesis using False r by (simp add: b_def)
  qed
qed

lemma percentage_eval:
  assumes "q \<noteq> 0" "- 1022 \<le> e" "2 powr (of_int e) \<le> \<bar>q\<bar>" "\<bar>q\<bar> < 2 powr (of_int e + 1)"
    and "fl_at e q = a"
    and "a * 100 \<noteq> 0" "- 1022 \<le> e'" "2 powr (of_int e') \<le> \<bar>a * 100\<bar>"
      "\<bar>a * 100\<bar> < 2 powr (of_int e' + 1)"
    and "fl_at e' (a * 100) = b"
  shows "fl (fl q * 100) = b"
  using assms fl_eval[of q e] fl_eval[of "a * 100" e'] by simp

lemma p_2_3: "fl (fl (2 / 3) * 100) = 4691249611844266 / 2 ^ 46"
  by (rule percentage_eval[where e = "- 1" and e' = 6 and a = "6004799503160661 / 2 ^ 53"])
     (simp_all add: fl_numeral)

lemma p_1_3: "fl (fl (1 / 3) * 100) = 4691249611844266 / 2 ^ 47"
  by (rule percentage_eval[where e = "- 2" and e' = 5 and a = "6004799503160661 / 2 ^ 54"])
     (simp_all add: fl_numeral)

lemma p_23_40: "fl (fl (23 / 40) * 100) = 8092405580431359 / 2 ^ 47"
  by (rule percentage_eval[where e = "- 1" and e' = 5 and a = "5179139571476070 / 2 ^ 53"])
     (simp_all add: fl_numeral)

lemma p_1_8: "fl (fl (1 / 8) * 100) = 25 / 2"
  by (rule percentage_eval[where e = "- 3" and e' = 3 and a = "1 / 8"])
     (simp_all add: fl_numeral)

lemma Math_round_examples:
  "\<lfloor>percentage 2 3 + 1 / 2\<rfloor> = 67" "\<lfloor>percentage 1 3 + 1 / 2\<rfloor> = 33"
  "\<lfloor>percentage 23 40 + 1 / 2\<rfloor> = 57" "\<lfloor>percentage 1 8 + 1 / 2\<rfloor> = 13"
  "\<lfloor>percentage (Suc 0) 3 + 1 / 2\<rfloor> = 33" "\<lfloor>percentage (Suc 0) 8 + 1 / 2\<rfloor> = 13"
  "\<lfloor>percentage (Suc (Suc 0)) (Suc (Suc (Suc 0))) + 1 / 2\<rfloor> = 67"
  "\<lfloor>percentage (Suc 0) (Suc (Suc (Suc 0))) + 1 / 2\<rfloor> = 33"
  by (simp_all add: percentage_def p_2_3 p_1_3 p_23_40 p_1_8)

lemma plain_labels:
  "''A'' \<notin> set Object_prototype" "''B'' \<notin> set Object_prototype"
  "''C'' \<notin> set Object_prototype"
  by (simp_all add: Object_prototype_def)

lemma three_labels:
  "calculateDistribution [''A'', ''A'', ''B''] = [''A'' \<mapsto> Fin 67, ''B'' \<mapsto> Fin 33]"
  "calculateDistribution [''A'', ''B'', ''C'']
     = [''A'' \<mapsto> Fin 33, ''B'' \<mapsto> Fin 33, ''C'' \<mapsto> Fin 33]"
proof -
  show "calculateDistribution [''A'', ''A'', ''B''] = [''A'' \<mapsto> Fin 67, ''B'' \<mapsto> Fin 33]"
  proof
    fix l
    show "calculateDistribution [''A'', ''A'', ''B''] l = [''A'' \<mapsto> Fin 67, ''B'' \<mapsto> Fin 33] l"
      using distribution_absent[of l "[''A'', ''A'', ''B'']"]
        distribution_present[of "''A''" "[''A'', ''A'', ''B'']"]
        distribution_present[of "''B''" "[''A'', ''A'', ''B'']"]
      by (auto simp: plain_labels Math_round_examples)
  qed
  show "calculateDistribution [''A'', ''B'', ''C'']
     = [''A'' \<mapsto> Fin 33, ''B'' \<mapsto> Fin 33, ''C'' \<mapsto> Fin 33]"
  proof
    fix l
    show "calculateDistribution [''A'', ''B'', ''C''] l
            = [''A'' \<mapsto> Fin 33, ''B'' \<mapsto> Fin 33, ''C'' \<mapsto> Fin 33] l"
      using distribution_absent[of l "[''A'', ''B'', ''C'']"]
        distribution_present[of "''A''" "[''A'', ''B'', ''C'']"]
        distribution_present[of "''B''" "[''A'', ''B'', ''C'']"]
        distribution_present[of "''C''" "[''A'', ''B'', ''C'']"]
      by (auto simp: plain_labels Math_round_examples)
  qed
qed

text \<open>
  Labels that name a property of \<open>Object.prototype\<close>: \<open>__proto__\<close> is never counted,
  and the value of \<open>constructor\<close> is not a number.
\<close>

lemma half_double: "js_num (1 / 2) = Fin (1 / 2)"
  using js_num_dyadic[of 1 1] by simp

lemma inherited_labels:
  "calculateDistribution [''A'', ''__proto__''] = [''A'' \<mapsto> Fin 50]"
  "calculateDistribution [''A'', ''constructor''] = [''A'' \<mapsto> Fin 50, ''constructor'' \<mapsto> NaN]"
  by (rule ext, simp add: calculateDistribution_def count_label_def Object_prototype_def
        half_double js_num_numeral)+

text \<open>
  Claim C7 as stated fails where the exact percentage is half-way between two integers.
  For 23 labels "A" among 40 the exact percentage is 57.5 and its rounding is 58; the
  double nearest to 23 / 40 lies below 0.575, the product with 100 is the double
  57.49999999999999, and \<open>Math.round\<close> gives 57.
\<close>

theorem C7_counterexample:
  "count_list forty_labels ''A'' = 23 \<and> length forty_labels = 40
   \<and> calculateDistribution forty_labels ''A'' = Some (Fin 57)
   \<and> round (100 * real 23 / real 40) = 58"
proof -
  have c: "count_list forty_labels ''A'' = 23" "length forty_labels = 40"
    "''A'' \<in> set forty_labels"
    by (simp_all add: forty_labels_def count_list_replicate)
  have "round (100 * real 23 / real 40) = 58"
    by (simp add: round_def)
  then show ?thesis
    using c distribution_present[OF c(3) plain_labels(1)] by (simp add: Math_round_examples)
qed

text \<open>
  Claim C7, amended. For every sequence of labels (an array has fewer than \<open>2 ^ 32\<close>
  elements), the keys of the mapping that \<open>calculateDistribution\<close> returns are labels
  of the sequence, and every label of the sequence that is not the name of a property
  inherited from \<open>Object.prototype\<close> is a key; its value is
  round(100 * count / total), except that, when 100 * count / total is exactly half-way
  between two integers, it is one of these two integers. The empty sequence gives the
  empty mapping, and ["A", "A", "B"] gives A: 67, B: 33. Each label is rounded on its
  own: the values of ["A", "B", "C"] are 33 each and sum to 99.
\<close>

theorem C7_calculateDistribution:
  assumes "length xs < 2 ^ 32"
  shows "(l \<notin> set xs \<longrightarrow> calculateDistribution xs l = None)
   \<and> (l \<in> set xs \<and> l \<notin> set Object_prototype \<longrightarrow>
        (\<exists>v. calculateDistribution xs l = Some (Fin (of_int v))
           \<and> (if tie (count_list xs l) (length xs)
               then v = round (100 * real (count_list xs l) / real (length xs))
                    \<or> v = round (100 * real (count_list xs l) / real (length xs)) - 1
               else v = round (100 * real (count_list xs l) / real (length xs)))))
   \<and> calculateDistribution [] = Map.empty
   \<and> calculateDistribution [''A'', ''A'', ''B''] = [''A'' \<mapsto> Fin 67, ''B'' \<mapsto> Fin 33]
   \<and> calculateDistribution [''A'', ''B'', ''C'']
       = [''A'' \<mapsto> Fin 33, ''B'' \<mapsto> Fin 33, ''C'' \<mapsto> Fin 33]"
proof -
  have v: "if tie (count_list xs l) (length xs)
               then \<lfloor>percentage (count_list xs l) (length xs) + 1 / 2\<rfloor>
                      = round (100 * real (count_list xs l) / real (length xs))
                    \<or> \<lfloor>percentage (count_list xs l) (length xs) + 1 / 2\<rfloor>
                      = round (100 * real (count_list xs l) / real (length xs)) - 1
               else \<lfloor>percentage (count_list xs l) (length xs) + 1 / 2\<rfloor>
                      = round (100 * real (count_list xs l) / real (length xs))"
    if "l \<in> set xs"
  proof -
    have "0 < count_list xs l" using that count_list_0_iff[of xs l] by (cases "count_list xs l") auto
    moreover have "count_list xs l \<le> length xs" by (rule count_le_length)
    ultimately show ?thesis using assms by (rule Math_round_percentage)
  qed
  have e: "calculateDistribution [] = Map.empty"
    by (simp add: calculateDistribution_def)
  have p: "\<exists>v. calculateDistribution xs l = Some (Fin (of_int v))
           \<and> (if tie (count_list xs l) (length xs)
               then v = round (100 * real (count_list xs l) / real (length xs))
                    \<or> v = round (100 * real (count_list xs l) / real (length xs)) - 1
               else v = round (100 * real (count_list xs l) / real (length xs)))"
    if "l \<in> set xs" "l \<notin> set Object_prototype"
    using distribution_present[OF that] v[OF that(1)] by blast
  show ?thesis
    using p e distribution_absent[of l xs] three_labels by blast
qed

text \<open>
  Two of three labels give 67, the rounding of the exact percentage; one of eight labels
  gives 13, the upper neighbour of the exact percentage 12.5.
\<close>

theorem C7_calculateDistribution_witness:
  "length [''A'', ''A'', ''B''] < 2 ^ 32
   \<and> ''A'' \<in> set [''A'', ''A'', ''B'']
   \<and> ''A'' \<notin> set Object_prototype
   \<and> \<not> tie 2 3
   \<and> calculateDistribution [''A'', ''A'', ''B''] ''A'' = Some (Fin 67)
   \<and> round (100 * real 2 / real 3) = 67
   \<and> tie 1 8
   \<and> calculateDistribution eight_labels ''A'' = Some (Fin 13)
   \<and> round (100 * real 1 / real 8) = 13"
proof -
  have c: "count_list eight_labels ''A'' = 1" "length eight_labels = 8"
    "''A'' \<in> set eight_labels"
    by (simp_all add: eight_labels_def count_list_replicate)
  have r: "round (100 * real 2 / real 3) = 67" "round (100 * real 1 / real 8) = 13"
    by (simp_all add: round_def)
  have t: "\<not> tie 2 3" "tie 1 8" by (simp_all add: tie_def)
  from C7_calculateDistribution[of "[''A'', ''A'', ''B'']" "''A''"]
  have "calculateDistribution [''A'', ''A'', ''B''] ''A'' = Some (Fin 67)"
    using t r by (simp add: plain_labels)
  moreover have "calculateDistribution eight_labels ''A'' = Some (Fin 13)"
    using distribution_present[OF c(3) plain_labels(1)] c by (simp add: Math_round_examples)
  ultimately show ?thesis
    using r t by (simp add: plain_labels)
qed

subsection \<open>The dominant emotion\<close>

lemma js_insort_nonempty: "js_insort cmp a bs \<noteq> []"
  by (cases bs) simp_all

lemma js_sort_nonempty: "xs \<noteq> [] \<Longrightarrow> js_sort cmp xs \<noteq> []"
  by (cases xs) (simp_all add: js_sort_def js_insort_nonempty)

lemma js_sort_Cons: "js_sort cmp (a # xs) = js_insort cmp a (js_sort cmp xs)"
  by (simp add: js_sort_def)

lemma hd_js_insort:
  "hd (js_insort by_score a bs) = (if bs = [] \<or> snd (hd bs) \<le> snd a then a else hd bs)"
  by (cases bs) simp_all

text \<open>The head of the sorted entries is the first entry with the greatest score.\<close>

lemma hd_js_sort_first_max:
  "es \<noteq> [] \<Longrightarrow>
   \<exists>i < length es. hd (js_sort by_score es) = es ! i
      \<and> (\<forall>j < length es. snd (es ! j) \<le> snd (es ! i))
      \<and> (\<forall>j < i. snd (es ! j) < snd (es ! i))"
proof (induction es)
  case Nil
  then show ?case by simp
next
  case (Cons a es)
  show ?case
  proof (cases "es = []")
    case True
    then show ?thesis by (simp add: js_sort_def)
  next
    case False
    from Cons.IH[OF False] obtain i where i: "i < length es"
      and h: "hd (js_sort by_score es) = es ! i"
      and mx: "\<forall>j < length es. snd (es ! j) \<le> snd (es ! i)"
      and before: "\<forall>j < i. snd (es ! j) < snd (es ! i)"
      by blast
    have ne: "js_sort by_score es \<noteq> []" using False by (rule js_sort_nonempty)
    show ?thesis
    proof (cases "snd (es ! i) \<le> snd a")
      case True
      have "hd (js_sort by_score (a # es)) = (a # es) ! 0"
        using True h ne by (simp add: js_sort_Cons hd_js_insort)
      moreover have "\<forall>j < length (a # es). snd ((a # es) ! j) \<le> snd ((a # es) ! 0)"
      proof (intro allI impI)
        fix j assume "j < length (a # es)"
        then show "snd ((a # es) ! j) \<le> snd ((a # es) ! 0)"
          using mx True by (cases j) (auto intro: order_trans)
      qed
      ultimately show ?thesis by (intro exI[of _ 0]) simp
    next
      case later: False
      have "hd (js_sort by_score (a # es)) = (a # es) ! Suc i"
        using later h ne by (simp add: js_sort_Cons hd_js_insort)
      moreover have "\<forall>j < length (a # es). snd ((a # es) ! j) \<le> snd ((a # es) ! Suc i)"
      proof (intro allI impI)
        fix j assume "j < length (a # es)"
        then show "snd ((a # es) ! j) \<le> snd ((a # es) ! Suc i)"
          using mx later by (cases j) auto
      qed
      moreover have "\<forall>j < Suc i. snd ((a # es) ! j) < snd ((a # es) ! Suc i)"
      proof (intro allI impI)
        fix j assume "j < Suc i"
        then show "snd ((a # es) ! j) < snd ((a # es) ! Suc i)"
          using before later by (cases j) auto
      qed
      ultimately show ?thesis using i by (intro exI[of _ "Suc i"]) simp
    qed
  qed
qed

text \<open>
  Claim C8. For every non-empty mapping of expression scores, the dominant emotion is a
  key with the greatest score, and among the keys with that score the first one in the
  iteration order of the mapping.
\<close>

theorem C8_dominantEmotion:
  assumes "es \<noteq> []"
  shows "\<exists>i < length es. dominantEmotion es = Inr (fst (es ! i))
      \<and> (\<forall>j < length es. snd (es ! j) \<le> snd (es ! i))
      \<and> (\<forall>j < i. snd (es ! j) < snd (es ! i))"
proof -
  from hd_js_sort_first_max[OF assms] obtain i where i: "i < length es"
    and h: "hd (js_sort by_score es) = es ! i"
    and mx: "\<forall>j < length es. snd (es ! j) \<le> snd (es ! i)"
    and before: "\<forall>j < i. snd (es ! j) < snd (es ! i)"
    by blast
  have "dominantEmotion es = Inr (fst (hd (js_sort by_score es)))"
    using js_sort_nonempty[OF assms, of by_score]
    by (simp add: dominantEmotion_def split: list.splits)
  then show ?thesis using i h mx before by auto
qed

text \<open>
  The example of the specification gives "sad"; of two keys with the same greatest score
  the one met first, "happy", is returned.
\<close>

theorem C8_dominantEmotion_witness:
  "example_scores \<noteq> [] \<and> dominantEmotion example_scores = Inr ''sad'' \<and>
   dominantEmotion tied_scores = Inr ''happy''"
  using C8_dominantEmotion[of example_scores]
  by (simp add: dominantEmotion_def example_scores_def tied_scores_def js_sort_def)

subsection \<open>The frame handler and frames without signal\<close>

lemma no_signal_guard: "no_signal r \<longleftrightarrow> pose_guard r = Inr None"
  by (auto simp: no_signal_def pose_guard_def split: option.splits list.splits)

lemma recording_state_eq:
  "recording_state =
     init\<lparr>recording := True, canvasContext := True,
          videoElement := Some \<lparr>srcObject = Some [0], paused = False, ended = False\<rparr>,
          liveTracks := [0]\<rparr>"
  by (simp add: recording_state_def init_def setupCanvasDrawing_def setupWebcamStream_def
      handleAnswerButtonClick_def startRecording_call_def startRecording_granted_def)

lemma broken_guard: "pose_guard (frame_results broken_frame) = Inr (Some broken_frame)"
  by (simp add: pose_guard_def frame_results_def broken_frame_def landmark_def)

lemma broken_flags: "analyzePosture b broken_frame = [''Key points hidden'']"
  by (simp add: analyzePosture_def broken_frame_def frame_eval)

text \<open>
  Claim C9 as stated fails: the guard of \<open>handlePoseResults\<close> reads one coordinate only,
  the \<open>x\<close> of the first keypoint. A frame whose second keypoint has no valid coordinate
  passes the guard: while recording, the cache of the last keypoints is updated, the
  frame is classified, its label is appended to the accumulator and the alert timer is
  armed.
\<close>

theorem C9_counterexample:
  "js_isNaN (kp_x (broken_frame ! 1)) \<and>
   lastKeypoints recording_state = None \<and>
   lastKeypoints (snd (handlePoseResults (frame_results broken_frame) recording_state))
     = Some broken_frame \<and>
   currentAnswerPostures (snd (handlePoseResults (frame_results broken_frame) recording_state))
     = [''Key points hidden''] \<and>
   badPostureTimer (snd (handlePoseResults (frame_results broken_frame) recording_state))
     = Some 1"
  by (simp add: handlePoseResults_def broken_guard broken_flags recording_state_eq init_def
      updatePostureUI_def postureWarning_def setTimeout_def Let_def)
     (simp add: broken_frame_def)

text \<open>
  Claim C9, amended. For every pose result in which no subject is detected (no results,
  no first subject or no keypoints of it) or in which the \<open>x\<close> of the first keypoint of
  the first subject is not a valid number, \<open>handlePoseResults\<close> only shows
  "Calibrating..." in the posture indicator: the cache of the last keypoints, the
  accumulators, the timers and the alert flags are as before, nothing is classified and
  nothing is thrown.
\<close>

theorem C9_no_signal:
  "no_signal r \<Longrightarrow>
     handlePoseResults r st = (None, st\<lparr>postureUI := Some (Thinking, ''Calibrating...'')\<rparr>)"
  by (simp add: no_signal_guard handlePoseResults_def updatePostureUI_def)

theorem C9_no_signal_witness:
  "no_signal (frame_results [\<lparr>kp_part = None, kp_name = Some ''nose'', kp_x = NaN, kp_y = Fin 40\<rparr>])
   \<and> lastKeypoints (snd (handlePoseResults
        (frame_results [\<lparr>kp_part = None, kp_name = Some ''nose'', kp_x = NaN, kp_y = Fin 40\<rparr>])
        recording_state)) = None
   \<and> currentAnswerPostures (snd (handlePoseResults
        (frame_results [\<lparr>kp_part = None, kp_name = Some ''nose'', kp_x = NaN, kp_y = Fin 40\<rparr>])
        recording_state)) = []"
  using C9_no_signal[of "frame_results [\<lparr>kp_part = None, kp_name = Some ''nose'', kp_x = NaN, kp_y = Fin 40\<rparr>]"
      recording_state]
  by (simp add: no_signal_def frame_results_def recording_state_eq init_def)

subsection \<open>Resetting the interview\<close>

lemma resetInterview_fields:
  "lastKeypoints (resetInterview st) = lastKeypoints st"
  "baselinePosture (resetInterview st) = None"
  "currentAnswerPostures (resetInterview st) = []"
  "currentAnswerEmotions (resetInterview st) = []"
  "questions (resetInterview st) = []"
  "currentQuestionIndex (resetInterview st) = 0"
  "totalQuestions (resetInterview st) = 0"
  "interviewData (resetInterview st) = []"
  "answersBeingProcessed (resetInterview st) = 0"
  by (simp_all add: resetInterview_def)

lemma handlePoseResults_caches:
  "pose_guard r = Inr (Some kps) \<Longrightarrow> lastKeypoints (snd (handlePoseResults r st)) = Some kps"
  by (simp add: handlePoseResults_def Let_def updatePostureUI_def postureWarning_def
      setTimeout_def clearTimeout_def split: list.splits option.splits)

lemma setBaseline_notifies:
  "notifications (snd (setBaseline st)) =
     notifications st @
       [case lastKeypoints st of
          None \<Rightarrow> (StillCalibrating, Error)
        | Some kps \<Rightarrow>
            if \<not> has_landmark kps ''left_shoulder'' \<or> \<not> has_landmark kps ''right_shoulder''
               \<or> \<not> has_landmark kps ''nose''
            then (ShouldersNotDetected, Error)
            else if js_lt (shoulder_distance kps) (Fin 10) then (CannotDetermineWidth, Error)
            else (BaselineSaved, Success)]"
  by (auto simp: setBaseline_def showNotification_fields shoulder_distance_def Let_def
      findKeypoint_None[symmetric] split: option.splits)

text \<open>
  Claim C10. \<open>resetInterview\<close> clears the baseline, both accumulators, the questions and
  answers and the processing counter, and leaves the cache of the last keypoints as it
  is. Hence after a frame that passed the guard of the handler, a reset and then
  \<open>setBaseline\<close> does not fail with "still calibrating", and it succeeds on a usable
  frame with the ratio of that frame, seen before the reset.
\<close>

theorem C10_reset_keeps_last_frame:
  "lastKeypoints (resetInterview st) = lastKeypoints st
   \<and> baselinePosture (resetInterview st) = None
   \<and> currentAnswerPostures (resetInterview st) = []
   \<and> currentAnswerEmotions (resetInterview st) = []
   \<and> questions (resetInterview st) = []
   \<and> currentQuestionIndex (resetInterview st) = 0
   \<and> interviewData (resetInterview st) = []
   \<and> answersBeingProcessed (resetInterview st) = 0
   \<and> (pose_guard r = Inr (Some kps) \<longrightarrow>
        lastKeypoints (resetInterview (snd (handlePoseResults r st))) = Some kps
        \<and> fst (last (notifications (snd (setBaseline (resetInterview (snd (handlePoseResults r st)))))))
            \<noteq> StillCalibrating
        \<and> (\<not> frame_unusable kps \<longrightarrow>
             fst (setBaseline (resetInterview (snd (handlePoseResults r st))))
             \<and> baselinePosture (snd (setBaseline (resetInterview (snd (handlePoseResults r st)))))
                 = Some \<lparr>ratio = frame_ratio kps\<rparr>))"
proof -
  have "pose_guard r = Inr (Some kps) \<longrightarrow>
        lastKeypoints (resetInterview (snd (handlePoseResults r st))) = Some kps
        \<and> fst (last (notifications (snd (setBaseline (resetInterview (snd (handlePoseResults r st)))))))
            \<noteq> StillCalibrating
        \<and> (\<not> frame_unusable kps \<longrightarrow>
             fst (setBaseline (resetInterview (snd (handlePoseResults r st))))
             \<and> baselinePosture (snd (setBaseline (resetInterview (snd (handlePoseResults r st)))))
                 = Some \<lparr>ratio = frame_ratio kps\<rparr>)"
  proof
    assume g: "pose_guard r = Inr (Some kps)"
    let ?s = "resetInterview (snd (handlePoseResults r st))"
    have lk: "lastKeypoints ?s = Some kps"
      using handlePoseResults_caches[OF g] by (simp add: resetInterview_fields)
    have n: "fst (last (notifications (snd (setBaseline ?s)))) \<noteq> StillCalibrating"
      by (simp add: setBaseline_notifies lk)
    have "\<not> frame_unusable kps \<longrightarrow> fst (setBaseline ?s)
             \<and> baselinePosture (snd (setBaseline ?s)) = Some \<lparr>ratio = frame_ratio kps\<rparr>"
      using setBaseline_succeeds[of ?s] lk by (simp add: baseline_failure_def)
    with lk n show "lastKeypoints ?s = Some kps
        \<and> fst (last (notifications (snd (setBaseline ?s)))) \<noteq> StillCalibrating
        \<and> (\<not> frame_unusable kps \<longrightarrow>
             fst (setBaseline ?s)
             \<and> baselinePosture (snd (setBaseline ?s)) = Some \<lparr>ratio = frame_ratio kps\<rparr>)"
      by blast
  qed
  then show ?thesis by (simp add: resetInterview_fields)
qed

lemma wide_guard: "pose_guard (frame_results wide_frame) = Inr (Some wide_frame)"
  by (simp add: pose_guard_def frame_results_def wide_frame_def landmark_def)

theorem C10_reset_keeps_last_frame_witness:
  "pose_guard (frame_results wide_frame) = Inr (Some wide_frame)
   \<and> fst (setBaseline (resetInterview (snd (handlePoseResults (frame_results wide_frame) init))))
   \<and> baselinePosture (snd (setBaseline
         (resetInterview (snd (handlePoseResults (frame_results wide_frame) init)))))
        = Some \<lparr>ratio = Fin (3602879701896397 / 2 ^ 53)\<rparr>"
  using C10_reset_keeps_last_frame[of init "frame_results wide_frame" wide_frame]
  by (simp add: wide_guard wide_eval)

subsection \<open>Frames while not recording\<close>

lemma handlePoseResults_classifies:
  assumes "posture_observation st r = Some flags"
  shows "\<exists>kps. pose_guard r = Inr (Some kps) \<and> flags = analyzePosture (baselinePosture st) kps \<and>
     handlePoseResults r st =
       (None,
        if recording st
        then postureWarning flags
               (st\<lparr>lastKeypoints := Some kps, postureUI := Some (posture_display flags)\<rparr>)
        else st\<lparr>lastKeypoints := Some kps, postureUI := Some (posture_display flags)\<rparr>)"
proof -
  from assms obtain kps where g: "pose_guard r = Inr (Some kps)"
    and c: "canvasContext st" "videoElement st \<noteq> None"
    and f: "flags = analyzePosture (baselinePosture st) kps"
    by (auto simp: posture_observation_def split: sum.splits option.splits if_splits)
  have "handlePoseResults r st =
       (None,
        if recording st
        then postureWarning flags
               (st\<lparr>lastKeypoints := Some kps, postureUI := Some (posture_display flags)\<rparr>)
        else st\<lparr>lastKeypoints := Some kps, postureUI := Some (posture_display flags)\<rparr>)"
    using g c unfolding f
    by (cases "analyzePosture (baselinePosture st) kps")
       (simp_all add: handlePoseResults_def updatePostureUI_def posture_display_def Let_def)
  with g f show ?thesis by blast
qed

lemma handlePoseResults_unclassified:
  assumes "posture_observation st r = None"
  shows "alert_state (snd (handlePoseResults r st)) = alert_state st"
proof (cases "pose_guard r")
  case (Inl e)
  then show ?thesis by (simp add: handlePoseResults_def)
next
  case (Inr g)
  show ?thesis
  proof (cases g)
    case None
    then show ?thesis using Inr
      by (simp add: handlePoseResults_def updatePostureUI_def alert_state_def)
  next
    case (Some kps)
    then have "\<not> canvasContext st \<or> videoElement st = None"
      using Inr assms by (auto simp: posture_observation_def split: if_splits)
    then show ?thesis using Inr Some
      by (auto simp: handlePoseResults_def alert_state_def Let_def)
  qed
qed

lemma handlePoseResults_idle:
  assumes "\<not> recording st"
  shows "alert_state (snd (handlePoseResults r st)) = alert_state st"
proof (cases "posture_observation st r")
  case None
  then show ?thesis by (rule handlePoseResults_unclassified)
next
  case (Some flags)
  from handlePoseResults_classifies[OF Some] assms show ?thesis
    by (auto simp: alert_state_def)
qed

lemma handlePoseResults_display:
  assumes "posture_observation st r = Some flags" and "\<not> recording st"
  shows "postureUI (snd (handlePoseResults r st)) = Some (posture_display flags)"
  using handlePoseResults_classifies[OF assms(1)] assms(2) by auto

lemma runEmotionDetection_observes:
  assumes "emotion_observation st d = Some e"
  shows "runEmotionDetection d st =
       (None,
        if recording st
        then emotionWarning e
               (st\<lparr>lastDetectedEmotion := e, emotionUI := Some (emotion_display e)\<rparr>)
        else st\<lparr>lastDetectedEmotion := e, emotionUI := Some (emotion_display e)\<rparr>)"
proof -
  from assms obtain v x xs where v: "videoElement st = Some v" "\<not> paused v" "\<not> ended v"
    and d: "d = x # xs" and e: "dominantEmotion x = Inr e"
    by (auto simp: emotion_observation_def split: option.splits if_splits list.splits sum.splits)
  then show ?thesis
    by (simp add: runEmotionDetection_def emotion_display_def Let_def)
qed

lemma runEmotionDetection_unobserved:
  assumes "emotion_observation st d = None"
  shows "alert_state (snd (runEmotionDetection d st)) = alert_state st"
proof (cases "videoElement st")
  case None
  then show ?thesis by (simp add: runEmotionDetection_def)
next
  case (Some v)
  show ?thesis
  proof (cases "paused v \<or> ended v")
    case True
    then show ?thesis using Some by (auto simp: runEmotionDetection_def)
  next
    case False
    show ?thesis
    proof (cases d)
      case Nil
      then show ?thesis using Some False
        by (simp add: runEmotionDetection_def alert_state_def)
    next
      case (Cons x xs)
      then obtain err where "dominantEmotion x = Inl err"
        using assms Some False
        by (auto simp: emotion_observation_def split: sum.splits)
      then show ?thesis using Some False Cons
        by (simp add: runEmotionDetection_def)
    qed
  qed
qed

lemma runEmotionDetection_idle:
  assumes "\<not> recording st"
  shows "alert_state (snd (runEmotionDetection d st)) = alert_state st"
proof (cases "emotion_observation st d")
  case None
  then show ?thesis by (rule runEmotionDetection_unobserved)
next
  case (Some e)
  from runEmotionDetection_observes[OF Some] assms show ?thesis
    by (simp add: alert_state_def)
qed

lemma runEmotionDetection_display:
  assumes "emotion_observation st d = Some e" and "\<not> recording st"
  shows "emotionUI (snd (runEmotionDetection d st)) = Some (emotion_display e)"
  using runEmotionDetection_observes[OF assms(1)] assms(2) by simp

text \<open>
  Claim C4, amended. While the recording flag is false, the two frame handlers
  (\<open>handlePoseResults\<close> and \<open>runEmotionDetection\<close>) leave the accumulators, the timer
  handles, the alert flags, the pending timers and the notifications as they are, for
  every frame; a frame that is classified is still shown in the indicator of the page.
\<close>

theorem C4_idle_frames:
  assumes "\<not> recording st"
  shows "alert_state (snd (handlePoseResults r st)) = alert_state st
     \<and> (\<forall>flags. posture_observation st r = Some flags \<longrightarrow>
          postureUI (snd (handlePoseResults r st)) = Some (posture_display flags))
     \<and> alert_state (snd (runEmotionDetection d st)) = alert_state st
     \<and> (\<forall>e. emotion_observation st d = Some e \<longrightarrow>
          emotionUI (snd (runEmotionDetection d st)) = Some (emotion_display e))"
  using assms handlePoseResults_idle handlePoseResults_display
    runEmotionDetection_idle runEmotionDetection_display by blast

lemma nose_only_guard: "pose_guard (frame_results nose_only) = Inr (Some nose_only)"
  by (simp add: pose_guard_def frame_results_def nose_only_def landmark_def)

lemma nose_only_flags: "analyzePosture b nose_only = [''Key points hidden'']"
  by (simp add: analyzePosture_def nose_only_def frame_eval)

lemma nose_only_observed:
  "posture_observation recording_state (frame_results nose_only) = Some [''Key points hidden'']"
  by (simp add: posture_observation_def nose_only_guard nose_only_flags recording_state_eq)

lemma hidden_state_eq:
  "hidden_state =
     init\<lparr>recording := True, canvasContext := True,
          videoElement := Some \<lparr>srcObject = Some [0], paused = False, ended = False\<rparr>,
          liveTracks := [0], lastKeypoints := Some nose_only,
          postureUI := Some (Warning, ''Key points hidden''),
          timers := [(1, PostureAlert)], nextHandle := 2,
          badPostureTimer := Some 1,
          currentAnswerPostures := [''Key points hidden'']\<rparr>"
proof -
  from handlePoseResults_classifies[OF nose_only_observed]
  have "hidden_state = postureWarning [''Key points hidden'']
               (recording_state\<lparr>lastKeypoints := Some nose_only,
                   postureUI := Some (posture_display [''Key points hidden''])\<rparr>)"
    by (auto simp: hidden_state_def nose_only_guard recording_state_eq)
  then show ?thesis
    by (simp add: recording_state_eq init_def postureWarning_def setTimeout_def
        posture_display_def numeral_2_eq_2)
qed

lemma stopped_state_eq:
  "stopped_state = hidden_state\<lparr>answersBeingProcessed := 1, recording := False\<rparr>"
  by (simp add: stopped_state_def hidden_state_eq init_def
      handleAnswerButtonClick_def stopRecording_def displayCurrentQuestion_def)

text \<open>
  Claim C4 as stated fails. The callback of the alert timer does not read the recording
  flag: a timer armed while recording fires after the recording has stopped, shows the
  coaching tip and sets the alert flag. And the accumulators are cleared by
  \<open>startRecording\<close> before the recording flag is set.
\<close>

theorem C4_counterexample:
  "\<not> recording stopped_state \<and> \<not> isAlertingPosture stopped_state
   \<and> posture_tips stopped_state = 0 \<and> badPostureTimer stopped_state = Some 1
   \<and> \<not> recording (step (TimerFires 1) stopped_state)
   \<and> isAlertingPosture (step (TimerFires 1) stopped_state)
   \<and> posture_tips (step (TimerFires 1) stopped_state) = 1
   \<and> badPostureTimer (step (TimerFires 1) stopped_state) = None
   \<and> currentAnswerPostures stopped_state = [''Key points hidden'']
   \<and> \<not> recording (step AnswerButtonClick stopped_state)
   \<and> currentAnswerPostures (step AnswerButtonClick stopped_state) = []"
  by (simp add: stopped_state_eq hidden_state_eq init_def posture_tips_def
      timerFires_def clearTimeout_def postureAlertCallback_def nose_only_flags
      showNotification_def setTimeout_def handleAnswerButtonClick_def startRecording_call_def)

theorem C4_idle_frames_witness:
  "\<not> recording stopped_state
   \<and> alert_state (snd (handlePoseResults (frame_results wide_frame) stopped_state))
       = alert_state stopped_state
   \<and> alert_state (snd (runEmotionDetection [example_scores] stopped_state))
       = alert_state stopped_state"
  using C4_idle_frames[of stopped_state "frame_results wide_frame" "[example_scores]"]
  by (simp add: stopped_state_eq)

subsection \<open>Stopping the detection\<close>

lemma stopWebcam_fields:
  "timers (stopWebcam st) = timers st"
  "animationFrames (stopWebcam st) = animationFrames st"
  "poseDetectionFrameId (stopWebcam st) = poseDetectionFrameId st"
  "detectionInterval (stopWebcam st) = detectionInterval st"
  "badPostureTimer (stopWebcam st) = badPostureTimer st"
  "badEmotionTimer (stopWebcam st) = badEmotionTimer st"
  "isAlertingPosture (stopWebcam st) = isAlertingPosture st"
  "isAlertingEmotion (stopWebcam st) = isAlertingEmotion st"
  "notifications (stopWebcam st) = notifications st"
  by (simp_all add: stopWebcam_def split: option.splits)

lemma stopWebcam_releases:
  "videoElement st = Some v \<Longrightarrow> srcObject v = Some tracks \<Longrightarrow>
     videoElement (stopWebcam st) = Some (v\<lparr>srcObject := None\<rparr>)
     \<and> set tracks \<inter> set (liveTracks (stopWebcam st)) = {}"
  by (auto simp: stopWebcam_def)

lemma stop_frames:
  "poseDetectionFrameId st = Some h \<Longrightarrow> h \<noteq> 0 \<Longrightarrow>
     poseDetectionFrameId (stopAllDetections st) = None
     \<and> h \<notin> set (animationFrames (stopAllDetections st))"
  by (simp add: stopAllDetections_def Let_def stopWebcam_fields cancelAnimationFrame_def
      clearInterval_def clearTimeout_def split: option.splits)

lemma stop_interval:
  "detectionInterval st = Some h \<Longrightarrow> h \<noteq> 0 \<Longrightarrow>
     detectionInterval (stopAllDetections st) = None
     \<and> h \<notin> fst ` set (timers (stopAllDetections st))"
  by (auto simp: stopAllDetections_def Let_def stopWebcam_fields cancelAnimationFrame_def
      clearInterval_def clearTimeout_def split: option.splits)

lemma stop_camera:
  "videoElement st = Some v \<Longrightarrow> srcObject v = Some tracks \<Longrightarrow>
     videoElement (stopAllDetections st) = Some (v\<lparr>srcObject := None\<rparr>)
     \<and> set tracks \<inter> set (liveTracks (stopAllDetections st)) = {}"
  by (auto simp: stopAllDetections_def Let_def cancelAnimationFrame_def
      clearInterval_def clearTimeout_def intro!: stopWebcam_releases split: option.splits)

lemma stop_timers:
  "timers (stopAllDetections st) =
     filter (\<lambda>t. \<not> (handle_truthy (detectionInterval st) \<and> detectionInterval st = Some (fst t)))
       (timers st)"
  by (cases "detectionInterval st")
     (auto simp: stopAllDetections_def Let_def stopWebcam_fields cancelAnimationFrame_def
      clearInterval_def clearTimeout_def split: option.splits intro: filter_cong)

lemma stop_alerts:
  "badPostureTimer (stopAllDetections st) = badPostureTimer st
   \<and> badEmotionTimer (stopAllDetections st) = badEmotionTimer st
   \<and> isAlertingPosture (stopAllDetections st) = isAlertingPosture st
   \<and> isAlertingEmotion (stopAllDetections st) = isAlertingEmotion st
   \<and> notifications (stopAllDetections st) = notifications st"
  by (simp add: stopAllDetections_def Let_def stopWebcam_fields cancelAnimationFrame_def
      clearInterval_def clearTimeout_def split: option.splits)

text \<open>
  Claim C5, amended. \<open>stopAllDetections\<close> cancels the animation frame whose handle is
  stored, clears the interval of the emotion loop whose handle is stored, sets both
  handles to \<open>null\<close> and releases the camera (every track of the stream is stopped and
  the stream is detached). Every other pending timer stays pending, and the handles and
  flags of the two alert timers and the notifications are as before.
\<close>

theorem C5_stop:
  "(\<forall>h. poseDetectionFrameId st = Some h \<and> h \<noteq> 0 \<longrightarrow>
       poseDetectionFrameId (stopAllDetections st) = None
       \<and> h \<notin> set (animationFrames (stopAllDetections st)))
   \<and> (\<forall>h. detectionInterval st = Some h \<and> h \<noteq> 0 \<longrightarrow>
       detectionInterval (stopAllDetections st) = None
       \<and> h \<notin> fst ` set (timers (stopAllDetections st)))
   \<and> (\<forall>v tracks. videoElement st = Some v \<and> srcObject v = Some tracks \<longrightarrow>
       videoElement (stopAllDetections st) = Some (v\<lparr>srcObject := None\<rparr>)
       \<and> set tracks \<inter> set (liveTracks (stopAllDetections st)) = {})
   \<and> timers (stopAllDetections st) =
       filter (\<lambda>t. \<not> (handle_truthy (detectionInterval st) \<and> detectionInterval st = Some (fst t)))
         (timers st)
   \<and> badPostureTimer (stopAllDetections st) = badPostureTimer st
   \<and> badEmotionTimer (stopAllDetections st) = badEmotionTimer st
   \<and> isAlertingPosture (stopAllDetections st) = isAlertingPosture st
   \<and> isAlertingEmotion (stopAllDetections st) = isAlertingEmotion st
   \<and> notifications (stopAllDetections st) = notifications st"
  using stop_frames[of st] stop_interval[of st] stop_camera[of st] stop_timers[of st]
    stop_alerts[of st]
  by blast

lemma running_state_eq:
  "running_state =
     init\<lparr>recording := True, canvasContext := True,
          videoElement := Some \<lparr>srcObject = Some [0], paused = False, ended = False\<rparr>,
          liveTracks := [0], lastKeypoints := Some nose_only,
          postureUI := Some (Warning, ''Key points hidden''),
          timers := [(1, EmotionLoop), (2, PostureAlert)], nextHandle := 3,
          badPostureTimer := Some 2,
          currentAnswerPostures := [''Key points hidden''],
          poseDetectionFrameId := Some 1, animationFrames := [1], detectionInterval := Some 1\<rparr>"
proof -
  let ?s = "init\<lparr>recording := True, canvasContext := True,
          videoElement := Some \<lparr>srcObject = Some [0], paused = False, ended = False\<rparr>,
          liveTracks := [0], timers := [(1, EmotionLoop)], nextHandle := 2,
          poseDetectionFrameId := Some 1, animationFrames := [1], detectionInterval := Some 1\<rparr>"
  have s: "run [AnswerButtonClick, MicrophoneGranted] detecting_state = ?s"
    by (simp add: detecting_state_def init_def setupCanvasDrawing_def setupWebcamStream_def
        handleAnswerButtonClick_def startRecording_call_def startRecording_granted_def)
  have "posture_observation ?s (frame_results nose_only) = Some [''Key points hidden'']"
    by (simp add: posture_observation_def nose_only_guard nose_only_flags)
  from handlePoseResults_classifies[OF this]
  have "running_state = postureWarning [''Key points hidden'']
               (?s\<lparr>lastKeypoints := Some nose_only,
                   postureUI := Some (posture_display [''Key points hidden''])\<rparr>)"
    using s by (auto simp: running_state_def nose_only_guard)
  then show ?thesis
    by (simp add: init_def postureWarning_def setTimeout_def posture_display_def
        eval_nat_numeral)
qed

lemma stop_running:
  "stopAllDetections running_state =
     running_state\<lparr>poseDetectionFrameId := None, animationFrames := [],
        detectionInterval := None, timers := [(2, PostureAlert)], liveTracks := [],
        videoElement := Some \<lparr>srcObject = None, paused = False, ended = False\<rparr>\<rparr>"
  by (simp add: running_state_eq init_def stopAllDetections_def cancelAnimationFrame_def
      clearInterval_def clearTimeout_def stopWebcam_def Let_def)

text \<open>
  Claim C5 as stated fails: \<open>stopAllDetections\<close> does not cancel the alert timers. A
  posture alert timer that is pending when detection is stopped is still pending
  afterwards, and when it fires the coaching tip is shown.
\<close>

theorem C5_counterexample:
  "timers (stopAllDetections running_state) = [(2, PostureAlert)]
   \<and> animationFrames (stopAllDetections running_state) = []
   \<and> posture_tips (stopAllDetections running_state) = 0
   \<and> posture_tips (step (TimerFires 2) (stopAllDetections running_state)) = 1
   \<and> notifications (step (TimerFires 2) (stopAllDetections running_state))
       = [(PostureTip, Error)]"
  unfolding stop_running
  by (simp add: running_state_eq init_def posture_tips_def
      timerFires_def clearTimeout_def postureAlertCallback_def nose_only_flags
      showNotification_def setTimeout_def)

theorem C5_stop_witness:
  "poseDetectionFrameId running_state = Some 1
   \<and> detectionInterval running_state = Some 1
   \<and> poseDetectionFrameId (stopAllDetections running_state) = None
   \<and> 1 \<notin> set (animationFrames (stopAllDetections running_state))
   \<and> detectionInterval (stopAllDetections running_state) = None
   \<and> 1 \<notin> fst ` set (timers (stopAllDetections running_state))
   \<and> liveTracks (stopAllDetections running_state) = []
   \<and> badPostureTimer (stopAllDetections running_state) = Some 2"
  using C5_stop[of running_state]
  unfolding stop_running
  by (simp add: running_state_eq init_def)

subsection \<open>The alerting machines\<close>

lemma shrinks_refl: "shrinks cb st st"
  by (simp add: shrinks_def)

lemma shrinks_trans: "shrinks cb a b \<Longrightarrow> shrinks cb b c \<Longrightarrow> shrinks cb a c"
  by (auto simp: shrinks_def)

lemma shrinks_timers: "timers st' = timers st \<Longrightarrow> shrinks cb st st'"
  by (simp add: shrinks_def pending_def)

lemma shrinks_filter: "timers st' = filter P (timers st) \<Longrightarrow> shrinks cb st st'"
proof -
  assume "timers st' = filter P (timers st)"
  then have "pending cb st' = filter P (pending cb st)"
    by (auto simp: pending_def intro: filter_cong)
  then show ?thesis by (simp add: shrinks_def)
qed

lemma shrinks_other:
  "timers st' = timers st @ [(h, cb')] \<Longrightarrow> cb' \<noteq> cb \<Longrightarrow> shrinks cb st st'"
  by (simp add: shrinks_def pending_def)

lemma benign_refl: "benign st st"
  by (simp add: benign_def posture_calm_def emotion_calm_def shrinks_refl)

lemma benign_trans:
  assumes "benign a b" and "benign b c"
  shows "benign a c"
proof -
  have "shrinks PostureAlert a c"
    using assms shrinks_trans[of PostureAlert a b c] by (simp add: benign_def posture_calm_def)
  moreover have "shrinks EmotionAlert a c"
    using assms shrinks_trans[of EmotionAlert a b c] by (simp add: benign_def emotion_calm_def)
  ultimately show ?thesis
    using assms by (simp add: benign_def posture_calm_def emotion_calm_def)
qed

lemma benign_same: "alert_state st' = alert_state st \<Longrightarrow> benign st st'"
  by (simp add: alert_state_def benign_def posture_calm_def emotion_calm_def posture_tips_def
      emotion_tips_def shrinks_timers)

lemma timer_inv_shrinks:
  "shrinks cb st st' \<Longrightarrow> timer_inv cb t a st \<Longrightarrow> timer_inv cb t a st'"
  by (auto simp: shrinks_def timer_inv_def)

lemma posture_calm_inv:
  "posture_calm st st' \<Longrightarrow>
     timer_inv PostureAlert (badPostureTimer st) (isAlertingPosture st) st \<Longrightarrow>
     timer_inv PostureAlert (badPostureTimer st') (isAlertingPosture st') st'"
  by (auto simp: posture_calm_def intro: timer_inv_shrinks)

lemma emotion_calm_inv:
  "emotion_calm st st' \<Longrightarrow>
     timer_inv EmotionAlert (badEmotionTimer st) (isAlertingEmotion st) st \<Longrightarrow>
     timer_inv EmotionAlert (badEmotionTimer st') (isAlertingEmotion st') st'"
  by (auto simp: emotion_calm_def intro: timer_inv_shrinks)

lemma posture_calm_budget: "posture_calm st st' \<Longrightarrow> posture_budget st' = posture_budget st"
  by (simp add: posture_calm_def posture_budget_def)

lemma emotion_calm_budget: "emotion_calm st st' \<Longrightarrow> emotion_budget st' = emotion_budget st"
  by (simp add: emotion_calm_def emotion_budget_def)

lemma benign_inv: "benign st st' \<Longrightarrow> alert_inv st \<Longrightarrow> alert_inv st'"
  by (auto simp: benign_def alert_inv_def intro: posture_calm_inv emotion_calm_inv)

lemma benign_budget:
  "benign st st' \<Longrightarrow> posture_budget st' = posture_budget st \<and> emotion_budget st' = emotion_budget st"
  by (simp add: benign_def posture_calm_def emotion_calm_def posture_calm_budget
      emotion_calm_budget)

lemma benign_showNotification:
  "m \<noteq> PostureTip \<Longrightarrow> m \<noteq> EmotionTip \<Longrightarrow> benign st (showNotification m s st)"
  by (simp add: benign_def posture_calm_def emotion_calm_def showNotification_def setTimeout_def
      posture_tips_def emotion_tips_def
      shrinks_other)

lemma benign_clearTimeout: "benign st (clearTimeout h st)"
  by (simp add: benign_def posture_calm_def emotion_calm_def clearTimeout_def posture_tips_def
      emotion_tips_def shrinks_filter)

lemma stop_nextHandle: "nextHandle (stopAllDetections st) = nextHandle st"
  by (simp add: stopAllDetections_def stopWebcam_def cancelAnimationFrame_def clearInterval_def
        clearTimeout_def Let_def split: option.splits)

lemma benign_stopAllDetections: "benign st (stopAllDetections st)"
proof -
  have "shrinks cb st (stopAllDetections st)" for cb
    using stop_timers[of st] by (rule shrinks_filter)
  then show ?thesis
    using stop_alerts[of st]
    by (simp add: benign_def posture_calm_def emotion_calm_def posture_tips_def emotion_tips_def
        stop_nextHandle)
qed

lemma benign_update:
  "alert_state st' = alert_state st \<Longrightarrow> benign st' st'' \<Longrightarrow> benign st st''"
  using benign_same benign_trans by blast

lemma benign_endInterview: "benign st (endInterview st)"
proof -
  let ?s = "if recording (st\<lparr>currentQuestionIndex := currentQuestionIndex st + 1\<rparr>)
            then st\<lparr>currentQuestionIndex := currentQuestionIndex st + 1,
                    answersBeingProcessed := answersBeingProcessed st + 1, recording := False\<rparr>
            else st\<lparr>currentQuestionIndex := currentQuestionIndex st + 1\<rparr>"
  have "alert_state ?s = alert_state st" by (simp add: alert_state_def)
  moreover have "endInterview st = stopAllDetections ?s"
    by (simp add: endInterview_def Let_def)
  ultimately show ?thesis
    using benign_update[OF _ benign_stopAllDetections] by metis
qed

lemma benign_displayCurrentQuestion: "benign st (displayCurrentQuestion st)"
proof (cases "currentQuestionIndex st < length (questions st)")
  case True
  show ?thesis
  proof (cases "currentQuestionIndex st = 0")
    case z: True
    have "benign st (showNotification InterviewStarted Success st)"
      by (rule benign_showNotification) simp_all
    moreover have "alert_state (displayCurrentQuestion st)
        = alert_state (showNotification InterviewStarted Success st)"
      using True z by (simp add: displayCurrentQuestion_def alert_state_def Let_def)
    ultimately show ?thesis using benign_same benign_trans by blast
  next
    case False
    then have "alert_state (displayCurrentQuestion st) = alert_state st"
      using True by (simp add: displayCurrentQuestion_def alert_state_def Let_def)
    then show ?thesis by (rule benign_same)
  qed
next
  case False
  then show ?thesis
    by (simp add: displayCurrentQuestion_def benign_endInterview benign_refl)
qed

lemma benign_stopRecording: "benign st (stopRecording st)"
proof -
  let ?s = "st\<lparr>answersBeingProcessed := answersBeingProcessed st + 1, recording := False\<rparr>"
  have "alert_state ?s = alert_state st" by (simp add: alert_state_def)
  then show ?thesis
    unfolding stopRecording_def
    by (rule benign_update) (rule benign_displayCurrentQuestion)
qed

lemma startRecording_call_tips:
  "benign st (startRecording_call st)"
  by (simp add: benign_def posture_calm_def emotion_calm_def startRecording_call_def
      posture_tips_def emotion_tips_def
      shrinks_timers)

lemma benign_handleAnswerButtonClick: "benign st (handleAnswerButtonClick st)"
  by (simp add: handleAnswerButtonClick_def benign_stopRecording startRecording_call_tips)

lemma benign_setBaseline: "benign st (snd (setBaseline st))"
proof -
  have n: "benign s (showNotification m x s)" if "m \<noteq> PostureTip" "m \<noteq> EmotionTip" for s m x
    using that by (rule benign_showNotification)
  have b: "benign st (showNotification BaselineSaved Success (st\<lparr>baselinePosture := Some bl\<rparr>))" for bl
  proof -
    have "alert_state (st\<lparr>baselinePosture := Some bl\<rparr>) = alert_state st"
      by (simp add: alert_state_def)
    then show ?thesis by (rule benign_update) (rule n, simp_all)
  qed
  show ?thesis
    by (simp add: setBaseline_def Let_def n b split: option.splits)
qed

lemma benign_setBaselineClick: "benign st (setBaselineClick st)"
proof (cases "setBaseline st")
  case (Pair ok st1)
  then have b: "benign st st1" using benign_setBaseline[of st] by simp
  show ?thesis
    using Pair b benign_trans[OF b benign_displayCurrentQuestion[of st1]]
    by (simp add: setBaselineClick_def)
qed

lemma benign_misc:
  "benign st (startRecording_granted st)"
  "benign st (resetInterview st)"
  "benign st (setupCanvasDrawing st)"
  "benign st (setupWebcamStream tracks st)"
  by (simp_all add: benign_def posture_calm_def emotion_calm_def startRecording_granted_def
      resetInterview_def
      setupCanvasDrawing_def setupWebcamStream_def posture_tips_def emotion_tips_def
      shrinks_timers)

lemma timer_inv_idle:
  "timer_inv cb t a st \<Longrightarrow> \<not> handle_truthy t \<or> a \<Longrightarrow> pending cb st = []"
proof (cases "pending cb st")
  case Nil
  then show ?thesis by simp
next
  case (Cons p ps)
  assume "timer_inv cb t a st" and "\<not> handle_truthy t \<or> a"
  then show ?thesis using Cons by (auto simp: timer_inv_def)
qed

lemma timer_inv_empty: "pending cb st = [] \<Longrightarrow> timer_inv cb t a st"
  by (simp add: timer_inv_def)

lemma timer_inv_single:
  "pending cb st = [(h, cb)] \<Longrightarrow> h \<noteq> 0 \<Longrightarrow> timer_inv cb (Some h) False st"
  by (simp add: timer_inv_def)

lemma timer_inv_fired:
  assumes "timer_inv cb t a st" and "p \<in> set (timers st)" and "snd p = cb"
  shows "pending cb st = [p] \<and> \<not> a \<and> t = Some (fst p)"
proof -
  have m: "p \<in> set (pending cb st)" using assms(2,3) by (simp add: pending_def)
  then obtain q qs where q: "pending cb st = q # qs" by (cases "pending cb st") auto
  with assms(1) have "qs = []" by (simp add: timer_inv_def)
  with q m have "pending cb st = [p]" by simp
  moreover have "\<not> a \<and> t = Some (fst p)" using assms(1) m by (auto simp: timer_inv_def)
  ultimately show ?thesis by simp
qed

lemma pending_clearTimeout:
  "pending cb (clearTimeout h st) = filter (\<lambda>t. fst t \<noteq> h) (pending cb st)"
  by (auto simp: pending_def clearTimeout_def intro: filter_cong)

text \<open>The three cases of the block that runs while recording.\<close>

lemma postureWarning_arm:
  assumes "flags = f # fs" and "\<not> handle_truthy (badPostureTimer s)" and "\<not> isAlertingPosture s"
  shows "postureWarning flags s =
     s\<lparr>timers := timers s @ [(nextHandle s, PostureAlert)], nextHandle := nextHandle s + 1,
       badPostureTimer := Some (nextHandle s),
       currentAnswerPostures := currentAnswerPostures s @ [f]\<rparr>"
  using assms by (simp add: postureWarning_def setTimeout_def Let_def)

lemma postureWarning_wait:
  assumes "flags = f # fs" and "handle_truthy (badPostureTimer s) \<or> isAlertingPosture s"
  shows "postureWarning flags s = s\<lparr>currentAnswerPostures := currentAnswerPostures s @ [f]\<rparr>"
  using assms by (auto simp: postureWarning_def Let_def)

lemma postureWarning_good:
  "postureWarning [] s =
     (case badPostureTimer s of
        Some h \<Rightarrow> if h \<noteq> 0 then (clearTimeout h s)\<lparr>badPostureTimer := None\<rparr> else s
      | None \<Rightarrow> s)
     \<lparr>isAlertingPosture := False,
      currentAnswerPostures := currentAnswerPostures s @ [''Good Posture'']\<rparr>"
  by (simp add: postureWarning_def Let_def clearTimeout_def split: option.splits)

lemma postureWarning_emotion: "emotion_calm s (postureWarning flags s)"
proof (cases flags)
  case Nil
  then show ?thesis
    by (simp add: postureWarning_good emotion_calm_def emotion_tips_def clearTimeout_def
        shrinks_filter shrinks_timers split: option.splits)
next
  case (Cons f fs)
  show ?thesis
  proof (cases "handle_truthy (badPostureTimer s) \<or> isAlertingPosture s")
    case True
    then show ?thesis
      by (simp add: postureWarning_wait[OF Cons] emotion_calm_def emotion_tips_def shrinks_timers)
  next
    case False
    then show ?thesis
      by (simp add: postureWarning_arm[OF Cons] emotion_calm_def emotion_tips_def shrinks_other)
  qed
qed

lemma postureWarning_nextHandle: "nextHandle s \<le> nextHandle (postureWarning flags s)"
proof (cases flags)
  case Nil
  then show ?thesis
    by (simp add: postureWarning_good clearTimeout_def split: option.splits)
next
  case (Cons f fs)
  show ?thesis
  proof (cases "handle_truthy (badPostureTimer s) \<or> isAlertingPosture s")
    case True
    then show ?thesis by (simp add: postureWarning_wait[OF Cons])
  next
    case False
    then show ?thesis by (simp add: postureWarning_arm[OF Cons])
  qed
qed

lemma postureWarning_adverse:
  assumes inv: "timer_inv PostureAlert (badPostureTimer s) (isAlertingPosture s) s"
    and h: "0 < nextHandle s" and bad: "flags \<noteq> []"
  shows "timer_inv PostureAlert (badPostureTimer (postureWarning flags s))
           (isAlertingPosture (postureWarning flags s)) (postureWarning flags s)
         \<and> posture_budget (postureWarning flags s) = posture_budget s"
proof -
  from bad obtain f fs where fl: "flags = f # fs" by (cases flags) auto
  show ?thesis
  proof (cases "handle_truthy (badPostureTimer s) \<or> isAlertingPosture s")
    case True
    have "posture_calm s (postureWarning flags s)"
      by (simp add: postureWarning_wait[OF fl True] posture_calm_def posture_tips_def
          shrinks_timers)
    then show ?thesis using inv posture_calm_inv posture_calm_budget by blast
  next
    case False
    then have e: "pending PostureAlert s = []" using timer_inv_idle[OF inv] by blast
    have w: "postureWarning flags s =
       s\<lparr>timers := timers s @ [(nextHandle s, PostureAlert)], nextHandle := nextHandle s + 1,
         badPostureTimer := Some (nextHandle s),
         currentAnswerPostures := currentAnswerPostures s @ [f]\<rparr>"
      using False by (intro postureWarning_arm[OF fl]) simp_all
    have "pending PostureAlert (postureWarning flags s) = [(nextHandle s, PostureAlert)]"
      using e by (simp add: w pending_def)
    then have "timer_inv PostureAlert (Some (nextHandle s)) False (postureWarning flags s)"
      using h by (intro timer_inv_single) simp_all
    moreover have "badPostureTimer (postureWarning flags s) = Some (nextHandle s)"
      "isAlertingPosture (postureWarning flags s) = False"
      "posture_budget (postureWarning flags s) = posture_budget s"
      using False by (simp_all add: w posture_budget_def posture_tips_def)
    ultimately show ?thesis by simp
  qed
qed

lemma postureWarning_recovers:
  assumes inv: "timer_inv PostureAlert (badPostureTimer s) (isAlertingPosture s) s"
  shows "pending PostureAlert (postureWarning [] s) = []
         \<and> \<not> isAlertingPosture (postureWarning [] s)
         \<and> \<not> handle_truthy (badPostureTimer (postureWarning [] s))
         \<and> posture_tips (postureWarning [] s) = posture_tips s"
proof (cases "handle_truthy (badPostureTimer s)")
  case True
  then obtain h where h: "badPostureTimer s = Some h" "h \<noteq> 0"
    by (cases "badPostureTimer s") auto
  have "\<forall>t \<in> set (pending PostureAlert s). fst t = h"
    using inv h by (auto simp: timer_inv_def)
  then have "filter (\<lambda>t. fst t \<noteq> h) (pending PostureAlert s) = []"
    by (auto simp: filter_empty_conv)
  then have "pending PostureAlert (clearTimeout h s) = []"
    by (simp add: pending_clearTimeout)
  then show ?thesis
    using h by (simp add: postureWarning_good pending_def posture_tips_def clearTimeout_def)
next
  case False
  then have "pending PostureAlert s = []" using timer_inv_idle[OF inv] by blast
  then show ?thesis
    using False
    by (cases "badPostureTimer s") (simp_all add: postureWarning_good pending_def posture_tips_def)
qed

text \<open>A frame, handled in a state that satisfies the invariant.\<close>

lemma pose_step:
  assumes inv: "alert_inv st"
  shows "alert_inv (snd (handlePoseResults r st))
     \<and> emotion_budget (snd (handlePoseResults r st)) = emotion_budget st
     \<and> (\<not> posture_recovers st (PoseResults r) \<longrightarrow>
          posture_budget (snd (handlePoseResults r st)) = posture_budget st)
     \<and> (posture_recovers st (PoseResults r) \<longrightarrow>
          pending PostureAlert (snd (handlePoseResults r st)) = []
          \<and> \<not> isAlertingPosture (snd (handlePoseResults r st))
          \<and> \<not> handle_truthy (badPostureTimer (snd (handlePoseResults r st)))
          \<and> posture_tips (snd (handlePoseResults r st)) = posture_tips st)"
proof (cases "recording st \<and> posture_observation st r \<noteq> None")
  case False
  then have "alert_state (snd (handlePoseResults r st)) = alert_state st"
    using handlePoseResults_idle handlePoseResults_unclassified by blast
  then have "benign st (snd (handlePoseResults r st))" by (rule benign_same)
  then show ?thesis
    using False inv benign_inv benign_budget by auto
next
  case True
  then obtain flags where obs: "posture_observation st r = Some flags" and rec: "recording st"
    by auto
  from handlePoseResults_classifies[OF obs] rec obtain kps where
    eq: "snd (handlePoseResults r st) =
           postureWarning flags
             (st\<lparr>lastKeypoints := Some kps, postureUI := Some (posture_display flags)\<rparr>)"
    by auto
  let ?s = "st\<lparr>lastKeypoints := Some kps, postureUI := Some (posture_display flags)\<rparr>"
  have same: "alert_state ?s = alert_state st" by (simp add: alert_state_def)
  then have b: "benign st ?s" by (rule benign_same)
  then have inv_s: "alert_inv ?s" using inv by (rule benign_inv)
  have bud: "posture_budget ?s = posture_budget st" "emotion_budget ?s = emotion_budget st"
    using benign_budget[OF b] by simp_all
  have tips: "posture_tips ?s = posture_tips st" by (simp add: posture_tips_def)
  have pin: "timer_inv PostureAlert (badPostureTimer ?s) (isAlertingPosture ?s) ?s"
    and h: "0 < nextHandle ?s"
    using inv_s by (simp_all only: alert_inv_def)
  have em: "emotion_calm ?s (postureWarning flags ?s)" by (rule postureWarning_emotion)
  have ein: "timer_inv EmotionAlert (badEmotionTimer (postureWarning flags ?s))
               (isAlertingEmotion (postureWarning flags ?s)) (postureWarning flags ?s)"
    using inv_s emotion_calm_inv[OF em] by (simp only: alert_inv_def)
  have nh: "0 < nextHandle (postureWarning flags ?s)"
    using h postureWarning_nextHandle[of ?s flags] by linarith
  have eb: "emotion_budget (postureWarning flags ?s) = emotion_budget st"
    using emotion_calm_budget[OF em] bud by simp
  show ?thesis
  proof (cases "flags = []")
    case bad: False
    from postureWarning_adverse[OF pin h bad]
    have "timer_inv PostureAlert (badPostureTimer (postureWarning flags ?s))
           (isAlertingPosture (postureWarning flags ?s)) (postureWarning flags ?s)"
      and "posture_budget (postureWarning flags ?s) = posture_budget st"
      using bud by simp_all
    moreover have "\<not> posture_recovers st (PoseResults r)" using obs bad by simp
    ultimately show ?thesis
      unfolding eq using ein nh eb by (simp add: alert_inv_def del: posture_recovers.simps)
  next
    case good: True
    from postureWarning_recovers[OF pin]
    have r: "pending PostureAlert (postureWarning [] ?s) = []"
         "\<not> isAlertingPosture (postureWarning [] ?s)"
         "\<not> handle_truthy (badPostureTimer (postureWarning [] ?s))"
         "posture_tips (postureWarning [] ?s) = posture_tips st"
      using tips by simp_all
    have "timer_inv PostureAlert (badPostureTimer (postureWarning [] ?s))
           (isAlertingPosture (postureWarning [] ?s)) (postureWarning [] ?s)"
      using r(1) by (rule timer_inv_empty)
    moreover have "posture_recovers st (PoseResults r)" using obs good rec by simp
    ultimately show ?thesis
      unfolding eq using ein nh eb r good
      by (simp add: alert_inv_def del: posture_recovers.simps)
  qed
qed

text \<open>The same for the emotion script.\<close>

lemma emotionWarning_arm:
  assumes "e \<in> NEGATIVE_EMOTIONS" and "\<not> handle_truthy (badEmotionTimer s)"
    and "\<not> isAlertingEmotion s"
  shows "emotionWarning e s =
     s\<lparr>timers := timers s @ [(nextHandle s, EmotionAlert)], nextHandle := nextHandle s + 1,
       badEmotionTimer := Some (nextHandle s),
       currentAnswerEmotions := currentAnswerEmotions s @ [e]\<rparr>"
  using assms by (simp add: emotionWarning_def setTimeout_def Let_def)

lemma emotionWarning_wait:
  assumes "e \<in> NEGATIVE_EMOTIONS" and "handle_truthy (badEmotionTimer s) \<or> isAlertingEmotion s"
  shows "emotionWarning e s = s\<lparr>currentAnswerEmotions := currentAnswerEmotions s @ [e]\<rparr>"
  using assms by (auto simp: emotionWarning_def Let_def)

lemma emotionWarning_good:
  assumes "e \<notin> NEGATIVE_EMOTIONS"
  shows "emotionWarning e s =
     (case badEmotionTimer s of
        Some h \<Rightarrow> if h \<noteq> 0 then (clearTimeout h s)\<lparr>badEmotionTimer := None\<rparr> else s
      | None \<Rightarrow> s)
     \<lparr>isAlertingEmotion := False, currentAnswerEmotions := currentAnswerEmotions s @ [e]\<rparr>"
  using assms by (simp add: emotionWarning_def Let_def clearTimeout_def split: option.splits)

lemma emotionWarning_posture: "posture_calm s (emotionWarning e s)"
proof (cases "e \<in> NEGATIVE_EMOTIONS")
  case False
  then show ?thesis
    by (simp add: emotionWarning_good posture_calm_def posture_tips_def clearTimeout_def
        shrinks_filter shrinks_timers split: option.splits)
next
  case neg: True
  show ?thesis
  proof (cases "handle_truthy (badEmotionTimer s) \<or> isAlertingEmotion s")
    case True
    then show ?thesis
      by (simp add: emotionWarning_wait[OF neg] posture_calm_def posture_tips_def shrinks_timers)
  next
    case False
    then show ?thesis
      by (simp add: emotionWarning_arm[OF neg] posture_calm_def posture_tips_def shrinks_other)
  qed
qed

lemma emotionWarning_nextHandle: "nextHandle s \<le> nextHandle (emotionWarning e s)"
proof (cases "e \<in> NEGATIVE_EMOTIONS")
  case False
  then show ?thesis
    by (simp add: emotionWarning_good clearTimeout_def split: option.splits)
next
  case neg: True
  show ?thesis
  proof (cases "handle_truthy (badEmotionTimer s) \<or> isAlertingEmotion s")
    case True
    then show ?thesis by (simp add: emotionWarning_wait[OF neg])
  next
    case False
    then show ?thesis by (simp add: emotionWarning_arm[OF neg])
  qed
qed

lemma emotionWarning_adverse:
  assumes inv: "timer_inv EmotionAlert (badEmotionTimer s) (isAlertingEmotion s) s"
    and h: "0 < nextHandle s" and neg: "e \<in> NEGATIVE_EMOTIONS"
  shows "timer_inv EmotionAlert (badEmotionTimer (emotionWarning e s))
           (isAlertingEmotion (emotionWarning e s)) (emotionWarning e s)
         \<and> emotion_budget (emotionWarning e s) = emotion_budget s"
proof (cases "handle_truthy (badEmotionTimer s) \<or> isAlertingEmotion s")
  case True
  have "emotion_calm s (emotionWarning e s)"
    by (simp add: emotionWarning_wait[OF neg True] emotion_calm_def emotion_tips_def
        shrinks_timers)
  then show ?thesis using inv emotion_calm_inv emotion_calm_budget by blast
next
  case False
  then have em: "pending EmotionAlert s = []" using timer_inv_idle[OF inv] by blast
  have w: "emotionWarning e s =
     s\<lparr>timers := timers s @ [(nextHandle s, EmotionAlert)], nextHandle := nextHandle s + 1,
       badEmotionTimer := Some (nextHandle s),
       currentAnswerEmotions := currentAnswerEmotions s @ [e]\<rparr>"
    using False by (intro emotionWarning_arm[OF neg]) simp_all
  have "pending EmotionAlert (emotionWarning e s) = [(nextHandle s, EmotionAlert)]"
    using em by (simp add: w pending_def)
  then have "timer_inv EmotionAlert (Some (nextHandle s)) False (emotionWarning e s)"
    using h by (intro timer_inv_single) simp_all
  moreover have "badEmotionTimer (emotionWarning e s) = Some (nextHandle s)"
    "isAlertingEmotion (emotionWarning e s) = False"
    "emotion_budget (emotionWarning e s) = emotion_budget s"
    using False by (simp_all add: w emotion_budget_def emotion_tips_def)
  ultimately show ?thesis by simp
qed

lemma emotionWarning_recovers:
  assumes inv: "timer_inv EmotionAlert (badEmotionTimer s) (isAlertingEmotion s) s"
    and good: "e \<notin> NEGATIVE_EMOTIONS"
  shows "pending EmotionAlert (emotionWarning e s) = []
         \<and> \<not> isAlertingEmotion (emotionWarning e s)
         \<and> \<not> handle_truthy (badEmotionTimer (emotionWarning e s))
         \<and> emotion_tips (emotionWarning e s) = emotion_tips s"
proof (cases "handle_truthy (badEmotionTimer s)")
  case True
  then obtain h where h: "badEmotionTimer s = Some h" "h \<noteq> 0"
    by (cases "badEmotionTimer s") auto
  have "\<forall>t \<in> set (pending EmotionAlert s). fst t = h"
    using inv h by (auto simp: timer_inv_def)
  then have "filter (\<lambda>t. fst t \<noteq> h) (pending EmotionAlert s) = []"
    by (auto simp: filter_empty_conv)
  then have "pending EmotionAlert (clearTimeout h s) = []"
    by (simp add: pending_clearTimeout)
  then show ?thesis
    using h
    by (simp add: emotionWarning_good[OF good] pending_def emotion_tips_def clearTimeout_def)
next
  case False
  then have "pending EmotionAlert s = []" using timer_inv_idle[OF inv] by blast
  then show ?thesis
    using False
    by (cases "badEmotionTimer s")
       (simp_all add: emotionWarning_good[OF good] pending_def emotion_tips_def)
qed

lemma face_step:
  assumes inv: "alert_inv st"
  shows "alert_inv (snd (runEmotionDetection d st))
     \<and> posture_budget (snd (runEmotionDetection d st)) = posture_budget st
     \<and> (\<not> emotion_recovers st (FacesDetected d) \<longrightarrow>
          emotion_budget (snd (runEmotionDetection d st)) = emotion_budget st)
     \<and> (emotion_recovers st (FacesDetected d) \<longrightarrow>
          pending EmotionAlert (snd (runEmotionDetection d st)) = []
          \<and> \<not> isAlertingEmotion (snd (runEmotionDetection d st))
          \<and> \<not> handle_truthy (badEmotionTimer (snd (runEmotionDetection d st)))
          \<and> emotion_tips (snd (runEmotionDetection d st)) = emotion_tips st)"
proof (cases "recording st \<and> emotion_observation st d \<noteq> None")
  case False
  then have "alert_state (snd (runEmotionDetection d st)) = alert_state st"
    using runEmotionDetection_idle runEmotionDetection_unobserved by blast
  then have "benign st (snd (runEmotionDetection d st))" by (rule benign_same)
  moreover have "\<not> emotion_recovers st (FacesDetected d)" using False by auto
  ultimately show ?thesis
    using inv benign_inv benign_budget by (auto simp del: emotion_recovers.simps)
next
  case True
  then obtain e where obs: "emotion_observation st d = Some e" and rec: "recording st"
    by auto
  let ?s = "st\<lparr>lastDetectedEmotion := e, emotionUI := Some (emotion_display e)\<rparr>"
  have eq: "snd (runEmotionDetection d st) = emotionWarning e ?s"
    using runEmotionDetection_observes[OF obs] rec by simp
  have same: "alert_state ?s = alert_state st" by (simp add: alert_state_def)
  then have b: "benign st ?s" by (rule benign_same)
  then have inv_s: "alert_inv ?s" using inv by (rule benign_inv)
  have bud: "posture_budget ?s = posture_budget st" "emotion_budget ?s = emotion_budget st"
    using benign_budget[OF b] by simp_all
  have tips: "emotion_tips ?s = emotion_tips st" by (simp add: emotion_tips_def)
  have ein: "timer_inv EmotionAlert (badEmotionTimer ?s) (isAlertingEmotion ?s) ?s"
    and h: "0 < nextHandle ?s"
    using inv_s by (simp_all only: alert_inv_def)
  have pc: "posture_calm ?s (emotionWarning e ?s)" by (rule emotionWarning_posture)
  have pin: "timer_inv PostureAlert (badPostureTimer (emotionWarning e ?s))
               (isAlertingPosture (emotionWarning e ?s)) (emotionWarning e ?s)"
    using inv_s posture_calm_inv[OF pc] by (simp only: alert_inv_def)
  have nh: "0 < nextHandle (emotionWarning e ?s)"
    using h emotionWarning_nextHandle[of ?s e] by linarith
  have pb: "posture_budget (emotionWarning e ?s) = posture_budget st"
    using posture_calm_budget[OF pc] bud by simp
  show ?thesis
  proof (cases "e \<in> NEGATIVE_EMOTIONS")
    case neg: True
    from emotionWarning_adverse[OF ein h neg]
    have "timer_inv EmotionAlert (badEmotionTimer (emotionWarning e ?s))
           (isAlertingEmotion (emotionWarning e ?s)) (emotionWarning e ?s)"
      and "emotion_budget (emotionWarning e ?s) = emotion_budget st"
      using bud by simp_all
    moreover have "\<not> emotion_recovers st (FacesDetected d)" using obs neg by simp
    ultimately show ?thesis
      unfolding eq using pin nh pb by (simp add: alert_inv_def del: emotion_recovers.simps)
  next
    case good: False
    from emotionWarning_recovers[OF ein good]
    have r: "pending EmotionAlert (emotionWarning e ?s) = []"
         "\<not> isAlertingEmotion (emotionWarning e ?s)"
         "\<not> handle_truthy (badEmotionTimer (emotionWarning e ?s))"
         "emotion_tips (emotionWarning e ?s) = emotion_tips st"
      using tips by simp_all
    have "timer_inv EmotionAlert (badEmotionTimer (emotionWarning e ?s))
           (isAlertingEmotion (emotionWarning e ?s)) (emotionWarning e ?s)"
      using r(1) by (rule timer_inv_empty)
    moreover have "emotion_recovers st (FacesDetected d)" using obs good rec by simp
    ultimately show ?thesis
      unfolding eq using pin nh pb r
      by (simp add: alert_inv_def del: emotion_recovers.simps)
  qed
qed

lemma find_member: "find P xs = Some p \<Longrightarrow> p \<in> set xs \<and> P p"
  by (induction xs) (auto split: if_splits)

lemma showNotification_alert:
  "badPostureTimer (showNotification m x s) = badPostureTimer s"
  "isAlertingPosture (showNotification m x s) = isAlertingPosture s"
  "badEmotionTimer (showNotification m x s) = badEmotionTimer s"
  "isAlertingEmotion (showNotification m x s) = isAlertingEmotion s"
  "nextHandle (showNotification m x s) = nextHandle s + 1"
  "timers (showNotification m x s) = timers s @ [(nextHandle s, HideNotification)]"
  by (simp_all add: showNotification_def setTimeout_def)

lemma showNotification_pending:
  "cb \<noteq> HideNotification \<Longrightarrow> pending cb (showNotification m x s) = pending cb s"
  by (simp add: pending_def showNotification_alert)

lemma showNotification_tips:
  "posture_tips (showNotification m x s) = posture_tips s + (if m = PostureTip then 1 else 0)"
  "emotion_tips (showNotification m x s) = emotion_tips s + (if m = EmotionTip then 1 else 0)"
  by (simp_all add: posture_tips_def emotion_tips_def showNotification_fields)

lemma posture_alerted_facts:
  "pending cb (posture_alerted s) = pending cb (showNotification PostureTip Error s)"
  "badEmotionTimer (posture_alerted s) = badEmotionTimer s"
  "isAlertingEmotion (posture_alerted s) = isAlertingEmotion s"
  "badPostureTimer (posture_alerted s) = None"
  "isAlertingPosture (posture_alerted s) = True"
  "nextHandle (posture_alerted s) = nextHandle s + 1"
  "posture_tips (posture_alerted s) = posture_tips s + 1"
  "emotion_tips (posture_alerted s) = emotion_tips s"
  using showNotification_tips[of PostureTip Error s]
  by (simp_all add: posture_alerted_def pending_def posture_tips_def emotion_tips_def
      showNotification_alert)

lemma emotion_alerted_facts:
  "pending cb (emotion_alerted s) = pending cb (showNotification EmotionTip Error s)"
  "badPostureTimer (emotion_alerted s) = badPostureTimer s"
  "isAlertingPosture (emotion_alerted s) = isAlertingPosture s"
  "badEmotionTimer (emotion_alerted s) = None"
  "isAlertingEmotion (emotion_alerted s) = True"
  "nextHandle (emotion_alerted s) = nextHandle s + 1"
  "emotion_tips (emotion_alerted s) = emotion_tips s + 1"
  "posture_tips (emotion_alerted s) = posture_tips s"
  using showNotification_tips[of EmotionTip Error s]
  by (simp_all add: emotion_alerted_def pending_def posture_tips_def emotion_tips_def
      showNotification_alert)

lemma postureAlertCallback_cases:
  "snd (postureAlertCallback s) = s
   \<or> snd (postureAlertCallback s) = s\<lparr>badPostureTimer := None\<rparr>
   \<or> snd (postureAlertCallback s) = posture_alerted s"
  by (simp add: postureAlertCallback_def posture_alerted_def Let_def split: option.splits)

lemma emotionAlertCallback_cases:
  "emotionAlertCallback s = s\<lparr>badEmotionTimer := None\<rparr>
   \<or> emotionAlertCallback s = emotion_alerted s"
  by (simp add: emotionAlertCallback_def emotion_alerted_def Let_def)

text \<open>A state in which no posture timer is pending and no alert has been given.\<close>

lemma posture_alerted_step:
  assumes inv: "alert_inv s" and none: "pending PostureAlert s = []"
    and quiet: "\<not> isAlertingPosture s"
  shows "alert_inv (posture_alerted s)
     \<and> posture_budget (posture_alerted s) = posture_budget s
     \<and> emotion_budget (posture_alerted s) = emotion_budget s"
proof -
  have p: "pending PostureAlert (posture_alerted s) = []"
    "pending EmotionAlert (posture_alerted s) = pending EmotionAlert s"
    using none by (simp_all add: posture_alerted_facts showNotification_pending)
  have "timer_inv PostureAlert None True (posture_alerted s)"
    using p(1) by (rule timer_inv_empty)
  moreover have "timer_inv EmotionAlert (badEmotionTimer s) (isAlertingEmotion s) (posture_alerted s)"
    using inv p(2) by (simp add: alert_inv_def timer_inv_def)
  ultimately have "alert_inv (posture_alerted s)"
    using inv by (simp add: alert_inv_def posture_alerted_facts)
  moreover have "posture_budget (posture_alerted s) = posture_budget s"
    using quiet by (simp add: posture_budget_def allowance_def posture_alerted_facts)
  moreover have "emotion_budget (posture_alerted s) = emotion_budget s"
    by (simp add: emotion_budget_def posture_alerted_facts)
  ultimately show ?thesis by simp
qed

lemma emotion_alerted_step:
  assumes inv: "alert_inv s" and none: "pending EmotionAlert s = []"
    and quiet: "\<not> isAlertingEmotion s"
  shows "alert_inv (emotion_alerted s)
     \<and> posture_budget (emotion_alerted s) = posture_budget s
     \<and> emotion_budget (emotion_alerted s) = emotion_budget s"
proof -
  have p: "pending EmotionAlert (emotion_alerted s) = []"
    "pending PostureAlert (emotion_alerted s) = pending PostureAlert s"
    using none by (simp_all add: emotion_alerted_facts showNotification_pending)
  have "timer_inv EmotionAlert None True (emotion_alerted s)"
    using p(1) by (rule timer_inv_empty)
  moreover have "timer_inv PostureAlert (badPostureTimer s) (isAlertingPosture s) (emotion_alerted s)"
    using inv p(2) by (simp add: alert_inv_def timer_inv_def)
  ultimately have "alert_inv (emotion_alerted s)"
    using inv by (simp add: alert_inv_def emotion_alerted_facts)
  moreover have "emotion_budget (emotion_alerted s) = emotion_budget s"
    using quiet by (simp add: emotion_budget_def allowance_def emotion_alerted_facts)
  moreover have "posture_budget (emotion_alerted s) = posture_budget s"
    by (simp add: posture_budget_def emotion_alerted_facts)
  ultimately show ?thesis by simp
qed

lemma posture_handle_cleared:
  assumes inv: "alert_inv s" and none: "pending PostureAlert s = []"
  shows "alert_inv (s\<lparr>badPostureTimer := None\<rparr>)
     \<and> posture_budget (s\<lparr>badPostureTimer := None\<rparr>) = posture_budget s
     \<and> emotion_budget (s\<lparr>badPostureTimer := None\<rparr>) = emotion_budget s"
  using assms
  by (simp add: alert_inv_def timer_inv_def pending_def posture_budget_def emotion_budget_def
      posture_tips_def emotion_tips_def)

lemma emotion_handle_cleared:
  assumes inv: "alert_inv s" and none: "pending EmotionAlert s = []"
  shows "alert_inv (s\<lparr>badEmotionTimer := None\<rparr>)
     \<and> posture_budget (s\<lparr>badEmotionTimer := None\<rparr>) = posture_budget s
     \<and> emotion_budget (s\<lparr>badEmotionTimer := None\<rparr>) = emotion_budget s"
  using assms
  by (simp add: alert_inv_def timer_inv_def pending_def posture_budget_def emotion_budget_def
      posture_tips_def emotion_tips_def)

lemma postureAlert_fires:
  assumes inv: "alert_inv st" and p: "p \<in> set (timers st)" "fst p = h" "snd p = PostureAlert"
  shows "alert_inv (snd (postureAlertCallback (clearTimeout h st)))
     \<and> posture_budget (snd (postureAlertCallback (clearTimeout h st))) = posture_budget st
     \<and> emotion_budget (snd (postureAlertCallback (clearTimeout h st))) = emotion_budget st"
proof -
  let ?s = "clearTimeout h st"
  have b: "benign st ?s" by (rule benign_clearTimeout)
  have inv_s: "alert_inv ?s" using b inv by (rule benign_inv)
  have bud: "posture_budget ?s = posture_budget st" "emotion_budget ?s = emotion_budget st"
    using benign_budget[OF b] by simp_all
  have tin: "timer_inv PostureAlert (badPostureTimer st) (isAlertingPosture st) st"
    using inv by (simp add: alert_inv_def)
  from timer_inv_fired[OF tin p(1) p(3)]
  have one: "pending PostureAlert st = [p]" and quiet: "\<not> isAlertingPosture st" by simp_all
  have none: "pending PostureAlert ?s = []"
    using one p(2) by (simp add: pending_clearTimeout)
  have quiet_s: "\<not> isAlertingPosture ?s" using quiet by (simp add: clearTimeout_def)
  from postureAlertCallback_cases[of ?s] posture_alerted_step[OF inv_s none quiet_s]
    posture_handle_cleared[OF inv_s none] inv_s bud
  show ?thesis by metis
qed

lemma emotionAlert_fires:
  assumes inv: "alert_inv st" and p: "p \<in> set (timers st)" "fst p = h" "snd p = EmotionAlert"
  shows "alert_inv (emotionAlertCallback (clearTimeout h st))
     \<and> posture_budget (emotionAlertCallback (clearTimeout h st)) = posture_budget st
     \<and> emotion_budget (emotionAlertCallback (clearTimeout h st)) = emotion_budget st"
proof -
  let ?s = "clearTimeout h st"
  have b: "benign st ?s" by (rule benign_clearTimeout)
  have inv_s: "alert_inv ?s" using b inv by (rule benign_inv)
  have bud: "posture_budget ?s = posture_budget st" "emotion_budget ?s = emotion_budget st"
    using benign_budget[OF b] by simp_all
  have tin: "timer_inv EmotionAlert (badEmotionTimer st) (isAlertingEmotion st) st"
    using inv by (simp add: alert_inv_def)
  from timer_inv_fired[OF tin p(1) p(3)]
  have one: "pending EmotionAlert st = [p]" and quiet: "\<not> isAlertingEmotion st" by simp_all
  have none: "pending EmotionAlert ?s = []"
    using one p(2) by (simp add: pending_clearTimeout)
  have quiet_s: "\<not> isAlertingEmotion ?s" using quiet by (simp add: clearTimeout_def)
  from emotionAlertCallback_cases[of ?s] emotion_alerted_step[OF inv_s none quiet_s]
    emotion_handle_cleared[OF inv_s none] bud
  show ?thesis by metis
qed

lemma timer_step:
  assumes inv: "alert_inv st"
  shows "alert_inv (timerFires h st)
     \<and> posture_budget (timerFires h st) = posture_budget st
     \<and> emotion_budget (timerFires h st) = emotion_budget st"
proof (cases "find (\<lambda>t. fst t = h) (timers st)")
  case None
  then show ?thesis using inv by (simp add: timerFires_def)
next
  case (Some p)
  then have p: "p \<in> set (timers st)" "fst p = h" using find_member by fastforce+
  show ?thesis
  proof (cases "snd p")
    case HideNotification
    have "benign st (clearTimeout h st)" by (rule benign_clearTimeout)
    then show ?thesis
      using Some HideNotification inv benign_inv benign_budget
      by (simp add: timerFires_def)
  next
    case PostureAlert
    from postureAlert_fires[OF inv p PostureAlert] show ?thesis
      using Some PostureAlert by (simp add: timerFires_def)
  next
    case EmotionAlert
    from emotionAlert_fires[OF inv p EmotionAlert] show ?thesis
      using Some EmotionAlert by (simp add: timerFires_def)
  next
    case EmotionLoop
    then show ?thesis using Some inv by (simp add: timerFires_def)
  qed
qed

lemma benign_step:
  "e \<in> {SetBaselineClick, AnswerButtonClick, MicrophoneGranted, EndInterviewClick,
         RestartInterviewClick, CanvasReady} \<or> e = WebcamReady tracks
   \<Longrightarrow> benign st (step e st)"
  by (auto simp: benign_setBaselineClick benign_handleAnswerButtonClick benign_endInterview
      benign_misc)

lemma step_summary:
  assumes inv: "alert_inv st"
  shows "alert_inv (step e st)
     \<and> (\<not> posture_recovers st e \<longrightarrow> posture_budget (step e st) = posture_budget st)
     \<and> (\<not> emotion_recovers st e \<longrightarrow> emotion_budget (step e st) = emotion_budget st)"
proof (cases e)
  case (PoseResults r)
  then show ?thesis using pose_step[OF inv, of r] by (simp del: posture_recovers.simps)
next
  case (FacesDetected d)
  then show ?thesis using face_step[OF inv, of d] by (simp del: emotion_recovers.simps)
next
  case (TimerFires h)
  then show ?thesis using timer_step[OF inv, of h] by simp
next
  case (WebcamReady tracks)
  then have "benign st (step e st)" using benign_step by blast
  then show ?thesis using inv benign_inv benign_budget by blast
qed (use inv benign_inv benign_budget benign_step[of e undefined st] in blast)+

lemma posture_episode_budget:
  "alert_inv st \<Longrightarrow> posture_episode st es \<Longrightarrow>
     alert_inv (run es st) \<and> posture_budget (run es st) = posture_budget st"
proof (induction es arbitrary: st)
  case Nil
  then show ?case by simp
next
  case (Cons e es)
  from step_summary[OF Cons.prems(1), of e] Cons.prems(2)
  have "alert_inv (step e st)" "posture_budget (step e st) = posture_budget st"
    "posture_episode (step e st) es"
    by simp_all
  with Cons.IH[of "step e st"] show ?case by simp
qed

lemma emotion_episode_budget:
  "alert_inv st \<Longrightarrow> emotion_episode st es \<Longrightarrow>
     alert_inv (run es st) \<and> emotion_budget (run es st) = emotion_budget st"
proof (induction es arbitrary: st)
  case Nil
  then show ?case by simp
next
  case (Cons e es)
  from step_summary[OF Cons.prems(1), of e] Cons.prems(2)
  have "alert_inv (step e st)" "emotion_budget (step e st) = emotion_budget st"
    "emotion_episode (step e st) es"
    by simp_all
  with Cons.IH[of "step e st"] show ?case by simp
qed

lemma alert_inv_run: "alert_inv st \<Longrightarrow> alert_inv (run es st)"
  by (induction es arbitrary: st) (simp_all add: step_summary)

lemma alert_inv_init: "alert_inv init"
  by (simp add: alert_inv_def timer_inv_def pending_def init_def)

lemma step_recovery:
  assumes inv: "alert_inv st"
  shows "(posture_recovers st e \<longrightarrow>
            pending PostureAlert (step e st) = [] \<and> \<not> isAlertingPosture (step e st)
            \<and> \<not> handle_truthy (badPostureTimer (step e st))
            \<and> posture_tips (step e st) = posture_tips st)
       \<and> (emotion_recovers st e \<longrightarrow>
            pending EmotionAlert (step e st) = [] \<and> \<not> isAlertingEmotion (step e st)
            \<and> \<not> handle_truthy (badEmotionTimer (step e st))
            \<and> emotion_tips (step e st) = emotion_tips st)"
proof (cases e)
  case (PoseResults r)
  then show ?thesis using pose_step[OF inv, of r] by (simp del: posture_recovers.simps)
next
  case (FacesDetected d)
  then show ?thesis using face_step[OF inv, of d] by (simp del: emotion_recovers.simps)
qed simp_all

text \<open>
  The properties of an episode, in a state that satisfies the invariant of the alert
  timers.
\<close>

lemma one_alert_per_episode:
  assumes "alert_inv st"
  shows "(posture_episode st es \<longrightarrow>
            posture_tips (run es st) \<le> posture_tips st + 1
            \<and> (isAlertingPosture st \<longrightarrow> posture_tips (run es st) \<le> posture_tips st))
       \<and> (emotion_episode st es \<longrightarrow>
            emotion_tips (run es st) \<le> emotion_tips st + 1
            \<and> (isAlertingEmotion st \<longrightarrow> emotion_tips (run es st) \<le> emotion_tips st))
       \<and> (posture_recovers st e \<longrightarrow>
            pending PostureAlert (step e st) = [] \<and> \<not> isAlertingPosture (step e st)
            \<and> \<not> handle_truthy (badPostureTimer (step e st))
            \<and> posture_tips (step e st) = posture_tips st)
       \<and> (emotion_recovers st e \<longrightarrow>
            pending EmotionAlert (step e st) = [] \<and> \<not> isAlertingEmotion (step e st)
            \<and> \<not> handle_truthy (badEmotionTimer (step e st))
            \<and> emotion_tips (step e st) = emotion_tips st)"
proof -
  have p: "posture_tips (run es st) \<le> posture_tips st + 1
            \<and> (isAlertingPosture st \<longrightarrow> posture_tips (run es st) \<le> posture_tips st)"
    if "posture_episode st es"
  proof -
    from posture_episode_budget[OF assms that]
    have "posture_tips (run es st) + allowance (isAlertingPosture (run es st))
            = posture_tips st + allowance (isAlertingPosture st)"
      by (simp add: posture_budget_def)
    then show ?thesis by (auto simp: allowance_def split: if_splits)
  qed
  have q: "emotion_tips (run es st) \<le> emotion_tips st + 1
            \<and> (isAlertingEmotion st \<longrightarrow> emotion_tips (run es st) \<le> emotion_tips st)"
    if "emotion_episode st es"
  proof -
    from emotion_episode_budget[OF assms that]
    have "emotion_tips (run es st) + allowance (isAlertingEmotion (run es st))
            = emotion_tips st + allowance (isAlertingEmotion st)"
      by (simp add: emotion_budget_def)
    then show ?thesis by (auto simp: allowance_def split: if_splits)
  qed
  show ?thesis using p q step_recovery[OF assms, of e] by blast
qed

lemma level_guard: "pose_guard (frame_results level_frame) = Inr (Some level_frame)"
  by (simp add: pose_guard_def frame_results_def level_frame_def landmark_def)

lemma straight_angle: "js_div (js_num (Math_PI * 180)) (Fin Math_PI) = Fin 180"
proof -
  have a: "js_num (Math_PI * 180) = Fin (4974073419394997 / 2 ^ 43)"
    by (rule js_num_eval[where e = 9]) (simp_all add: Math_PI_def fl_numeral)
  have b: "js_num (4974073419394997 / 2 ^ 43 / Math_PI) = Fin 180"
    by (rule js_num_eval[where e = 7]) (simp_all add: Math_PI_def fl_numeral)
  have "Math_PI \<noteq> 0" by (simp add: Math_PI_def)
  then show ?thesis unfolding a using b by simp
qed

lemma level_flags: "analyzePosture None level_frame = []"
  by (simp add: analyzePosture_def level_frame_def frame_eval slouching_check_def
      tilt_check_def leaning_check_def shoulders_check_def straight_angle)

lemma sad_dominant: "dominantEmotion sad_scores = Inr ''sad''"
  by (simp add: dominantEmotion_def sad_scores_def js_sort_def)

lemma tied_dominant: "dominantEmotion tied_scores = Inr ''happy''"
  by (simp add: dominantEmotion_def tied_scores_def js_sort_def)

lemmas handler_eval =
  handlePoseResults_def nose_only_guard nose_only_flags level_guard level_flags
  updatePostureUI_def postureWarning_def setTimeout_def clearTimeout_def Let_def
  timerFires_def postureAlertCallback_def showNotification_def
  runEmotionDetection_def sad_dominant tied_dominant emotionWarning_def
  emotionAlertCallback_def NEGATIVE_EMOTIONS_def

lemma cap: "capitalize ''sad'' = ''Sad''"
  by code_simp

lemma adverse_tips:
  "posture_tips (run adverse_run recording_state) = 1"
  "emotion_tips (run adverse_run recording_state) = 1"
  by (simp_all add: adverse_run_def hidden_def sad_def recording_state_eq init_def handler_eval
      posture_tips_def emotion_tips_def)

lemma full_tips:
  "posture_tips (run (adverse_run @ second_run) recording_state) = 2"
  "emotion_tips (run (adverse_run @ second_run) recording_state) = 2"
  by (simp_all add: adverse_run_def second_run_def hidden_def sad_def level_def calm_def
      recording_state_eq init_def handler_eval posture_tips_def emotion_tips_def)

lemma adverse_episode:
  "posture_episode recording_state adverse_run"
  "emotion_episode recording_state adverse_run"
  by (simp_all add: adverse_run_def hidden_def sad_def recording_state_eq init_def handler_eval
      posture_observation_def emotion_observation_def)

lemma recoveries:
  "posture_recovers recording_state level"
  "emotion_recovers recording_state calm"
  by (simp_all add: level_def calm_def recording_state_eq init_def
      posture_observation_def emotion_observation_def level_guard level_flags tied_dominant
      NEGATIVE_EMOTIONS_def)

text \<open>
  Claim C3. In every state that an execution reaches, for the posture machine and the
  emotion machine alike: over every episode, that is every sequence of events without a
  non-adverse observation made while recording, at most one coaching tip is shown, and
  none if the alert of the episode has been given already. A non-adverse observation made
  while recording cancels the pending timer and clears the alert flag without showing a
  tip, so that a new episode can alert again.
\<close>

theorem C3_one_alert_per_episode:
  assumes "st = run pre init"
  shows "(posture_episode st es \<longrightarrow>
            posture_tips (run es st) \<le> posture_tips st + 1
            \<and> (isAlertingPosture st \<longrightarrow> posture_tips (run es st) \<le> posture_tips st))
       \<and> (emotion_episode st es \<longrightarrow>
            emotion_tips (run es st) \<le> emotion_tips st + 1
            \<and> (isAlertingEmotion st \<longrightarrow> emotion_tips (run es st) \<le> emotion_tips st))
       \<and> (posture_recovers st e \<longrightarrow>
            pending PostureAlert (step e st) = [] \<and> \<not> isAlertingPosture (step e st)
            \<and> \<not> handle_truthy (badPostureTimer (step e st))
            \<and> posture_tips (step e st) = posture_tips st)
       \<and> (emotion_recovers st e \<longrightarrow>
            pending EmotionAlert (step e st) = [] \<and> \<not> isAlertingEmotion (step e st)
            \<and> \<not> handle_truthy (badEmotionTimer (step e st))
            \<and> emotion_tips (step e st) = emotion_tips st)"
proof -
  have "alert_inv st"
    unfolding assms by (intro alert_inv_run alert_inv_init)
  then show ?thesis by (rule one_alert_per_episode)
qed

text \<open>
  While recording, a frame without shoulders and a sad face arm the timers; both fire and
  show one tip each; further adverse observations show no more. After a good frame and a
  happy face the same events show a second tip each.
\<close>

theorem C3_one_alert_per_episode_witness:
  "alert_inv recording_state
   \<and> posture_episode recording_state adverse_run
   \<and> emotion_episode recording_state adverse_run
   \<and> posture_tips (run adverse_run recording_state) = 1
   \<and> emotion_tips (run adverse_run recording_state) = 1
   \<and> posture_recovers recording_state level
   \<and> emotion_recovers recording_state calm
   \<and> posture_tips (run (adverse_run @ second_run) recording_state) = 2
   \<and> emotion_tips (run (adverse_run @ second_run) recording_state) = 2"
proof -
  have inv: "alert_inv recording_state"
    unfolding recording_state_def by (intro alert_inv_run alert_inv_init)
  from C3_one_alert_per_episode[OF recording_state_def, of adverse_run level]
  have "posture_tips (run adverse_run recording_state) \<le> posture_tips recording_state + 1"
    using adverse_episode by blast
  then show ?thesis
    using inv adverse_episode adverse_tips recoveries full_tips by simp
qed

end
